(* ===== verification/Prelude.thy ===== *)
theory Prelude
  imports Main "HOL-Library.Word" "HOL-Library.Signed_Division" "HOL-Library.Monad_Syntax"
begin

text \<open>
  Shared vocabulary of the development: the machine types of the code, the C library calls
  the sources use on raw memory (\<open>memcpy\<close>), truncating division, and generic lemmas on lists
  and on residues that several components need. An access outside an object is undefined
  behaviour in C and C++; every operation that can perform one returns an option, with
  \<open>None\<close> for the undefined case.
\<close>

type_synonym byte = "8 word"
type_synonym u16 = "16 word"

named_theorems mem_simps \<open>evaluation of memory operations on lists\<close>
named_theorems inv_intros \<open>introduction rules for component invariants\<close>

subsection \<open>Memory\<close>

text \<open>
  \<open>memcpy dst off src n\<close>: the object \<open>dst\<close> after copying the first \<open>n\<close> elements of \<open>src\<close>
  to offset \<open>off\<close>; \<open>None\<close> when the source or the destination range leaves its object.
\<close>

definition memcpy :: "'a list \<Rightarrow> nat \<Rightarrow> 'a list \<Rightarrow> nat \<Rightarrow> 'a list option" where
  "memcpy dst off src n =
     (if off + n \<le> length dst \<and> n \<le> length src
      then Some (take off dst @ take n src @ drop (off + n) dst) else None)"

text \<open>\<open>memread src off n\<close>: the \<open>n\<close> elements of \<open>src\<close> from offset \<open>off\<close>, as \<open>memcpy\<close> reads them.\<close>

definition memread :: "'a list \<Rightarrow> nat \<Rightarrow> nat \<Rightarrow> 'a list option" where
  "memread src off n = (if off + n \<le> length src then Some (take n (drop off src)) else None)"

lemma memcpy_eq_Some_iff [mem_simps]:
  "memcpy dst off src n = Some d \<longleftrightarrow>
     off + n \<le> length dst \<and> n \<le> length src \<and> d = take off dst @ take n src @ drop (off + n) dst"
  by (auto simp: memcpy_def)

lemma memcpy_in_range:
  "off + n \<le> length dst \<Longrightarrow> n \<le> length src \<Longrightarrow>
   memcpy dst off src n = Some (take off dst @ take n src @ drop (off + n) dst)"
  by (simp add: memcpy_def)

lemma memcpy_length: "memcpy dst off src n = Some d \<Longrightarrow> length d = length dst"
  by (auto simp: memcpy_def split: if_splits)

lemma memcpy_nth:
  assumes "memcpy dst off src n = Some d" and "k < length dst"
  shows "d ! k = (if off \<le> k \<and> k < off + n then src ! (k - off) else dst ! k)"
  using assms by (auto simp: memcpy_def nth_append min_def split: if_splits)

lemma memcpy_0 [simp]: "off \<le> length dst \<Longrightarrow> memcpy dst off src 0 = Some dst"
  by (simp add: memcpy_def)

text \<open>Single elements, with the bounds of the object.\<close>

definition load :: "'a list \<Rightarrow> nat \<Rightarrow> 'a option" where
  "load d i = (if i < length d then Some (d ! i) else None)"

definition store :: "'a list \<Rightarrow> nat \<Rightarrow> 'a \<Rightarrow> 'a list option" where
  "store d i v = (if i < length d then Some (d[i := v]) else None)"

lemma load_in_range: "i < length d \<Longrightarrow> load d i = Some (d ! i)"
  by (simp add: load_def)

lemma store_in_range: "i < length d \<Longrightarrow> store d i v = Some (d[i := v])"
  by (simp add: store_def)

lemma drop_update_first [mem_simps]: "k < length d \<Longrightarrow> (drop k d)[0 := v] = v # drop (Suc k) d"
  by (simp flip: Cons_nth_drop_Suc)

lemma store_append [mem_simps]: "store (xs @ y # ys) (length xs) v = Some (xs @ v # ys)"
  by (simp add: store_def)

lemma memread_0 [simp]: "off \<le> length src \<Longrightarrow> memread src off 0 = Some []"
  by (simp add: memread_def)

lemma memread_in_range:
  "off + n \<le> length src \<Longrightarrow> memread src off n = Some (take n (drop off src))"
  by (simp add: memread_def)

subsection \<open>Residues\<close>

lemma mod_window_inj_le:
  fixes a i j m :: nat
  assumes "(a + i) mod m = (a + j) mod m" and "i \<le> j" and "j < m"
  shows "i = j"
proof -
  have "m dvd (a + j) - (a + i)"
    using assms(1,2) by (metis add_left_mono mod_eq_dvd_iff_nat)
  with assms(2,3) show ?thesis by (auto dest: dvd_imp_le)
qed

lemma mod_window_inj:
  fixes a i j m :: nat
  assumes "(a + i) mod m = (a + j) mod m" and "i < m" and "j < m"
  shows "i = j"
  using assms mod_window_inj_le [of a i m j] mod_window_inj_le [of a j m i]
  by (metis nat_le_linear)

lemma mod_lt: "(k::nat) < m \<Longrightarrow> x mod m < m"
  by (rule mod_less_divisor) simp

lemma mod_add_wrap:
  fixes a b m :: nat
  assumes "a < m" and "b \<le> m"
  shows "(a + b) mod m = (if a + b < m then a + b else a + b - m)"
  using assms by (auto simp: mod_if)

subsection \<open>Data refinement of an object with operations\<close>

text \<open>
  \<open>run_partial step ops c\<close> applies the operations to a concrete object and collects what they
  return; \<open>None\<close> when one of them leaves its memory. \<open>run_total\<close> is the same for an abstract
  object. A step-wise simulation extends to every sequence of operations.
\<close>

fun run_partial :: "('op \<Rightarrow> 'c \<Rightarrow> ('o \<times> 'c) option) \<Rightarrow> 'op list \<Rightarrow> 'c \<Rightarrow> ('o list \<times> 'c) option" where
  "run_partial step [] c = Some ([], c)"
| "run_partial step (x # xs) c = do {
     (out, c1) \<leftarrow> step x c;
     (os, c2) \<leftarrow> run_partial step xs c1;
     Some (out # os, c2)
   }"

fun run_total :: "('op \<Rightarrow> 'a \<Rightarrow> 'o \<times> 'a) \<Rightarrow> 'op list \<Rightarrow> 'a \<Rightarrow> 'o list \<times> 'a" where
  "run_total step [] a = ([], a)"
| "run_total step (x # xs) a =
     (let (out, a1) = step x a; (os, a2) = run_total step xs a1 in (out # os, a2))"

locale data_refinement =
  fixes R :: "'c \<Rightarrow> 'a \<Rightarrow> bool"
    and ok :: "'op \<Rightarrow> bool"
    and cstep :: "'op \<Rightarrow> 'c \<Rightarrow> ('o \<times> 'c) option"
    and astep :: "'op \<Rightarrow> 'a \<Rightarrow> 'o \<times> 'a"
  assumes sim: "R c a \<Longrightarrow> ok x \<Longrightarrow>
      \<exists>c'. cstep x c = Some (fst (astep x a), c') \<and> R c' (snd (astep x a))"
begin

lemma run_sim:
  "R c a \<Longrightarrow> list_all ok xs \<Longrightarrow>
   \<exists>c'. run_partial cstep xs c = Some (fst (run_total astep xs a), c')
     \<and> R c' (snd (run_total astep xs a))"
proof (induction xs arbitrary: c a)
  case Nil
  then show ?case by simp
next
  case (Cons x xs)
  then obtain c1 where c1: "cstep x c = Some (fst (astep x a), c1)" "R c1 (snd (astep x a))"
    using sim [of c a x] by auto
  obtain c2 where "run_partial cstep xs c1 = Some (fst (run_total astep xs (snd (astep x a))), c2)"
      "R c2 (snd (run_total astep xs (snd (astep x a))))"
    using Cons.IH [OF c1(2)] Cons.prems by auto
  with c1 show ?case by (simp add: case_prod_beta Let_def)
qed

end

text \<open>The 32-bit two's complement integer of a number: what a conversion to \<open>int\<close>, or an \<open>int\<close> that overflows, yields.\<close>

definition to_int :: "int \<Rightarrow> int" where
  "to_int x = (x + 2 ^ 31) mod 2 ^ 32 - 2 ^ 31"

end
