(* ===== verification/CircularBuffer.thy ===== *)
theory CircularBuffer
  imports Prelude
begin

text \<open>
  The ring buffer \<open>nbiot::CircularBuffer\<close> of \<open>libNbiotCore/include/nbiotcircularbuffer.h\<close>, which the
  network classes of the modems read into. The template parameter \<open>max_size\<close> is the length of
  \<open>m_buffer\<close>; indices are \<open>size_t\<close> and stay below twice \<open>max_size\<close>, so \<open>nat\<close> loses nothing.
  Operations return \<open>None\<close> where the C++ would access memory outside \<open>m_buffer\<close> or outside the
  caller's array. The abstract view is the list of stored bytes, oldest first; the interface
  \<open>bounded_fifo\<close> states what a client relies on.
\<close>

subsection \<open>State and operations\<close>

record cbuf =
  m_buffer :: "byte list"
  m_head :: nat
  m_tail :: nat
  m_full :: bool

abbreviation max_size :: "cbuf \<Rightarrow> nat" where
  "max_size b \<equiv> length (m_buffer b)"

definition cb_reset :: "cbuf \<Rightarrow> cbuf" where
  "cb_reset b = b\<lparr>m_head := 0, m_tail := 0, m_full := False\<rparr>"

definition cb_empty :: "cbuf \<Rightarrow> bool" where
  "cb_empty b \<longleftrightarrow> \<not> m_full b \<and> m_head b = m_tail b"

definition cb_full :: "cbuf \<Rightarrow> bool" where
  "cb_full b \<longleftrightarrow> m_full b"

definition cb_size :: "cbuf \<Rightarrow> nat" where
  "cb_size b =
     (if \<not> m_full b
      then if m_head b \<ge> m_tail b then m_head b - m_tail b
           else max_size b + m_head b - m_tail b
      else max_size b)"

definition cb_capacity :: "cbuf \<Rightarrow> nat" where
  "cb_capacity b = max_size b - cb_size b"

definition cb_advance :: "nat \<Rightarrow> cbuf \<Rightarrow> cbuf" where
  "cb_advance count b =
     (let b1 = (if m_full b then b\<lparr>m_tail := (m_tail b + count) mod max_size b\<rparr> else b);
          b2 = b1\<lparr>m_head := (m_head b1 + count) mod max_size b1\<rparr>
      in b2\<lparr>m_full := (m_head b2 = m_tail b2)\<rparr>)"

definition cb_retreat :: "nat \<Rightarrow> cbuf \<Rightarrow> cbuf" where
  "cb_retreat count b = b\<lparr>m_full := False, m_tail := (m_tail b + count) mod max_size b\<rparr>"

definition cb_put :: "byte \<Rightarrow> cbuf \<Rightarrow> (bool \<times> cbuf) option" where
  "cb_put data b =
     (if \<not> cb_full b
      then if m_head b < max_size b
           then Some (True, cb_advance 1 (b\<lparr>m_buffer := (m_buffer b)[m_head b := data]\<rparr>))
           else None
      else Some (False, b))"

definition cb_put_bytes :: "byte list \<Rightarrow> nat \<Rightarrow> cbuf \<Rightarrow> (bool \<times> cbuf) option" where
  "cb_put_bytes data len b =
     (if cb_capacity b \<ge> len
      then if max_size b - m_head b > len
           then do {
             buf \<leftarrow> memcpy (m_buffer b) (m_head b) data len;
             Some (True, cb_advance len (b\<lparr>m_buffer := buf\<rparr>))
           }
           else do {
             let l1 = max_size b - m_head b;
             buf \<leftarrow> memcpy (m_buffer b) (m_head b) data l1;
             let b1 = cb_advance l1 (b\<lparr>m_buffer := buf\<rparr>);
             let l2 = len - l1;
             buf2 \<leftarrow> memcpy (m_buffer b1) (m_head b1) (drop l1 data) l2;
             Some (True, cb_advance l2 (b1\<lparr>m_buffer := buf2\<rparr>))
           }
      else Some (False, b))"

text \<open>\<open>get\<close> writes through its reference argument only when it returns true: \<open>Some d\<close> is that case.\<close>

definition cb_get :: "cbuf \<Rightarrow> (byte option \<times> cbuf) option" where
  "cb_get b =
     (if \<not> cb_empty b
      then if m_tail b < max_size b then Some (Some (m_buffer b ! m_tail b), cb_retreat 1 b) else None
      else Some (None, b))"

definition cb_get_bytes :: "nat \<Rightarrow> cbuf \<Rightarrow> (byte list option \<times> cbuf) option" where
  "cb_get_bytes len b =
     (if cb_size b \<ge> len
      then if max_size b - m_tail b > len
           then do {
             d \<leftarrow> memread (m_buffer b) (m_tail b) len;
             Some (Some d, cb_retreat len b)
           }
           else do {
             let l1 = max_size b - m_tail b;
             d1 \<leftarrow> memread (m_buffer b) (m_tail b) l1;
             let b1 = cb_retreat l1 b;
             let l2 = len - l1;
             d2 \<leftarrow> memread (m_buffer b1) (m_tail b1) l2;
             Some (Some (d1 @ d2), cb_retreat l2 b1)
           }
      else Some (None, b))"

subsection \<open>Invariant and abstraction\<close>

definition cb_inv :: "cbuf \<Rightarrow> bool" where
  "cb_inv b \<longleftrightarrow> m_head b < max_size b \<and> m_tail b < max_size b \<and> (m_full b \<longrightarrow> m_head b = m_tail b)"

definition cb_contents :: "cbuf \<Rightarrow> byte list" where
  "cb_contents b = map (\<lambda>i. m_buffer b ! ((m_tail b + i) mod max_size b)) [0..<cb_size b]"

lemma length_cb_contents [simp]: "length (cb_contents b) = cb_size b"
  by (simp add: cb_contents_def)

lemma cb_contents_nth:
  "i < cb_size b \<Longrightarrow> cb_contents b ! i = m_buffer b ! ((m_tail b + i) mod max_size b)"
  by (simp add: cb_contents_def)

lemma cb_size_le: "cb_inv b \<Longrightarrow> cb_size b \<le> max_size b"
  by (auto simp: cb_inv_def cb_size_def)

lemma cb_head_eq: "cb_inv b \<Longrightarrow> (m_tail b + cb_size b) mod max_size b = m_head b"
  by (auto simp: cb_inv_def cb_size_def)

lemma cb_empty_iff: "cb_inv b \<Longrightarrow> cb_empty b \<longleftrightarrow> cb_contents b = []"
  by (auto simp: cb_empty_def cb_inv_def cb_size_def length_0_conv [symmetric]
      simp del: length_0_conv)

lemma cb_full_iff: "cb_inv b \<Longrightarrow> cb_full b \<longleftrightarrow> cb_size b = max_size b"
  by (auto simp: cb_full_def cb_inv_def cb_size_def)

lemma cb_inv_reset: "0 < max_size b \<Longrightarrow> cb_inv (cb_reset b) \<and> cb_contents (cb_reset b) = []"
  by (simp add: cb_inv_def cb_reset_def cb_contents_def cb_size_def)

text \<open>The size is determined by the offset of the head from the tail and by the flag.\<close>

lemma cb_size_eqI:
  assumes "cb_inv b" and "(m_tail b + s) mod max_size b = m_head b"
    and "s \<le> max_size b" and "s = max_size b \<longleftrightarrow> m_full b"
  shows "cb_size b = s"
proof (cases "m_full b")
  case True
  with assms(4) show ?thesis by (simp add: cb_size_def)
next
  case False
  with assms(3,4) have "s < max_size b" by simp
  moreover have "cb_size b < max_size b"
    using False assms(1) by (auto simp: cb_size_def cb_inv_def)
  moreover have "(m_tail b + cb_size b) mod max_size b = (m_tail b + s) mod max_size b"
    using assms(1,2) by (simp add: cb_head_eq)
  ultimately show ?thesis by (metis mod_window_inj)
qed


subsection \<open>Writing and reading one contiguous segment\<close>

text \<open>
  Both \<open>put\<close> operations are one or two steps of the following shape: copy a segment that does
  not reach beyond the end of \<open>m_buffer\<close> to the head, then advance.
\<close>

definition cb_write_seg :: "byte list \<Rightarrow> cbuf \<Rightarrow> cbuf" where
  "cb_write_seg d b =
     cb_advance (length d)
       (b\<lparr>m_buffer := take (m_head b) (m_buffer b) @ d @ drop (m_head b + length d) (m_buffer b)\<rparr>)"

lemma cb_write_seg_fields:
  assumes "\<not> m_full b" and "m_head b + length d \<le> max_size b"
  shows "max_size (cb_write_seg d b) = max_size b"
    and "m_tail (cb_write_seg d b) = m_tail b"
    and "m_head (cb_write_seg d b) = (m_head b + length d) mod max_size b"
    and "m_full (cb_write_seg d b) \<longleftrightarrow> (m_head b + length d) mod max_size b = m_tail b"
  using assms by (simp_all add: cb_write_seg_def cb_advance_def Let_def)

lemma cb_write_seg_nth:
  assumes "m_head b + length d \<le> max_size b" and "k < max_size b"
  shows "m_buffer (cb_write_seg d b) ! k =
    (if m_head b \<le> k \<and> k < m_head b + length d then d ! (k - m_head b) else m_buffer b ! k)"
  using assms by (auto simp: cb_write_seg_def cb_advance_def Let_def nth_append min_def)

lemma cb_write_seg_inv:
  assumes inv: "cb_inv b" and nf: "\<not> m_full b" and seg: "m_head b + length d \<le> max_size b"
    and room: "cb_size b + length d \<le> max_size b"
  shows "cb_inv (cb_write_seg d b)"
  using inv by (auto simp: cb_inv_def cb_write_seg_fields [OF nf seg] intro: mod_lt)

lemma cb_write_seg_size:
  assumes inv: "cb_inv b" and nf: "\<not> m_full b" and seg: "m_head b + length d \<le> max_size b"
    and room: "cb_size b + length d \<le> max_size b" and ne: "d \<noteq> []"
  shows "cb_size (cb_write_seg d b) = cb_size b + length d"
proof (rule cb_size_eqI)
  show "cb_inv (cb_write_seg d b)" by (rule cb_write_seg_inv [OF inv nf seg room])
  have head: "(m_tail b + (cb_size b + length d)) mod max_size b = (m_head b + length d) mod max_size b"
    by (metis add.assoc cb_head_eq inv mod_add_left_eq)
  then show "(m_tail (cb_write_seg d b) + (cb_size b + length d)) mod max_size (cb_write_seg d b)
      = m_head (cb_write_seg d b)"
    by (simp add: cb_write_seg_fields [OF nf seg])
  show "cb_size b + length d \<le> max_size (cb_write_seg d b)"
    using room by (simp add: cb_write_seg_fields [OF nf seg])
  have "m_tail b < max_size b" using inv by (simp add: cb_inv_def)
  then have "(m_tail b + (cb_size b + length d)) mod max_size b = m_tail b
      \<longleftrightarrow> cb_size b + length d = max_size b"
    using room ne by (auto simp: mod_add_wrap)
  with head show "(cb_size b + length d = max_size (cb_write_seg d b)) = m_full (cb_write_seg d b)"
    by (simp add: cb_write_seg_fields [OF nf seg])
qed

lemma cb_write_seg_contents:
  assumes inv: "cb_inv b" and nf: "\<not> m_full b" and seg: "m_head b + length d \<le> max_size b"
    and room: "cb_size b + length d \<le> max_size b" and ne: "d \<noteq> []"
  shows "cb_contents (cb_write_seg d b) = cb_contents b @ d"
proof (rule nth_equalityI)
  note size = cb_write_seg_size [OF inv nf seg room ne]
  then show "length (cb_contents (cb_write_seg d b)) = length (cb_contents b @ d)" by simp
  fix i assume "i < length (cb_contents (cb_write_seg d b))"
  then have i: "i < cb_size b + length d" by (simp add: size)
  let ?k = "(m_tail b + i) mod max_size b"
  have tb: "m_tail b < max_size b" using inv by (simp add: cb_inv_def)
  then have k: "?k < max_size b" by (rule mod_lt)
  have lhs: "cb_contents (cb_write_seg d b) ! i = m_buffer (cb_write_seg d b) ! ?k"
    using i size by (simp only: cb_contents_nth cb_write_seg_fields(1,2) [OF nf seg])
  have pos: "(m_tail b + (cb_size b + j)) mod max_size b = m_head b + j"
    if "m_head b + j < max_size b" for j
  proof -
    have "(m_tail b + (cb_size b + j)) mod max_size b
        = ((m_tail b + cb_size b) mod max_size b + j) mod max_size b"
      by (simp only: mod_add_left_eq add.assoc)
    also have "\<dots> = (m_head b + j) mod max_size b" by (simp only: cb_head_eq [OF inv])
    also have "\<dots> = m_head b + j" using that by (rule mod_less)
    finally show ?thesis .
  qed
  show "cb_contents (cb_write_seg d b) ! i = (cb_contents b @ d) ! i"
  proof (cases "i < cb_size b")
    case True
    have "\<not> (m_head b \<le> ?k \<and> ?k < m_head b + length d)"
    proof
      assume a: "m_head b \<le> ?k \<and> ?k < m_head b + length d"
      then obtain j where j1: "?k = m_head b + j" using le_Suc_ex by blast
      with a have "j < length d" by (simp only: nat_add_left_cancel_less)
      note j = j1 this
      have hj: "m_head b + j < max_size b" using k unfolding j(1) .
      have "(m_tail b + (cb_size b + j)) mod max_size b = (m_tail b + i) mod max_size b"
        by (simp only: pos [OF hj] j(1))
      moreover have "cb_size b + j < max_size b" using j(2) room by linarith
      moreover have "i < max_size b" using i room by linarith
      ultimately have "cb_size b + j = i" by (rule mod_window_inj)
      with True show False by linarith
    qed
    then have "m_buffer (cb_write_seg d b) ! ?k = m_buffer b ! ?k"
      unfolding cb_write_seg_nth [OF seg k] by (simp only: if_False)
    also have "\<dots> = cb_contents b ! i" using True by (rule cb_contents_nth [symmetric])
    also have "\<dots> = (cb_contents b @ d) ! i" using True by (simp add: nth_append)
    finally show ?thesis unfolding lhs .
  next
    case False
    then obtain j where j1: "i = cb_size b + j" by (metis le_Suc_ex not_less)
    then have "j < length d" using i by simp
    note j = j1 this
    have hj: "m_head b + j < max_size b" using seg j(2) by linarith
    have kk: "?k = m_head b + j" unfolding j(1) by (rule pos [OF hj])
    have "m_buffer (cb_write_seg d b) ! ?k = d ! j"
      unfolding cb_write_seg_nth [OF seg k] unfolding kk using j(2) by simp
    also have "\<dots> = (cb_contents b @ d) ! i" by (simp add: nth_append j(1))
    finally show ?thesis unfolding lhs .
  qed
qed

lemma cb_retreat_props:
  assumes inv: "cb_inv b" and n: "0 < n" "n \<le> cb_size b"
  shows "cb_inv (cb_retreat n b)" and "cb_size (cb_retreat n b) = cb_size b - n"
    and "cb_contents (cb_retreat n b) = drop n (cb_contents b)"
proof -
  have m: "max_size (cb_retreat n b) = max_size b" by (simp add: cb_retreat_def)
  show i: "cb_inv (cb_retreat n b)" using inv by (auto simp: cb_inv_def cb_retreat_def intro: mod_lt)
  show s: "cb_size (cb_retreat n b) = cb_size b - n"
  proof (rule cb_size_eqI [OF i])
    have "((m_tail b + n) mod max_size b + (cb_size b - n)) mod max_size b
        = (m_tail b + n + (cb_size b - n)) mod max_size b"
      by (rule mod_add_left_eq)
    also have "m_tail b + n + (cb_size b - n) = m_tail b + cb_size b" using n by simp
    finally have "((m_tail b + n) mod max_size b + (cb_size b - n)) mod max_size b = m_head b"
      by (simp only: cb_head_eq [OF inv])
    then show "(m_tail (cb_retreat n b) + (cb_size b - n)) mod max_size (cb_retreat n b)
        = m_head (cb_retreat n b)"
      by (simp add: cb_retreat_def)
    show "cb_size b - n \<le> max_size (cb_retreat n b)" using cb_size_le [OF inv] by (simp add: m)
    show "(cb_size b - n = max_size (cb_retreat n b)) = m_full (cb_retreat n b)"
      using cb_size_le [OF inv] n by (simp add: cb_retreat_def)
  qed
  show "cb_contents (cb_retreat n b) = drop n (cb_contents b)"
  proof (rule nth_equalityI)
    show "length (cb_contents (cb_retreat n b)) = length (drop n (cb_contents b))" by (simp add: s)
    fix j assume "j < length (cb_contents (cb_retreat n b))"
    then have j: "j < cb_size b - n" by (simp add: s)
    have "(m_tail (cb_retreat n b) + j) mod max_size b = (m_tail b + (n + j)) mod max_size b"
      by (simp add: cb_retreat_def mod_add_left_eq add.assoc)
    with j show "cb_contents (cb_retreat n b) ! j = drop n (cb_contents b) ! j"
      by (simp add: cb_contents_nth s m) (simp add: cb_retreat_def)
  qed
qed

lemma cb_read_seg:
  assumes inv: "cb_inv b" and seg: "m_tail b + n \<le> max_size b" and n: "n \<le> cb_size b"
  shows "memread (m_buffer b) (m_tail b) n = Some (take n (cb_contents b))"
proof -
  have "take n (drop (m_tail b) (m_buffer b)) = take n (cb_contents b)"
  proof (rule nth_equalityI)
    show "length (take n (drop (m_tail b) (m_buffer b))) = length (take n (cb_contents b))"
      using seg n by simp
    fix i assume "i < length (take n (drop (m_tail b) (m_buffer b)))"
    then have "i < n" "m_tail b + i < max_size b" using seg by simp_all
    then show "take n (drop (m_tail b) (m_buffer b)) ! i = take n (cb_contents b) ! i"
      using n by (simp add: cb_contents_nth)
  qed
  with seg show ?thesis by (simp add: memread_def)
qed


subsection \<open>The operations on the abstract list\<close>

lemma cb_put_eq:
  assumes inv: "cb_inv b" and room: "cb_size b < max_size b"
  shows "cb_put d b = Some (True, cb_write_seg [d] b)"
proof -
  have "\<not> m_full b" using inv room by (auto simp: cb_size_def)
  moreover have h: "m_head b < max_size b" using inv by (simp add: cb_inv_def)
  ultimately show ?thesis
    by (simp add: cb_put_def cb_full_def cb_write_seg_def upd_conv_take_nth_drop)
qed

lemma cb_put_bytes_eq:
  assumes inv: "cb_inv b" and room: "cb_size b + len \<le> max_size b" and len: "0 < len" "len \<le> length data"
  shows "\<exists>b'. cb_put_bytes data len b = Some (True, b') \<and> cb_inv b' \<and> max_size b' = max_size b
    \<and> cb_contents b' = cb_contents b @ take len data"
proof -
  have nf: "\<not> m_full b" using room len by (auto simp: cb_size_def)
  have h: "m_head b < max_size b" using inv by (simp add: cb_inv_def)
  have cap: "cb_capacity b \<ge> len" using room by (simp add: cb_capacity_def)
  show ?thesis
  proof (cases "max_size b - m_head b > len")
    case True
    then have "cb_put_bytes data len b = Some (True, cb_write_seg (take len data) b)"
      using cap len h by (simp add: cb_put_bytes_def memcpy_def cb_write_seg_def)
    moreover have "cb_inv (cb_write_seg (take len data) b)"
      using True len room by (intro cb_write_seg_inv [OF inv nf]) auto
    moreover have "cb_contents (cb_write_seg (take len data) b) = cb_contents b @ take len data"
      using True len room by (intro cb_write_seg_contents [OF inv nf]) auto
    moreover have "max_size (cb_write_seg (take len data) b) = max_size b"
      using True len by (intro cb_write_seg_fields [OF nf]) auto
    ultimately show ?thesis by blast
  next
    case False
    define l1 where "l1 = max_size b - m_head b"
    define b1 where "b1 = cb_write_seg (take l1 data) b"
    have l1: "0 < l1" "l1 \<le> len" "m_head b + l1 = max_size b" using False h by (auto simp: l1_def)
    have seg: "m_head b + length (take l1 data) \<le> max_size b" using l1 len by simp
    have room1: "cb_size b + length (take l1 data) \<le> max_size b" using l1 len room by simp
    have ne: "take l1 data \<noteq> []" using l1 len by auto
    note b1 = cb_write_seg_fields [OF nf seg, folded b1_def]
      cb_write_seg_inv [OF inv nf seg room1, folded b1_def]
      cb_write_seg_size [OF inv nf seg room1 ne, folded b1_def]
      cb_write_seg_contents [OF inv nf seg room1 ne, folded b1_def]
    have head1: "m_head b1 = 0" using b1(3) l1 len by simp
    have mem: "memcpy (m_buffer b) (m_head b) data l1 =
      Some (take (m_head b) (m_buffer b) @ take l1 data @ drop (m_head b + l1) (m_buffer b))"
      using l1 len by (intro memcpy_in_range) simp_all
    have len1: "length (take l1 data) = l1" using l1 len by simp
    have adv: "cb_advance l1 (b\<lparr>m_buffer := take (m_head b) (m_buffer b) @ take l1 data
        @ drop (m_head b + l1) (m_buffer b)\<rparr>) = b1"
      unfolding b1_def cb_write_seg_def len1 by (rule refl)
    have unf: "cb_put_bytes data len b =
      memcpy (m_buffer b1) (m_head b1) (drop l1 data) (len - l1) \<bind>
        (\<lambda>buf2. Some (True, cb_advance (len - l1) (b1\<lparr>m_buffer := buf2\<rparr>)))"
      using False cap
      by (simp only: cb_put_bytes_def l1_def [symmetric] mem Let_def bind.bind_lunit adv if_True if_False)
    show ?thesis
    proof (cases "len = l1")
      case True
      have "cb_advance 0 b1 = b1"
        using b1(4) head1 b1(2) b1(3) l1 len inv
        by (auto simp: cb_advance_def Let_def cb_inv_def intro!: cbuf.equality)
      with unf True head1 have "cb_put_bytes data len b = Some (True, b1)" by simp
      with True b1(1,5,7) show ?thesis by simp
    next
      case False
      with l1 have l2: "0 < len - l1" by simp
      have len1: "cb_size b1 = cb_size b + l1" using b1(6) l1 len by simp
      have nf1: "\<not> m_full b1"
        using len1 l2 room l1 b1(1) by (auto simp: cb_size_def)
      let ?d = "take (len - l1) (drop l1 data)"
      have seg2: "m_head b1 + length ?d \<le> max_size b1"
        using head1 room l1 b1(1) by auto
      have room2: "cb_size b1 + length ?d \<le> max_size b1" using len1 room l1 len b1(1) by simp
      have ne2: "?d \<noteq> []" using l2 len by auto
      have len2: "length ?d = len - l1" using len by simp
      have "memcpy (m_buffer b1) (m_head b1) (drop l1 data) (len - l1) =
        Some (take (m_head b1) (m_buffer b1) @ ?d @ drop (m_head b1 + (len - l1)) (m_buffer b1))"
        using seg2 len unfolding len2 by (intro memcpy_in_range) simp_all
      then have "cb_put_bytes data len b = Some (True, cb_write_seg ?d b1)"
        unfolding unf cb_write_seg_def len2 by simp
      moreover have "cb_contents b @ take l1 data @ ?d = cb_contents b @ take len data"
        using l1 by (metis le_add_diff_inverse take_add)
      ultimately show ?thesis
        using cb_write_seg_inv [OF b1(5) nf1 seg2 room2] cb_write_seg_fields(1) [OF nf1 seg2]
          cb_write_seg_contents [OF b1(5) nf1 seg2 room2 ne2] b1(1,7) by simp
    qed
  qed
qed

lemma cb_get_eq:
  assumes inv: "cb_inv b" and ne: "cb_contents b = d # ds"
  shows "cb_get b = Some (Some d, cb_retreat 1 b)"
proof -
  have "0 < cb_size b" using ne by (metis length_cb_contents length_greater_0_conv list.distinct(1))
  then have "d = m_buffer b ! m_tail b"
    using cb_contents_nth [of 0 b] ne inv by (simp add: cb_inv_def)
  with inv ne show ?thesis by (simp add: cb_get_def cb_empty_iff) (simp add: cb_inv_def)
qed

lemma cb_get_bytes_eq:
  assumes inv: "cb_inv b" and len: "0 < len" "len \<le> cb_size b"
  shows "\<exists>b'. cb_get_bytes len b = Some (Some (take len (cb_contents b)), b') \<and> cb_inv b'
    \<and> max_size b' = max_size b \<and> cb_contents b' = drop len (cb_contents b)"
proof -
  have t: "m_tail b < max_size b" using inv by (simp add: cb_inv_def)
  have ms: "max_size (cb_retreat n c) = max_size c" for n c by (simp add: cb_retreat_def)
  show ?thesis
  proof (cases "max_size b - m_tail b > len")
    case True
    then have "cb_get_bytes len b = Some (Some (take len (cb_contents b)), cb_retreat len b)"
      using len cb_read_seg [OF inv, of len] by (simp add: cb_get_bytes_def)
    with cb_retreat_props [OF inv len] ms show ?thesis by blast
  next
    case False
    define l1 where "l1 = max_size b - m_tail b"
    define b1 where "b1 = cb_retreat l1 b"
    have l1: "0 < l1" "l1 \<le> cb_size b" "l1 \<le> len" "m_tail b + l1 = max_size b"
      using False t len by (auto simp: l1_def)
    note b1 = cb_retreat_props [OF inv l1(1,2), folded b1_def]
    have tail1: "m_tail b1 = 0" using l1(4) by (simp add: b1_def cb_retreat_def)
    have rd: "memread (m_buffer b1) (m_tail b1) (len - l1) = Some (take (len - l1) (cb_contents b1))"
      using tail1 len l1 b1(2) ms [of l1 b] cb_size_le [OF inv]
      by (intro cb_read_seg [OF b1(1)]) (auto simp: b1_def)
    have "cb_get_bytes len b =
      Some (Some (take l1 (cb_contents b) @ take (len - l1) (drop l1 (cb_contents b))), cb_retreat (len - l1) b1)"
      using False len l1 cb_read_seg [OF inv, of l1] rd b1(3)
      by (simp add: cb_get_bytes_def l1_def [symmetric] b1_def [symmetric] Let_def)
    moreover have "take l1 xs @ take (len - l1) (drop l1 xs) = take len xs" for xs :: "byte list"
      using l1 by (metis le_add_diff_inverse take_add)
    ultimately have get: "cb_get_bytes len b = Some (Some (take len (cb_contents b)), cb_retreat (len - l1) b1)"
      by simp
    show ?thesis
    proof (cases "len = l1")
      case True
      have "cb_retreat 0 b1 = b1"
        using b1(1) by (auto simp: cb_inv_def b1_def cb_retreat_def intro!: cbuf.equality)
      with get True b1 ms [of l1 b] show ?thesis by (simp add: b1_def)
    next
      case False
      with l1 len b1 have "0 < len - l1" "len - l1 \<le> cb_size b1" by auto
      note b2 = cb_retreat_props [OF b1(1) this]
      have "cb_contents (cb_retreat (len - l1) b1) = drop len (cb_contents b)"
        using b2(3) b1(3) l1 by simp
      with get b2 ms show ?thesis by (simp add: b1_def)
    qed
  qed
qed


subsection \<open>What a client relies on\<close>

text \<open>
  A bounded queue of elements: \<open>put\<close> refuses when full, \<open>get\<close> reports an empty queue, and
  elements leave in the order in which they entered. The bulk operations extend the contract
  for non-empty transfers.
\<close>

fun put_all :: "('a \<Rightarrow> 'q \<Rightarrow> (bool \<times> 'q) option) \<Rightarrow> 'a list \<Rightarrow> 'q \<Rightarrow> 'q option" where
  "put_all put [] q = Some q"
| "put_all put (x # xs) q = (case put x q of Some (True, q') \<Rightarrow> put_all put xs q' | _ \<Rightarrow> None)"

fun get_n :: "('q \<Rightarrow> ('a option \<times> 'q) option) \<Rightarrow> nat \<Rightarrow> 'q \<Rightarrow> ('a list \<times> 'q) option" where
  "get_n get 0 q = Some ([], q)"
| "get_n get (Suc n) q =
     (case get q of Some (Some x, q') \<Rightarrow> map_option (\<lambda>(xs, q''). (x # xs, q'')) (get_n get n q') | _ \<Rightarrow> None)"

locale bounded_fifo =
  fixes inv :: "'q \<Rightarrow> bool"
    and contents :: "'q \<Rightarrow> 'a list"
    and cap :: "'q \<Rightarrow> nat"
    and put :: "'a \<Rightarrow> 'q \<Rightarrow> (bool \<times> 'q) option"
    and get :: "'q \<Rightarrow> ('a option \<times> 'q) option"
  assumes put_room: "inv q \<Longrightarrow> length (contents q) < cap q \<Longrightarrow>
      \<exists>q'. put x q = Some (True, q') \<and> inv q' \<and> cap q' = cap q \<and> contents q' = contents q @ [x]"
    and put_full: "inv q \<Longrightarrow> length (contents q) = cap q \<Longrightarrow> put x q = Some (False, q)"
    and get_cons: "inv q \<Longrightarrow> contents q = x # xs \<Longrightarrow>
      \<exists>q'. get q = Some (Some x, q') \<and> inv q' \<and> cap q' = cap q \<and> contents q' = xs"
    and get_nil: "inv q \<Longrightarrow> contents q = [] \<Longrightarrow> get q = Some (None, q)"
begin

lemma put_all_appends:
  "inv q \<Longrightarrow> length (contents q) + length xs \<le> cap q \<Longrightarrow>
   \<exists>q'. put_all put xs q = Some q' \<and> inv q' \<and> cap q' = cap q \<and> contents q' = contents q @ xs"
proof (induction xs arbitrary: q)
  case Nil
  then show ?case by simp
next
  case (Cons x xs)
  then obtain q1 where "put x q = Some (True, q1)" "inv q1" "cap q1 = cap q" "contents q1 = contents q @ [x]"
    using put_room [of q x] by auto
  with Cons.IH [of q1] Cons.prems show ?case by auto
qed

lemma get_n_takes:
  "inv q \<Longrightarrow> n \<le> length (contents q) \<Longrightarrow>
   \<exists>q'. get_n get n q = Some (take n (contents q), q') \<and> inv q' \<and> cap q' = cap q
     \<and> contents q' = drop n (contents q)"
proof (induction n arbitrary: q)
  case 0
  then show ?case by simp
next
  case (Suc n)
  then obtain x xs where xs: "contents q = x # xs" by (cases "contents q") auto
  then obtain q1 where "get q = Some (Some x, q1)" "inv q1" "cap q1 = cap q" "contents q1 = xs"
    using get_cons Suc.prems by blast
  with Suc.IH [of q1] Suc.prems xs show ?case by auto
qed

lemma fifo_order:
  assumes "inv q" and "length (contents q) + length xs \<le> cap q"
  shows "\<exists>q1 q2. put_all put xs q = Some q1
    \<and> get_n get (length (contents q) + length xs) q1 = Some (contents q @ xs, q2) \<and> contents q2 = []"
  using put_all_appends [OF assms] get_n_takes by fastforce

end

locale bulk_fifo = bounded_fifo +
  fixes put_bytes :: "'b list \<Rightarrow> nat \<Rightarrow> 'a \<Rightarrow> (bool \<times> 'a) option"
    and get_bytes :: "nat \<Rightarrow> 'a \<Rightarrow> ('b list option \<times> 'a) option"
  assumes put_bytes_room: "inv q \<Longrightarrow> 0 < n \<Longrightarrow> n \<le> length d \<Longrightarrow> length (contents q) + n \<le> cap q \<Longrightarrow>
      \<exists>q'. put_bytes d n q = Some (True, q') \<and> inv q' \<and> cap q' = cap q \<and> contents q' = contents q @ take n d"
    and put_bytes_full: "inv q \<Longrightarrow> cap q < length (contents q) + n \<Longrightarrow> put_bytes d n q = Some (False, q)"
    and get_bytes_some: "inv q \<Longrightarrow> 0 < n \<Longrightarrow> n \<le> length (contents q) \<Longrightarrow>
      \<exists>q'. get_bytes n q = Some (Some (take n (contents q)), q') \<and> inv q' \<and> cap q' = cap q
        \<and> contents q' = drop n (contents q)"
    and get_bytes_none: "inv q \<Longrightarrow> length (contents q) < n \<Longrightarrow> get_bytes n q = Some (None, q)"
begin

lemma bulk_as_bytewise:
  assumes "inv q" and "d \<noteq> []" and "length (contents q) + length d \<le> cap q"
  shows "\<exists>q1 q2. put_bytes d (length d) q = Some (True, q1) \<and> put_all put d q = Some q2
    \<and> contents q1 = contents q2 \<and> inv q1 \<and> inv q2"
  using put_all_appends [OF assms(1,3)] put_bytes_room [OF assms(1), of "length d" d] assms(2,3)
  by auto

lemma bulk_roundtrip:
  assumes "inv q" and "d \<noteq> []" and "length (contents q) + length d \<le> cap q"
  shows "\<exists>q1 q2. put_bytes d (length d) q = Some (True, q1)
    \<and> get_bytes (length (contents q) + length d) q1 = Some (Some (contents q @ d), q2)
    \<and> inv q2 \<and> contents q2 = []"
proof -
  obtain q1 where q1: "put_bytes d (length d) q = Some (True, q1)" "inv q1" "cap q1 = cap q"
      "contents q1 = contents q @ d"
    using put_bytes_room [OF assms(1), of "length d" d] assms(2,3) by auto
  with assms(2) show ?thesis
    using get_bytes_some [OF q1(2), of "length (contents q) + length d"] by auto
qed

end

interpretation cb: bulk_fifo cb_inv cb_contents "\<lambda>b. length (m_buffer b)" cb_put cb_get cb_put_bytes cb_get_bytes
proof unfold_locales
  fix q :: cbuf and x :: byte
  assume i: "cb_inv q" and "length (cb_contents q) < max_size q"
  then have r: "cb_size q < max_size q" by simp
  then have nf: "\<not> m_full q" using i by (auto simp: cb_size_def)
  have s: "m_head q + length [x] \<le> max_size q" "cb_size q + length [x] \<le> max_size q"
    using i r by (auto simp: cb_inv_def)
  show "\<exists>q'. cb_put x q = Some (True, q') \<and> cb_inv q' \<and> max_size q' = max_size q
      \<and> cb_contents q' = cb_contents q @ [x]"
    using cb_put_eq [OF i r] cb_write_seg_inv [OF i nf s] cb_write_seg_contents [OF i nf s]
      cb_write_seg_fields(1) [OF nf s(1)] by simp
next
  fix q :: cbuf and x :: byte
  assume "cb_inv q" and "length (cb_contents q) = max_size q"
  then show "cb_put x q = Some (False, q)" by (simp add: cb_put_def cb_full_iff)
next
  fix q :: cbuf and x :: byte and xs
  assume i: "cb_inv q" and c: "cb_contents q = x # xs"
  then have "1 \<le> cb_size q" by (metis One_nat_def Suc_leI length_cb_contents length_greater_0_conv list.distinct(1))
  then show "\<exists>q'. cb_get q = Some (Some x, q') \<and> cb_inv q' \<and> max_size q' = max_size q \<and> cb_contents q' = xs"
    using cb_get_eq [OF i c] cb_retreat_props [OF i, of 1] c by (simp add: cb_retreat_def)
next
  fix q :: cbuf
  assume "cb_inv q" and "cb_contents q = []"
  then show "cb_get q = Some (None, q)" by (simp add: cb_get_def cb_empty_iff)
next
  fix q :: cbuf and n and d :: "byte list"
  assume "cb_inv q" "0 < n" "n \<le> length d" "length (cb_contents q) + n \<le> max_size q"
  then show "\<exists>q'. cb_put_bytes d n q = Some (True, q') \<and> cb_inv q' \<and> max_size q' = max_size q
      \<and> cb_contents q' = cb_contents q @ take n d"
    using cb_put_bytes_eq by simp
next
  fix q :: cbuf and n and d :: "byte list"
  assume "cb_inv q" "max_size q < length (cb_contents q) + n"
  then have "\<not> n \<le> cb_capacity q" using cb_size_le [of q] by (simp add: cb_capacity_def)
  then show "cb_put_bytes d n q = Some (False, q)" by (simp add: cb_put_bytes_def)
next
  fix q :: cbuf and n
  assume "cb_inv q" "0 < n" "n \<le> length (cb_contents q)"
  then show "\<exists>q'. cb_get_bytes n q = Some (Some (take n (cb_contents q)), q') \<and> cb_inv q'
      \<and> max_size q' = max_size q \<and> cb_contents q' = drop n (cb_contents q)"
    using cb_get_bytes_eq by simp
next
  fix q :: cbuf and n
  assume "cb_inv q" "length (cb_contents q) < n"
  then show "cb_get_bytes n q = Some (None, q)" by (simp add: cb_get_bytes_def)
qed


subsection \<open>Properties\<close>

text \<open>
  C26: a bulk write of \<open>len > 0\<close> bytes into a well-formed ring buffer never leaves an array; it
  appends exactly these bytes when they fit, across the end of the array too, and otherwise
  changes nothing and reports false.
\<close>

theorem put_bytes_refines_append:
  assumes "cb_inv b" and "0 < len" and "len \<le> length data"
  shows "if cb_size b + len \<le> max_size b
    then \<exists>b'. cb_put_bytes data len b = Some (True, b') \<and> cb_inv b' \<and> max_size b' = max_size b
      \<and> cb_contents b' = cb_contents b @ take len data
    else cb_put_bytes data len b = Some (False, b)"
  using cb.put_bytes_room [OF assms] cb.put_bytes_full [OF assms(1), of len data] by simp

lemma put_bytes_refines_append_witness:
  "let b = \<lparr>m_buffer = [0, 0, 9], m_head = 0, m_tail = 2, m_full = False\<rparr>
   in \<exists>b'. cb_put_bytes [5, 6] 2 b = Some (True, b') \<and> cb_contents b' = [9, 5, 6]"
  using put_bytes_refines_append
    [of "\<lparr>m_buffer = [0, 0, 9], m_head = 0, m_tail = 2, m_full = False\<rparr>" 2 "[5, 6]"]
  by (auto simp: cb_inv_def cb_size_def cb_contents_def)

text \<open>
  Bytes leave the buffer in the order in which they entered: a bulk write followed by a bulk
  read of everything stored returns the old contents and then the new bytes, and leaves the
  buffer well formed and empty.
\<close>

theorem ring_buffer_roundtrip:
  assumes "cb_inv b" and "d \<noteq> []" and "cb_size b + length d \<le> max_size b"
  shows "\<exists>b1 b2. cb_put_bytes d (length d) b = Some (True, b1)
    \<and> cb_get_bytes (cb_size b + length d) b1 = Some (Some (cb_contents b @ d), b2)
    \<and> cb_inv b2 \<and> cb_contents b2 = []"
  using cb.bulk_roundtrip [OF assms(1,2)] assms(3) by simp

lemma ring_buffer_roundtrip_witness:
  "\<exists>b1 b2. cb_put_bytes [5, 6] (length [5, 6 :: byte])
        \<lparr>m_buffer = [0, 0, 9], m_head = 0, m_tail = 2, m_full = False\<rparr> = Some (True, b1)
    \<and> cb_get_bytes 3 b1 = Some (Some [9, 5, 6], b2) \<and> cb_inv b2 \<and> cb_contents b2 = []"
proof -
  let ?b = "\<lparr>m_buffer = [0, 0, 9], m_head = 0, m_tail = 2, m_full = False\<rparr>"
  have i: "cb_inv ?b" by (simp add: cb_inv_def)
  have s: "cb_size ?b = 1" by (simp add: cb_size_def)
  have c: "cb_contents ?b = [9]" by (simp add: cb_contents_def s)
  have l: "length [5, 6 :: byte] = 2" by simp
  have "\<exists>b1 b2. cb_put_bytes [5, 6] (length [5, 6 :: byte]) ?b = Some (True, b1)
    \<and> cb_get_bytes (cb_size ?b + length [5, 6 :: byte]) b1 = Some (Some (cb_contents ?b @ [5, 6]), b2)
    \<and> cb_inv b2 \<and> cb_contents b2 = []"
    by (rule ring_buffer_roundtrip [OF i]) (simp_all add: s)
  then show ?thesis unfolding s c l by (simp add: numeral_3_eq_3)
qed

text \<open>
  An empty transfer breaks the contract. Writing zero bytes to an empty buffer makes it
  report itself full, and reading zero bytes from a full buffer drops everything stored.
\<close>

theorem empty_transfer_corrupts:
  assumes "cb_inv b"
  shows "(cb_contents b = [] \<longrightarrow> (\<exists>b'. cb_put_bytes [] 0 b = Some (True, b') \<and> cb_full b'))
    \<and> (cb_full b \<longrightarrow> (\<exists>b'. cb_get_bytes 0 b = Some (Some [], b') \<and> cb_contents b' = []))"
proof -
  have e: "\<not> m_full b" "m_head b = m_tail b" if "cb_contents b = []"
    using cb_empty_iff [OF assms] that by (simp_all add: cb_empty_def)
  have 1: "\<exists>b'. cb_put_bytes [] 0 b = Some (True, b') \<and> cb_full b'" if "cb_contents b = []"
    using e [OF that] assms
    by (auto simp: cb_put_bytes_def cb_inv_def cb_advance_def Let_def cb_full_def)
  have 2: "\<exists>b'. cb_get_bytes 0 b = Some (Some [], b') \<and> cb_contents b' = []" if "cb_full b"
    using that assms
    by (auto simp: cb_get_bytes_def cb_inv_def cb_retreat_def cb_full_def cb_contents_def cb_size_def)
  from 1 2 show ?thesis by blast
qed

lemma empty_transfer_corrupts_witness:
  "\<exists>b'. cb_put_bytes [] 0 \<lparr>m_buffer = [0, 0, 0, 0], m_head = 2, m_tail = 2, m_full = False\<rparr> = Some (True, b')
     \<and> cb_full b'"
  using empty_transfer_corrupts [of "\<lparr>m_buffer = [0, 0, 0, 0], m_head = 2, m_tail = 2, m_full = False\<rparr>"]
  by (simp add: cb_inv_def cb_contents_def cb_size_def)

end
