(* ===== verification/UtilList.thy ===== *)
theory UtilList
  imports Prelude
begin

text \<open>
  The singly linked list template \<open>util::list<T>\<close> of \<open>external/src/List/list.h\<close> (nodes in
  \<open>listelement.h\<close>), which holds the topic registry, the loop controller's clients and the
  dispatcher's events. The model keeps the nodes in a store from addresses to nodes, so that
  dereferencing a null or dangling pointer is the result \<open>None\<close>. The nodes of a list are owned by
  it alone, hence the store is part of the list's record. The interface \<open>sequence\<close> is what the
  other components rely on; it is interpreted on the pointer operations below.
\<close>

subsection \<open>State\<close>

type_synonym addr = nat

record 'a lnode =
  ln_data :: 'a
  ln_next :: "addr option"

record 'a ulist =
  u_nodes :: "addr \<Rightarrow> 'a lnode option"
  u_free :: addr
  elements :: "addr option"
  lastElement :: "addr option"
  invalidItem :: 'a
  u_size :: int

definition deref :: "'a ulist \<Rightarrow> addr option \<Rightarrow> 'a lnode option" where
  "deref l p = Option.bind p (u_nodes l)"

text \<open>\<open>new ListElement<T>\<close> followed by the assignment of its data, and \<open>delete\<close> of one node.\<close>

definition ul_new :: "'a \<Rightarrow> 'a ulist \<Rightarrow> addr \<times> 'a ulist" where
  "ul_new x l = (u_free l,
     l\<lparr>u_nodes := (u_nodes l)(u_free l \<mapsto> \<lparr>ln_data = x, ln_next = None\<rparr>), u_free := Suc (u_free l)\<rparr>)"

definition ul_set_next :: "addr option \<Rightarrow> addr option \<Rightarrow> 'a ulist \<Rightarrow> 'a ulist option" where
  "ul_set_next p nx l = do {
     a \<leftarrow> p;
     nd \<leftarrow> u_nodes l a;
     Some (l\<lparr>u_nodes := (u_nodes l)(a \<mapsto> nd\<lparr>ln_next := nx\<rparr>)\<rparr>)
   }"

definition ul_delete :: "addr \<Rightarrow> 'a ulist \<Rightarrow> 'a ulist" where
  "ul_delete a l = l\<lparr>u_nodes := (u_nodes l)(a := None)\<rparr>"

subsection \<open>Operations\<close>

definition ul_empty :: "'a \<Rightarrow> 'a ulist" where
  "ul_empty invalid = \<lparr>u_nodes = (\<lambda>_. None), u_free = 0, elements = None, lastElement = None,
     invalidItem = invalid, u_size = 0\<rparr>"

definition ul_isEmpty :: "'a ulist \<Rightarrow> bool" where
  "ul_isEmpty l \<longleftrightarrow> elements l = None"

definition ul_count :: "'a ulist \<Rightarrow> int" where
  "ul_count l = u_size l"

definition ul_validIndex :: "int \<Rightarrow> 'a ulist \<Rightarrow> bool" where
  "ul_validIndex index l \<longleftrightarrow> 0 \<le> index \<and> index < u_size l"

definition ul_append :: "'a \<Rightarrow> 'a ulist \<Rightarrow> 'a ulist option" where
  "ul_append item l = do {
     let (e, l1) = ul_new item l;
     l2 \<leftarrow> (if ul_isEmpty l1 then Some (l1\<lparr>elements := Some e\<rparr>)
            else ul_set_next (lastElement l1) (Some e) l1);
     Some (l2\<lparr>lastElement := Some e, u_size := u_size l2 + 1\<rparr>)
   }"

text \<open>The private \<open>element(index)\<close>: follow \<open>next\<close> \<open>index\<close> times from a pointer.\<close>

fun ul_walk :: "'a ulist \<Rightarrow> addr option \<Rightarrow> nat \<Rightarrow> addr option option" where
  "ul_walk l p 0 = Some p"
| "ul_walk l p (Suc n) = do { nd \<leftarrow> deref l p; ul_walk l (ln_next nd) n }"

definition ul_element :: "int \<Rightarrow> 'a ulist \<Rightarrow> addr option option" where
  "ul_element index l = ul_walk l (elements l) (nat index)"

definition ul_at :: "int \<Rightarrow> 'a ulist \<Rightarrow> 'a option" where
  "ul_at index l =
     (if ul_validIndex index l
      then do { p \<leftarrow> ul_element index l; nd \<leftarrow> deref l p; Some (ln_data nd) }
      else Some (invalidItem l))"

text \<open>
  \<open>operator[]\<close> returns a reference; \<open>f\<close> is what the caller does to it. An invalid index gives a
  reference to \<open>invalidItem\<close>, which the caller then changes.
\<close>

definition ul_modify :: "int \<Rightarrow> ('a \<Rightarrow> 'a) \<Rightarrow> 'a ulist \<Rightarrow> 'a ulist option" where
  "ul_modify index f l =
     (if ul_validIndex index l
      then do {
        p \<leftarrow> ul_element index l;
        a \<leftarrow> p;
        nd \<leftarrow> u_nodes l a;
        Some (l\<lparr>u_nodes := (u_nodes l)(a \<mapsto> nd\<lparr>ln_data := f (ln_data nd)\<rparr>)\<rparr>)
      }
      else Some (l\<lparr>invalidItem := f (invalidItem l)\<rparr>))"

definition ul_remove :: "int \<Rightarrow> 'a ulist \<Rightarrow> 'a ulist option" where
  "ul_remove index l =
     (if ul_validIndex index l
      then do {
        p \<leftarrow> ul_element index l;
        current \<leftarrow> p;
        nd \<leftarrow> u_nodes l current;
        let nxt = ln_next nd;
        let l1 = ul_delete current l;
        l2 \<leftarrow> (if index = 0
               then Some (if nxt = None then l1\<lparr>elements := nxt, lastElement := nxt\<rparr>
                          else l1\<lparr>elements := nxt\<rparr>)
               else do {
                 previous \<leftarrow> ul_element (index - 1) l1;
                 l2 \<leftarrow> ul_set_next previous nxt l1;
                 Some (if nxt = None then l2\<lparr>lastElement := previous\<rparr> else l2)
               });
        Some (l2\<lparr>u_size := u_size l2 - 1\<rparr>)
      }
      else Some l)"

definition ul_drop_front :: "'a ulist \<Rightarrow> ('a \<times> 'a ulist) option" where
  "ul_drop_front l = do {
     p \<leftarrow> ul_element 0 l;
     current \<leftarrow> p;
     nd \<leftarrow> u_nodes l current;
     let l1 = (ul_delete current l)\<lparr>elements := ln_next nd\<rparr>;
     Some (ln_data nd, l1\<lparr>u_size := u_size l1 - 1\<rparr>)
   }"

definition ul_fix_last :: "'a ulist \<Rightarrow> 'a ulist" where
  "ul_fix_last l = (if ul_isEmpty l then l\<lparr>lastElement := None\<rparr> else l)"

definition ul_take_front :: "'a ulist \<Rightarrow> ('a \<times> 'a ulist) option" where
  "ul_take_front l = do {
     (ret, l1) \<leftarrow> (if \<not> ul_isEmpty l then ul_drop_front l else Some (invalidItem l, l));
     Some (ret, ul_fix_last l1)
   }"

definition ul_pop :: "'a ulist \<Rightarrow> 'a ulist option" where
  "ul_pop l = do {
     l1 \<leftarrow> (if \<not> ul_isEmpty l then map_option snd (ul_drop_front l) else Some l);
     Some (ul_fix_last l1)
   }"

definition ul_push :: "'a \<Rightarrow> 'a ulist \<Rightarrow> 'a ulist option" where
  "ul_push item l = do {
     let (e, l1) = ul_new item l;
     l2 \<leftarrow> (if \<not> ul_isEmpty l1 then ul_set_next (Some e) (elements l1) l1 else Some l1);
     Some (l2\<lparr>elements := Some e, u_size := u_size l2 + 1\<rparr>)
   }"

text \<open>
  The loops that run to the null pointer: \<open>None\<close> when a pointer is bad or when they do not stop.
\<close>

partial_function (option) ul_find_from ::
  "('a \<Rightarrow> bool) \<Rightarrow> 'a ulist \<Rightarrow> addr option \<Rightarrow> int \<Rightarrow> (int \<times> 'a) option option" where
  "ul_find_from eq l p n =
     (case p of None \<Rightarrow> Some None
      | Some a \<Rightarrow> (case u_nodes l a of None \<Rightarrow> None
         | Some nd \<Rightarrow> if eq (ln_data nd) then Some (Some (n, ln_data nd))
                      else ul_find_from eq l (ln_next nd) (n + 1)))"

definition ul_indexOf :: "('a \<Rightarrow> bool) \<Rightarrow> 'a ulist \<Rightarrow> int option" where
  "ul_indexOf eq l =
     (if \<not> ul_isEmpty l
      then map_option (\<lambda>r. case r of None \<Rightarrow> - 1 | Some (n, _) \<Rightarrow> n) (ul_find_from eq l (elements l) 0)
      else Some (- 1))"

definition ul_find :: "('a \<Rightarrow> bool) \<Rightarrow> 'a ulist \<Rightarrow> 'a option" where
  "ul_find eq l =
     (if \<not> ul_isEmpty l
      then map_option (\<lambda>r. case r of None \<Rightarrow> invalidItem l | Some (_, x) \<Rightarrow> x)
             (ul_find_from eq l (elements l) 0)
      else Some (invalidItem l))"

text \<open>\<open>~ListElement\<close> deletes its successor first, so \<open>delete elements\<close> frees the whole chain.\<close>

partial_function (option) ul_delete_chain :: "addr option \<Rightarrow> 'a ulist \<Rightarrow> 'a ulist option" where
  "ul_delete_chain p l =
     (case p of None \<Rightarrow> Some l
      | Some a \<Rightarrow> (case u_nodes l a of None \<Rightarrow> None
         | Some nd \<Rightarrow> Option.bind (ul_delete_chain (ln_next nd) l) (\<lambda>l1. Some (ul_delete a l1))))"

definition ul_clear :: "'a ulist \<Rightarrow> 'a ulist option" where
  "ul_clear l =
     (if \<not> ul_isEmpty l
      then do {
        l1 \<leftarrow> ul_delete_chain (elements l) l;
        Some (l1\<lparr>elements := None, lastElement := None, u_size := 0\<rparr>)
      }
      else Some l)"

fun ul_copy_loop :: "nat \<Rightarrow> 'a ulist \<Rightarrow> addr option \<Rightarrow> 'a ulist \<Rightarrow> 'a ulist option" where
  "ul_copy_loop 0 other p l = Some l"
| "ul_copy_loop (Suc n) other p l = do {
     nd \<leftarrow> deref other p;
     let (e, l1) = ul_new (ln_data nd) l;
     l2 \<leftarrow> ul_set_next (lastElement l1) (Some e) l1;
     ul_copy_loop n other (ln_next nd) (l2\<lparr>lastElement := Some e, u_size := u_size l2 + 1\<rparr>)
   }"

definition ul_appendCopy :: "'a ulist \<Rightarrow> 'a ulist \<Rightarrow> 'a ulist option" where
  "ul_appendCopy other l =
     (if \<not> ul_isEmpty other
      then if ul_isEmpty l
           then do {
             nd \<leftarrow> deref other (elements other);
             let (e, l1) = ul_new (ln_data nd) l;
             ul_copy_loop (nat (ul_count other - 1)) other (ln_next nd)
               (l1\<lparr>elements := Some e, lastElement := Some e, u_size := 1\<rparr>)
           }
           else ul_copy_loop (nat (ul_count other)) other (elements other) l
      else Some l)"

text \<open>\<open>operator=\<close>, for an argument that is another object.\<close>

definition ul_assign :: "'a ulist \<Rightarrow> 'a ulist \<Rightarrow> 'a ulist option" where
  "ul_assign other l = do {
     l1 \<leftarrow> (if \<not> ul_isEmpty l then ul_clear l else Some l);
     l2 \<leftarrow> ul_appendCopy other l1;
     Some (l2\<lparr>invalidItem := invalidItem other\<rparr>)
   }"


subsection \<open>Representation of a HOL list\<close>

text \<open>
  \<open>lseg h p ps q\<close>: starting from pointer \<open>p\<close> the nodes \<open>ps\<close> (address and data) are linked one
  after the other and end in pointer \<open>q\<close>. \<open>ul_cells l ps\<close> is the invariant of the class: the
  chain from \<open>elements\<close> ends in the null pointer, \<open>lastElement\<close> points to its last node, \<open>size\<close>
  counts it, every address in use was allocated, and no other node is allocated (no leak).
\<close>

primrec lseg ::
  "(addr \<Rightarrow> 'a lnode option) \<Rightarrow> addr option \<Rightarrow> (addr \<times> 'a) list \<Rightarrow> addr option \<Rightarrow> bool" where
  "lseg h p [] q \<longleftrightarrow> p = q"
| "lseg h p (c # ps) q \<longleftrightarrow> p = Some (fst c) \<and>
     (\<exists>nx. h (fst c) = Some \<lparr>ln_data = snd c, ln_next = nx\<rparr> \<and> lseg h nx ps q)"

definition ul_cells :: "'a ulist \<Rightarrow> (addr \<times> 'a) list \<Rightarrow> bool" where
  "ul_cells l ps \<longleftrightarrow> lseg (u_nodes l) (elements l) ps None
     \<and> distinct (map fst ps) \<and> (\<forall>a \<in> fst ` set ps. a < u_free l)
     \<and> lastElement l = (if ps = [] then None else Some (fst (last ps)))
     \<and> u_size l = int (length ps) \<and> dom (u_nodes l) = fst ` set ps"

definition ul_rep :: "'a ulist \<Rightarrow> 'a list \<Rightarrow> bool" where
  "ul_rep l xs \<longleftrightarrow> (\<exists>ps. ul_cells l ps \<and> map snd ps = xs)"

lemma dom_single_del [simp]: "dom h = {a} \<Longrightarrow> h(a := None) = (\<lambda>_. None)"
  by (auto simp: fun_eq_iff dom_def split: if_splits)

lemma lseg_append [simp]: "lseg h p (ps @ qs) q \<longleftrightarrow> (\<exists>r. lseg h p ps r \<and> lseg h r qs q)"
  by (induction ps arbitrary: p) auto

lemma lseg_upd [simp]: "a \<notin> fst ` set ps \<Longrightarrow> lseg (h(a := v)) p ps q = lseg h p ps q"
  by (induction ps arbitrary: p) auto

lemma lseg_fun: "lseg h p ps None \<Longrightarrow> lseg h p qs None \<Longrightarrow> ps = qs"
proof (induction ps arbitrary: p qs)
  case Nil
  then show ?case by (cases qs) auto
next
  case (Cons c ps)
  then obtain d qs' where "qs = d # qs'" by (cases qs) auto
  with Cons show ?case by (auto simp: prod_eq_iff)
qed

lemma ul_rep_fun: "ul_rep l xs \<Longrightarrow> ul_rep l ys \<Longrightarrow> xs = ys"
  by (auto simp: ul_rep_def ul_cells_def dest: lseg_fun)

lemma ul_cells_isEmpty: "ul_cells l ps \<Longrightarrow> ul_isEmpty l \<longleftrightarrow> ps = []"
  by (cases ps) (auto simp: ul_cells_def ul_isEmpty_def)

lemma ul_rep_isEmpty: "ul_rep l xs \<Longrightarrow> ul_isEmpty l \<longleftrightarrow> xs = []"
  by (auto simp: ul_rep_def ul_cells_isEmpty)

lemma ul_rep_count: "ul_rep l xs \<Longrightarrow> ul_count l = int (length xs)"
  by (auto simp: ul_rep_def ul_cells_def ul_count_def)

lemma ul_rep_validIndex: "ul_rep l xs \<Longrightarrow> ul_validIndex i l \<longleftrightarrow> 0 \<le> i \<and> i < int (length xs)"
  by (auto simp: ul_rep_def ul_cells_def ul_validIndex_def)

lemma ul_rep_empty: "ul_rep (ul_empty d) []"
  by (simp add: ul_rep_def ul_cells_def ul_empty_def)

text \<open>Following \<open>next\<close> along a segment reaches its end pointer.\<close>

lemma ul_walk_seg: "lseg (u_nodes l) p ps r \<Longrightarrow> ul_walk l p (length ps) = Some r"
  by (induction ps arbitrary: p) (auto simp: deref_def)

lemma ul_element_cells:
  assumes "ul_cells l (ps @ c # qs)" and "i = int (length ps)"
  shows "ul_element i l = Some (Some (fst c))"
proof -
  obtain r where "lseg (u_nodes l) (elements l) ps r" "lseg (u_nodes l) r (c # qs) None"
    using assms(1) by (auto simp: ul_cells_def)
  then show ?thesis using assms(2) by (auto simp: ul_element_def dest: ul_walk_seg)
qed

lemma ul_cells_node:
  assumes "ul_cells l (ps @ c # qs)"
  obtains nx where "u_nodes l (fst c) = Some \<lparr>ln_data = snd c, ln_next = nx\<rparr>"
    and "lseg (u_nodes l) nx qs None"
  using assms by (auto simp: ul_cells_def)

lemma split_at_index:
  assumes "0 \<le> i" and "i < int (length xs)"
  obtains ys z zs where "xs = ys @ z # zs" and "i = int (length ys)"
proof
  show "xs = take (nat i) xs @ xs ! nat i # drop (Suc (nat i)) xs"
    using assms by (intro id_take_nth_drop) simp
  show "i = int (length (take (nat i) xs))" using assms by simp
qed

subsection \<open>The operations on the represented list\<close>

lemma ul_append_cells:
  assumes "ul_cells l ps"
  shows "\<exists>l'. ul_append x l = Some l' \<and> ul_cells l' (ps @ [(u_free l, x)]) \<and> invalidItem l' = invalidItem l"
proof (cases ps rule: rev_cases)
  case Nil
  with assms show ?thesis
    by (auto simp: ul_append_def ul_new_def ul_isEmpty_def ul_cells_def)
next
  case (snoc qs c)
  with assms have ne: "elements l \<noteq> None" using ul_cells_isEmpty [OF assms] by (simp add: ul_isEmpty_def)
  from assms snoc have fresh: "fst c \<noteq> u_free l" "u_free l \<notin> fst ` set qs" "fst c \<notin> fst ` set qs"
    by (auto simp: ul_cells_def)
  from assms snoc fresh ne show ?thesis
    by (auto simp: ul_append_def ul_new_def ul_isEmpty_def ul_cells_def ul_set_next_def)
qed

lemma ul_append_rep:
  assumes "ul_rep l xs"
  shows "\<exists>l'. ul_append x l = Some l' \<and> ul_rep l' (xs @ [x]) \<and> invalidItem l' = invalidItem l"
proof -
  obtain ps where ps: "ul_cells l ps" "map snd ps = xs" using assms by (auto simp: ul_rep_def)
  obtain l' where "ul_append x l = Some l'" "ul_cells l' (ps @ [(u_free l, x)])" "invalidItem l' = invalidItem l"
    using ul_append_cells [OF ps(1)] by blast
  moreover have "map snd (ps @ [(u_free l, x)]) = xs @ [x]" using ps(2) by simp
  ultimately show ?thesis unfolding ul_rep_def by blast
qed

lemma ul_at_rep:
  assumes "ul_rep l xs"
  shows "ul_at i l = Some (if 0 \<le> i \<and> i < int (length xs) then xs ! nat i else invalidItem l)"
proof (cases "0 \<le> i \<and> i < int (length xs)")
  case True
  obtain ps where ps: "ul_cells l ps" "map snd ps = xs" using assms by (auto simp: ul_rep_def)
  then have len: "i < int (length ps)" using True by auto
  obtain ys z zs where z: "ps = ys @ z # zs" "i = int (length ys)"
    using split_at_index [OF conjunct1 [OF True] len] by blast
  obtain nx where nx: "u_nodes l (fst z) = Some \<lparr>ln_data = snd z, ln_next = nx\<rparr>"
    using ul_cells_node [of l ys z zs] ps z by blast
  with ps z have "ul_at i l = Some (snd z)"
    using True ul_element_cells [of l ys z zs i] ul_rep_validIndex [OF assms]
    by (simp add: ul_at_def deref_def)
  moreover have "xs ! nat i = snd z" using z ps(2) by (auto simp: nth_append)
  ultimately show ?thesis using True by simp
next
  case False
  then have "\<not> ul_validIndex i l" using ul_rep_validIndex [OF assms] by blast
  then show ?thesis using False by (simp only: ul_at_def if_False)
qed

lemma ul_modify_rep:
  assumes "ul_rep l xs"
  shows "\<exists>l'. ul_modify i f l = Some l' \<and>
    (if 0 \<le> i \<and> i < int (length xs)
     then ul_rep l' (xs[nat i := f (xs ! nat i)]) \<and> invalidItem l' = invalidItem l
     else ul_rep l' xs \<and> invalidItem l' = f (invalidItem l))"
proof (cases "0 \<le> i \<and> i < int (length xs)")
  case True
  obtain ps where ps: "ul_cells l ps" "map snd ps = xs" using assms by (auto simp: ul_rep_def)
  then have len: "i < int (length ps)" using True by auto
  obtain ys z zs where z: "ps = ys @ z # zs" "i = int (length ys)"
    using split_at_index [OF conjunct1 [OF True] len] by blast
  let ?ps = "ys @ (fst z, f (snd z)) # zs"
  obtain nx where nx: "u_nodes l (fst z) = Some \<lparr>ln_data = snd z, ln_next = nx\<rparr>"
    using ul_cells_node [of l ys z zs] ps z by blast
  let ?l = "l\<lparr>u_nodes := (u_nodes l)(fst z \<mapsto> \<lparr>ln_data = f (snd z), ln_next = nx\<rparr>)\<rparr>"
  have "ul_modify i f l = Some ?l"
    using True ul_element_cells [of l ys z zs i] ul_rep_validIndex [OF assms] ps z nx
    by (simp add: ul_modify_def)
  moreover have "ul_cells ?l ?ps" using ps(1) z nx by (auto simp: ul_cells_def)
  moreover have "map snd ?ps = xs[nat i := f (xs ! nat i)]"
    using z ps(2) by (auto simp: list_update_append nth_append)
  ultimately show ?thesis using True unfolding ul_rep_def by auto
next
  case False
  then show ?thesis using assms ul_rep_validIndex [OF assms]
    by (auto simp: ul_modify_def ul_rep_def ul_cells_def)
qed


lemma ul_remove_cells:
  assumes cells: "ul_cells l (ys @ z # zs)" and i: "i = int (length ys)"
  shows "\<exists>l'. ul_remove i l = Some l' \<and> ul_cells l' (ys @ zs) \<and> invalidItem l' = invalidItem l"
proof -
  obtain nx where nx: "u_nodes l (fst z) = Some \<lparr>ln_data = snd z, ln_next = nx\<rparr>"
      "lseg (u_nodes l) nx zs None"
    using ul_cells_node [OF cells] by blast
  have valid: "ul_validIndex i l" using cells i by (simp add: ul_validIndex_def ul_cells_def)
  have el: "ul_element i l = Some (Some (fst z))" by (rule ul_element_cells [OF cells i])
  have nxz: "nx = None \<longleftrightarrow> zs = []" using nx(2) by (cases zs) auto
  let ?h = "(u_nodes l)(fst z := None)"
  show ?thesis
  proof (cases ys rule: rev_cases)
    case Nil
    with cells i el nx valid nxz show ?thesis
      by (cases zs) (auto simp: ul_remove_def ul_delete_def ul_cells_def image_iff)
  next
    case (snoc vs c)
    with i have i0: "i \<noteq> 0" and im: "i - 1 = int (length vs)" by auto
    from cells snoc obtain r r' where segs: "lseg (u_nodes l) (elements l) vs r"
        "r = Some (fst c)" "u_nodes l (fst c) = Some \<lparr>ln_data = snd c, ln_next = r'\<rparr>"
      by (auto simp: ul_cells_def)
    have dz: "fst z \<notin> fst ` set vs" "fst z \<noteq> fst c" "fst z \<notin> fst ` set zs"
      "fst c \<notin> fst ` set vs" "fst c \<notin> fst ` set zs"
      using cells snoc by (auto simp: ul_cells_def)
    have "ul_element (i - 1) (ul_delete (fst z) l) = Some (Some (fst c))"
      using segs dz ul_walk_seg [of "ul_delete (fst z) l" "elements l" vs r] im
      by (simp add: ul_element_def ul_delete_def)
    let ?l = "l\<lparr>u_nodes := ?h(fst c \<mapsto> \<lparr>ln_data = snd c, ln_next = nx\<rparr>),
              lastElement := (if zs = [] then Some (fst c) else lastElement l), u_size := u_size l - 1\<rparr>"
    from \<open>ul_element (i - 1) (ul_delete (fst z) l) = Some (Some (fst c))\<close> el nx valid i0 segs dz nxz
    have rm: "ul_remove i l = Some ?l"
      by (auto simp: ul_remove_def ul_set_next_def ul_delete_def)
    have "lseg (u_nodes ?l) (elements ?l) (ys @ zs) None"
      using segs dz nx(2) snoc by auto
    moreover have "distinct (map fst (ys @ zs))" "\<forall>a \<in> fst ` set (ys @ zs). a < u_free ?l"
      "u_size ?l = int (length (ys @ zs))"
      using cells by (auto simp: ul_cells_def)
    moreover have "lastElement ?l = (if ys @ zs = [] then None else Some (fst (last (ys @ zs))))"
      using cells snoc by (auto simp: ul_cells_def)
    moreover have "dom (u_nodes ?l) = insert (fst c) (dom (u_nodes l) - {fst z})" by auto
    moreover have "insert (fst c) (dom (u_nodes l) - {fst z}) = fst ` set (ys @ zs)"
    proof -
      have "dom (u_nodes l) = insert (fst z) (fst ` set (ys @ zs))"
        using cells by (auto simp: ul_cells_def)
      moreover have "fst z \<notin> fst ` set (ys @ zs)" "fst c \<in> fst ` set (ys @ zs)"
        using dz snoc by auto
      ultimately show ?thesis by auto
    qed
    ultimately have "ul_cells ?l (ys @ zs)" by (simp only: ul_cells_def)
    with rm show ?thesis by simp
  qed
qed

lemma ul_remove_rep:
  assumes "ul_rep l xs"
  shows "\<exists>l'. ul_remove i l = Some l' \<and> invalidItem l' = invalidItem l \<and>
    ul_rep l' (if 0 \<le> i \<and> i < int (length xs) then take (nat i) xs @ drop (Suc (nat i)) xs else xs)"
proof (cases "0 \<le> i \<and> i < int (length xs)")
  case True
  obtain ps where ps: "ul_cells l ps" "map snd ps = xs" using assms by (auto simp: ul_rep_def)
  then have len: "i < int (length ps)" using True by auto
  obtain ys z zs where z: "ps = ys @ z # zs" "i = int (length ys)"
    using split_at_index [OF conjunct1 [OF True] len] by blast
  with ps(1) ul_remove_cells obtain l' where "ul_remove i l = Some l'" "ul_cells l' (ys @ zs)"
      "invalidItem l' = invalidItem l"
    by blast
  moreover have "map snd (ys @ zs) = take (nat i) xs @ drop (Suc (nat i)) xs" using z ps(2) by auto
  ultimately show ?thesis using True unfolding ul_rep_def by auto
next
  case False
  then show ?thesis using assms ul_rep_validIndex [OF assms] by (auto simp: ul_remove_def)
qed

lemma ul_drop_front_cells:
  assumes "ul_cells l (z # zs)"
  shows "\<exists>l'. ul_drop_front l = Some (snd z, l') \<and> ul_cells (ul_fix_last l') zs
    \<and> invalidItem l' = invalidItem l"
proof -
  obtain nx where "u_nodes l (fst z) = Some \<lparr>ln_data = snd z, ln_next = nx\<rparr>"
      "lseg (u_nodes l) nx zs None"
    using ul_cells_node [of l "[]" z zs] assms by auto
  moreover have "ul_element 0 l = Some (Some (fst z))"
    using ul_element_cells [of l "[]" z zs 0] assms by simp
  ultimately show ?thesis using assms
    by (cases zs) (auto simp: ul_drop_front_def ul_delete_def ul_cells_def ul_fix_last_def
        ul_isEmpty_def image_iff)
qed

lemma ul_take_front_rep:
  assumes "ul_rep l (x # xs)"
  shows "\<exists>l'. ul_take_front l = Some (x, l') \<and> ul_rep l' xs \<and> invalidItem l' = invalidItem l"
proof -
  obtain z zs where z: "ul_cells l (z # zs)" "snd z = x" "map snd zs = xs"
    using assms by (auto simp: ul_rep_def)
  with ul_drop_front_cells [OF z(1)] ul_cells_isEmpty [OF z(1)] show ?thesis
    by (auto simp: ul_take_front_def ul_rep_def ul_fix_last_def)
qed

lemma ul_take_front_nil:
  "ul_rep l [] \<Longrightarrow> ul_take_front l = Some (invalidItem l, l)"
  by (auto simp: ul_take_front_def ul_rep_def ul_cells_def ul_fix_last_def ul_isEmpty_def
      intro!: ulist.equality)

lemma ul_pop_rep: "ul_rep l xs \<Longrightarrow> \<exists>l'. ul_pop l = Some l' \<and> ul_rep l' (tl xs)"
proof (cases xs)
  case Nil
  assume "ul_rep l xs"
  with Nil have "ul_pop l = Some l" 
    by (auto simp: ul_pop_def ul_rep_def ul_cells_def ul_fix_last_def ul_isEmpty_def
        intro!: ulist.equality)
  with \<open>ul_rep l xs\<close> Nil show ?thesis by simp
next
  case (Cons x ys)
  assume "ul_rep l xs"
  then obtain z zs where z: "ul_cells l (z # zs)" "map snd zs = ys"
    using Cons by (auto simp: ul_rep_def)
  with ul_drop_front_cells [OF z(1)] ul_cells_isEmpty [OF z(1)] Cons show ?thesis
    by (auto simp: ul_pop_def ul_rep_def)
qed

text \<open>The search loops, against the first match in the list.\<close>

primrec first_match :: "('a \<Rightarrow> bool) \<Rightarrow> int \<Rightarrow> 'a list \<Rightarrow> (int \<times> 'a) option" where
  "first_match eq n [] = None"
| "first_match eq n (x # xs) = (if eq x then Some (n, x) else first_match eq (n + 1) xs)"

lemma ul_find_from_seg:
  "lseg (u_nodes l) p ps None \<Longrightarrow> ul_find_from eq l p n = Some (first_match eq n (map snd ps))"
  by (induction ps arbitrary: p n) (auto simp: ul_find_from.simps)

lemma ul_find_from_rep: "ul_rep l xs \<Longrightarrow> ul_find_from eq l (elements l) n = Some (first_match eq n xs)"
  by (auto simp: ul_rep_def ul_cells_def ul_find_from_seg)

definition sq_indexOf :: "('a \<Rightarrow> bool) \<Rightarrow> 'a list \<Rightarrow> int" where
  "sq_indexOf eq xs = (case first_match eq 0 xs of None \<Rightarrow> - 1 | Some (n, _) \<Rightarrow> n)"

lemma ul_indexOf_rep: "ul_rep l xs \<Longrightarrow> ul_indexOf eq l = Some (sq_indexOf eq xs)"
  by (auto simp: ul_indexOf_def ul_find_from_rep ul_rep_isEmpty sq_indexOf_def)

lemma ul_find_rep:
  "ul_rep l xs \<Longrightarrow>
   ul_find eq l = Some (case first_match eq 0 xs of None \<Rightarrow> invalidItem l | Some (_, x) \<Rightarrow> x)"
  by (auto simp: ul_find_def ul_find_from_rep ul_rep_isEmpty)

lemma first_match_None: "first_match eq n xs = None \<longleftrightarrow> (\<forall>x \<in> set xs. \<not> eq x)"
  by (induction xs arbitrary: n) auto

lemma first_match_Some:
  "first_match eq n xs = Some (k, x) \<Longrightarrow>
   n \<le> k \<and> k < n + int (length xs) \<and> x = xs ! nat (k - n) \<and> eq x \<and> (\<forall>j < nat (k - n). \<not> eq (xs ! j))"
proof (induction xs arbitrary: n)
  case Nil
  then show ?case by simp
next
  case (Cons y ys)
  show ?case
  proof (cases "eq y")
    case True
    with Cons.prems show ?thesis by auto
  next
    case False
    with Cons have IH: "n + 1 \<le> k \<and> k < n + 1 + int (length ys) \<and> x = ys ! nat (k - (n + 1)) \<and> eq x
        \<and> (\<forall>j < nat (k - (n + 1)). \<not> eq (ys ! j))"
      by simp
    then have n: "nat (k - n) = Suc (nat (k - (n + 1)))" by linarith
    with IH False show ?thesis by (auto simp: less_Suc_eq_0_disj)
  qed
qed

lemma sq_indexOf_cases:
  obtains (absent) "sq_indexOf eq xs = - 1" and "\<forall>x \<in> set xs. \<not> eq x"
  | (found) i where "sq_indexOf eq xs = int i" and "i < length xs" and "eq (xs ! i)" and "\<forall>j < i. \<not> eq (xs ! j)"
proof (cases "first_match eq 0 xs")
  case None
  with that(1) show ?thesis by (simp add: sq_indexOf_def first_match_None)
next
  case (Some r)
  then obtain k x where "first_match eq 0 xs = Some (k, x)" by (cases r) auto
  with that(2) [of "nat k"] first_match_Some [OF this] show ?thesis by (auto simp: sq_indexOf_def)
qed

text \<open>Freeing and copying.\<close>

lemma ul_delete_chain_seg:
  "lseg (u_nodes l) p ps None \<Longrightarrow>
   ul_delete_chain p l = Some (l\<lparr>u_nodes := (\<lambda>a. if a \<in> fst ` set ps then None else u_nodes l a)\<rparr>)"
proof (induction ps arbitrary: p)
  case Nil
  then show ?case by (simp add: ul_delete_chain.simps)
next
  case (Cons c ps)
  then show ?case by (auto simp: ul_delete_chain.simps ul_delete_def fun_eq_iff)
qed

lemma ul_clear_rep:
  assumes "ul_rep l xs"
  shows "\<exists>l'. ul_clear l = Some l' \<and> ul_rep l' [] \<and> u_nodes l' = Map.empty \<and> invalidItem l' = invalidItem l"
proof -
  obtain ps where ps: "ul_cells l ps" "map snd ps = xs" using assms by (auto simp: ul_rep_def)
  let ?h = "\<lambda>a. if a \<in> fst ` set ps then None else u_nodes l a"
  have "?h = Map.empty" using ps(1) by (auto simp: ul_cells_def fun_eq_iff)
  moreover have "ul_delete_chain (elements l) l = Some (l\<lparr>u_nodes := ?h\<rparr>)"
    using ps(1) ul_delete_chain_seg [of l "elements l" ps] by (simp add: ul_cells_def)
  ultimately show ?thesis
    using ps ul_cells_isEmpty [OF ps(1)]
    by (auto simp: ul_clear_def ul_rep_def ul_cells_def)
qed

lemma ul_copy_step:
  "\<not> ul_isEmpty l \<Longrightarrow> ul_copy_loop (Suc n) other p l =
     do { nd \<leftarrow> deref other p; l1 \<leftarrow> ul_append (ln_data nd) l; ul_copy_loop n other (ln_next nd) l1 }"
  by (cases "elements l") (simp_all add: ul_append_def ul_new_def ul_isEmpty_def)

lemma ul_copy_loop_rep:
  "lseg (u_nodes other) p qs None \<Longrightarrow> ul_rep l xs \<Longrightarrow> xs \<noteq> [] \<Longrightarrow>
   \<exists>l'. ul_copy_loop (length qs) other p l = Some l' \<and> ul_rep l' (xs @ map snd qs)"
proof (induction qs arbitrary: p l xs)
  case Nil
  then show ?case by simp
next
  case (Cons c qs)
  obtain l1 where "ul_append (snd c) l = Some l1" "ul_rep l1 (xs @ [snd c])"
    using ul_append_rep [OF Cons.prems(2)] by blast
  moreover obtain nx where "p = Some (fst c)" "lseg (u_nodes other) nx qs None"
      "u_nodes other (fst c) = Some \<lparr>ln_data = snd c, ln_next = nx\<rparr>"
    using Cons.prems(1) by auto
  ultimately show ?case
    using Cons.IH [of nx l1 "xs @ [snd c]"] ul_rep_isEmpty [OF Cons.prems(2)] Cons.prems(3)
    by (simp add: ul_copy_step deref_def del: ul_copy_loop.simps(2))
qed

lemma ul_appendCopy_rep:
  assumes "ul_rep other ys" and "ul_rep l xs"
  shows "\<exists>l'. ul_appendCopy other l = Some l' \<and> ul_rep l' (xs @ ys)"
proof -
  obtain qs where qs: "lseg (u_nodes other) (elements other) qs None" "map snd qs = ys" "u_size other = int (length qs)"
    using assms(1) by (auto simp: ul_rep_def ul_cells_def)
  show ?thesis
  proof (cases "ys = []")
    case True
    with assms show ?thesis using ul_rep_isEmpty [OF assms(1)] by (simp add: ul_appendCopy_def)
  next
    case False
    then obtain c cs where c: "qs = c # cs" using qs(2) by (cases qs) auto
    show ?thesis
    proof (cases "xs = []")
      case True
      obtain l1 where l1: "ul_append (snd c) l = Some l1" "ul_rep l1 [snd c]"
        using ul_append_rep [OF assms(2)] True by auto
      obtain nx where nx: "elements other = Some (fst c)"
          "u_nodes other (fst c) = Some \<lparr>ln_data = snd c, ln_next = nx\<rparr>" "lseg (u_nodes other) nx cs None"
        using qs(1) c by auto
      have "u_size l = 0" using assms(2) True by (auto simp: ul_rep_def ul_cells_def)
      with nx True False c qs l1(1) have "ul_appendCopy other l = ul_copy_loop (length cs) other nx l1"
        using ul_rep_isEmpty [OF assms(1)] ul_rep_isEmpty [OF assms(2)]
        by (auto simp: ul_appendCopy_def deref_def ul_append_def ul_new_def ul_isEmpty_def ul_count_def)
      with ul_copy_loop_rep [OF nx(3) l1(2)] c qs(2) True show ?thesis by auto
    next
      case ne: False
      with False have "ul_appendCopy other l = ul_copy_loop (length qs) other (elements other) l"
        using ul_rep_isEmpty [OF assms(1)] ul_rep_isEmpty [OF assms(2)] qs(3)
        by (simp add: ul_appendCopy_def ul_count_def)
      with ul_copy_loop_rep [OF qs(1) assms(2) ne] qs(2) show ?thesis by auto
    qed
  qed
qed

lemma ul_rep_invalidItem [simp]: "ul_rep (l\<lparr>invalidItem := d\<rparr>) xs = ul_rep l xs"
  by (simp add: ul_rep_def ul_cells_def)

lemma ul_assign_rep:
  assumes "ul_rep other ys" and "ul_rep l xs"
  shows "\<exists>l'. ul_assign other l = Some l' \<and> ul_rep l' ys \<and> invalidItem l' = invalidItem other"
proof -
  obtain l1 where l1: "(if \<not> ul_isEmpty l then ul_clear l else Some l) = Some l1" "ul_rep l1 []"
    using ul_clear_rep [OF assms(2)] ul_rep_isEmpty [OF assms(2)] assms(2) by (cases "xs = []") auto
  with ul_appendCopy_rep [OF assms(1) l1(2)] show ?thesis by (auto simp: ul_assign_def)
qed


subsection \<open>The abstract sequence\<close>

text \<open>
  What the clients of the template see: a list of elements and the element that stands for an
  invalid index.
\<close>

record 'a useq =
  sq_items :: "'a list"
  sq_invalid :: 'a

definition sq_valid :: "int \<Rightarrow> 'a useq \<Rightarrow> bool" where
  "sq_valid i s \<longleftrightarrow> 0 \<le> i \<and> i < int (length (sq_items s))"

definition sq_at :: "int \<Rightarrow> 'a useq \<Rightarrow> 'a" where
  "sq_at i s = (if sq_valid i s then sq_items s ! nat i else sq_invalid s)"

definition sq_modify :: "int \<Rightarrow> ('a \<Rightarrow> 'a) \<Rightarrow> 'a useq \<Rightarrow> 'a useq" where
  "sq_modify i f s =
     (if sq_valid i s then s\<lparr>sq_items := (sq_items s)[nat i := f (sq_items s ! nat i)]\<rparr>
      else s\<lparr>sq_invalid := f (sq_invalid s)\<rparr>)"

definition sq_append :: "'a \<Rightarrow> 'a useq \<Rightarrow> 'a useq" where
  "sq_append x s = s\<lparr>sq_items := sq_items s @ [x]\<rparr>"

definition sq_remove :: "int \<Rightarrow> 'a useq \<Rightarrow> 'a useq" where
  "sq_remove i s =
     (if sq_valid i s then s\<lparr>sq_items := take (nat i) (sq_items s) @ drop (Suc (nat i)) (sq_items s)\<rparr>
      else s)"

definition sq_take_front :: "'a useq \<Rightarrow> 'a \<times> 'a useq" where
  "sq_take_front s =
     (case sq_items s of [] \<Rightarrow> (sq_invalid s, s) | x # xs \<Rightarrow> (x, s\<lparr>sq_items := xs\<rparr>))"

definition sq_clear :: "'a useq \<Rightarrow> 'a useq" where
  "sq_clear s = s\<lparr>sq_items := []\<rparr>"

definition sq_count :: "'a useq \<Rightarrow> int" where
  "sq_count s = int (length (sq_items s))"

definition sq_index :: "('a \<Rightarrow> bool) \<Rightarrow> 'a useq \<Rightarrow> int" where
  "sq_index eq s = sq_indexOf eq (sq_items s)"

definition sq_find :: "('a \<Rightarrow> bool) \<Rightarrow> 'a useq \<Rightarrow> 'a" where
  "sq_find eq s =
     (case first_match eq 0 (sq_items s) of None \<Rightarrow> sq_invalid s | Some (_, x) \<Rightarrow> x)"

text \<open>The public operations as values, with what each returns.\<close>

datatype 'a list_op =
    OpAppend 'a
  | OpAt int
  | OpModify int "'a \<Rightarrow> 'a"
  | OpRemove int
  | OpTakeFront
  | OpPop
  | OpFind "'a \<Rightarrow> bool"
  | OpIndexOf "'a \<Rightarrow> bool"
  | OpClear
  | OpCount
  | OpIsEmpty

datatype 'a list_out = OutUnit | OutItem 'a | OutInt int | OutBool bool

fun ul_exec :: "'a list_op \<Rightarrow> 'a ulist \<Rightarrow> ('a list_out \<times> 'a ulist) option" where
  "ul_exec (OpAppend x) l = map_option (Pair OutUnit) (ul_append x l)"
| "ul_exec (OpAt i) l = map_option (\<lambda>x. (OutItem x, l)) (ul_at i l)"
| "ul_exec (OpModify i f) l = map_option (Pair OutUnit) (ul_modify i f l)"
| "ul_exec (OpRemove i) l = map_option (Pair OutUnit) (ul_remove i l)"
| "ul_exec OpTakeFront l = map_option (\<lambda>(x, l'). (OutItem x, l')) (ul_take_front l)"
| "ul_exec OpPop l = map_option (Pair OutUnit) (ul_pop l)"
| "ul_exec (OpFind eq) l = map_option (\<lambda>x. (OutItem x, l)) (ul_find eq l)"
| "ul_exec (OpIndexOf eq) l = map_option (\<lambda>i. (OutInt i, l)) (ul_indexOf eq l)"
| "ul_exec OpClear l = map_option (Pair OutUnit) (ul_clear l)"
| "ul_exec OpCount l = Some (OutInt (ul_count l), l)"
| "ul_exec OpIsEmpty l = Some (OutBool (ul_isEmpty l), l)"

fun sq_exec :: "'a list_op \<Rightarrow> 'a useq \<Rightarrow> 'a list_out \<times> 'a useq" where
  "sq_exec (OpAppend x) s = (OutUnit, sq_append x s)"
| "sq_exec (OpAt i) s = (OutItem (sq_at i s), s)"
| "sq_exec (OpModify i f) s = (OutUnit, sq_modify i f s)"
| "sq_exec (OpRemove i) s = (OutUnit, sq_remove i s)"
| "sq_exec OpTakeFront s = (OutItem (fst (sq_take_front s)), snd (sq_take_front s))"
| "sq_exec OpPop s = (OutUnit, snd (sq_take_front s))"
| "sq_exec (OpFind eq) s = (OutItem (sq_find eq s), s)"
| "sq_exec (OpIndexOf eq) s = (OutInt (sq_index eq s), s)"
| "sq_exec OpClear s = (OutUnit, sq_clear s)"
| "sq_exec OpCount s = (OutInt (sq_count s), s)"
| "sq_exec OpIsEmpty s = (OutBool (sq_items s = []), s)"

definition ul_seq :: "'a ulist \<Rightarrow> 'a useq \<Rightarrow> bool" where
  "ul_seq l s \<longleftrightarrow> ul_rep l (sq_items s) \<and> invalidItem l = sq_invalid s"

lemma ul_pop_take_front:
  "ul_pop l = map_option snd (ul_take_front l)"
  by (cases "ul_isEmpty l"; cases "ul_drop_front l") (auto simp: ul_pop_def ul_take_front_def)

lemma ul_seq_take_front:
  assumes "ul_seq l s"
  shows "\<exists>l'. ul_take_front l = Some (fst (sq_take_front s), l') \<and> ul_seq l' (snd (sq_take_front s))"
proof (cases "sq_items s")
  case Nil
  then show ?thesis using assms ul_take_front_nil [of l] by (simp add: ul_seq_def sq_take_front_def)
next
  case (Cons x xs)
  then show ?thesis using assms ul_take_front_rep [of l x xs] by (auto simp: ul_seq_def sq_take_front_def)
qed

lemma ul_seq_modify:
  assumes "ul_seq l s"
  shows "\<exists>l'. ul_modify i f l = Some l' \<and> ul_seq l' (sq_modify i f s)"
  using ul_modify_rep [of l "sq_items s" i f] assms
  by (auto simp: ul_seq_def sq_modify_def sq_valid_def split: if_splits)

lemma ul_seq_remove:
  assumes "ul_seq l s"
  shows "\<exists>l'. ul_remove i l = Some l' \<and> ul_seq l' (sq_remove i s)"
  using ul_remove_rep [of l "sq_items s" i] assms
  by (auto simp: ul_seq_def sq_remove_def sq_valid_def split: if_splits)

interpretation ul: data_refinement ul_seq "\<lambda>_. True" ul_exec sq_exec
proof unfold_locales
  fix l :: "'a ulist" and s :: "'a useq" and x :: "'a list_op"
  assume R: "ul_seq l s"
  then have r: "ul_rep l (sq_items s)" and d: "invalidItem l = sq_invalid s" by (simp_all add: ul_seq_def)
  show "\<exists>l'. ul_exec x l = Some (fst (sq_exec x s), l') \<and> ul_seq l' (snd (sq_exec x s))"
  proof (cases x)
    case (OpAppend a)
    then show ?thesis using ul_append_rep [OF r, of a] d by (auto simp: ul_seq_def sq_append_def)
  next
    case (OpAt i)
    then show ?thesis using ul_at_rep [OF r, of i] R d by (simp add: sq_at_def sq_valid_def)
  next
    case (OpModify i f)
    then show ?thesis using ul_seq_modify [OF R, of i f] by auto
  next
    case (OpRemove i)
    then show ?thesis using ul_seq_remove [OF R, of i] by auto
  next
    case OpTakeFront
    then show ?thesis using ul_seq_take_front [OF R] by auto
  next
    case OpPop
    then show ?thesis using ul_seq_take_front [OF R] by (auto simp: ul_pop_take_front)
  next
    case (OpFind eq)
    then show ?thesis using ul_find_rep [OF r, of eq] R d by (auto simp: sq_find_def split: option.split)
  next
    case (OpIndexOf eq)
    then show ?thesis using ul_indexOf_rep [OF r, of eq] R by (simp add: sq_index_def)
  next
    case OpClear
    then show ?thesis using ul_clear_rep [OF r] d by (auto simp: ul_seq_def sq_clear_def)
  next
    case OpCount
    then show ?thesis using ul_rep_count [OF r] R by (simp add: sq_count_def)
  next
    case OpIsEmpty
    then show ?thesis using ul_rep_isEmpty [OF r] R by simp
  qed
qed

lemma ul_seq_empty: "ul_seq (ul_empty d) \<lparr>sq_items = [], sq_invalid = d\<rparr>"
  by (simp add: ul_seq_def ul_rep_empty) (simp add: ul_empty_def)


subsection \<open>Properties\<close>

text \<open>
  C30: every sequence of calls of the list's public operations (\<open>push\<close> apart) on a list that
  represents a sequence dereferences no null or dangling pointer, returns what the same calls
  return on the sequence, and leaves a list that represents the resulting sequence: linked
  through to the null pointer, with the right count and last element, and no node leaked.
\<close>

theorem list_operations_refine_sequence:
  assumes "ul_seq l s"
  shows "\<exists>l'. run_partial ul_exec ops l = Some (fst (run_total sq_exec ops s), l')
    \<and> ul_seq l' (snd (run_total sq_exec ops s))"
  using ul.run_sim [OF assms] by (simp add: list.pred_True)

lemma list_operations_refine_sequence_witness:
  "\<exists>l'. run_partial ul_exec [OpAppend 5, OpAppend 6, OpRemove 1, OpAppend (7 :: nat), OpTakeFront, OpCount]
      (ul_empty 0) = Some ([OutUnit, OutUnit, OutUnit, OutUnit, OutItem 5, OutInt 1], l')
    \<and> ul_seq l' \<lparr>sq_items = [7], sq_invalid = 0\<rparr>"
  using list_operations_refine_sequence
    [OF ul_seq_empty, of "[OpAppend 5, OpAppend 6, OpRemove 1, OpAppend 7, OpTakeFront, OpCount]" "0 :: nat"]
  by (simp add: sq_append_def sq_remove_def sq_take_front_def sq_count_def sq_valid_def)

text \<open>
  \<open>operator=\<close> with another list as its argument frees the old nodes, and makes a copy of its
  argument that shares no node with it (the nodes are in the copy's own store).
\<close>

theorem list_assignment_copies:
  assumes "ul_seq other t" and "ul_seq l s"
  shows "\<exists>l'. ul_assign other l = Some l' \<and> ul_seq l' t"
  using ul_assign_rep [of other "sq_items t" l "sq_items s"] assms by (auto simp: ul_seq_def)

lemma list_assignment_copies_witness:
  "\<exists>l'. ul_assign (ul_empty 3) (ul_empty (4 :: nat)) = Some l' \<and> ul_seq l' \<lparr>sq_items = [], sq_invalid = 3\<rparr>"
  by (rule list_assignment_copies [OF ul_seq_empty ul_seq_empty])

text \<open>
  \<open>push\<close> on an empty list does not set the last element, and the next \<open>append\<close> follows that
  null pointer. (No caller in the repository uses \<open>push\<close>.)
\<close>

theorem push_then_append_fails:
  assumes "ul_rep l []"
  shows "\<exists>l1. ul_push x l = Some l1 \<and> ul_append y l1 = None"
  using assms
  by (auto simp: ul_rep_def ul_cells_def ul_push_def ul_append_def ul_new_def ul_isEmpty_def ul_set_next_def)

lemma push_then_append_fails_witness:
  "\<exists>l1. ul_push 1 (ul_empty (0 :: nat)) = Some l1 \<and> ul_append 2 l1 = None"
  by (rule push_then_append_fails [OF ul_rep_empty])

end
