(* ===== verification/NbiotString.thy ===== *)
theory NbiotString
  imports UtilList
begin

text \<open>
  The byte string class of \<open>libNbiotCore/include/nbiotstring.h\<close> and
  \<open>libNbiotCore/src/nbiotstring.cpp\<close>. A string owns a heap block (\<open>None\<close> is the null pointer)
  of \<open>st_mem\<close> bytes and a length; \<open>st_inv\<close> is the invariant that the block ends the text with a
  zero byte, \<open>st_view\<close> the text. A \<open>const char*\<close> argument is the object it points into, from the
  pointer on; reading past that object is \<open>None\<close>. Allocation is taken to succeed, and the bytes
  that \<open>malloc\<close> and \<open>realloc\<close> add, which C leaves indeterminate, start as zero in the model.
\<close>

subsection \<open>Hexadecimal digits\<close>

definition h2c :: "byte \<Rightarrow> byte" where
  "h2c c =
     (if 48 \<le> c \<and> c \<le> 57 then c - 48
      else if 97 \<le> c \<and> c \<le> 102 then c - 97 + 10
      else if 65 \<le> c \<and> c \<le> 70 then c - 65 + 10
      else 0)"

definition c2h :: "byte \<Rightarrow> byte" where
  "c2h c =
     (if c \<le> 9 then 48 + c
      else if 10 \<le> c \<and> c \<le> 15 then 65 + (c - 10)
      else 48)"

subsection \<open>C strings and blocks\<close>

text \<open>\<open>size_t\<close> values are naturals below \<open>size_t_mod\<close>; sums wrap.\<close>

definition size_t_mod :: nat where
  "size_t_mod = 2 ^ 32"

definition npos :: nat where
  "npos = size_t_mod - 1"

fun cstrlen :: "byte list \<Rightarrow> nat option" where
  "cstrlen [] = None"
| "cstrlen (c # cs) = (if c = 0 then Some 0 else map_option Suc (cstrlen cs))"

definition cstr :: "byte list \<Rightarrow> byte list option" where
  "cstr p = map_option (\<lambda>n. take n p) (cstrlen p)"

fun strcmp_eq :: "byte list \<Rightarrow> byte list \<Rightarrow> bool option" where
  "strcmp_eq (a # as) (b # bs) =
     (if a \<noteq> b then Some False else if a = 0 then Some True else strcmp_eq as bs)"
| "strcmp_eq _ _ = None"

fun is_prefix :: "byte list \<Rightarrow> byte list \<Rightarrow> bool" where
  "is_prefix [] ys = True"
| "is_prefix (x # xs) [] = False"
| "is_prefix (x # xs) (y # ys) = (x = y \<and> is_prefix xs ys)"

text \<open>\<open>strstr\<close> and \<open>strchr\<close>: the offset of the first occurrence.\<close>

fun search_sub :: "byte list \<Rightarrow> byte list \<Rightarrow> nat option" where
  "search_sub pat [] = (if pat = [] then Some 0 else None)"
| "search_sub pat (y # ys) =
     (if is_prefix pat (y # ys) then Some 0 else map_option Suc (search_sub pat ys))"

definition strstr :: "byte list \<Rightarrow> byte list \<Rightarrow> nat option option" where
  "strstr hay pat = do { h \<leftarrow> cstr hay; p \<leftarrow> cstr pat; Some (search_sub p h) }"

definition strchr :: "byte list \<Rightarrow> byte \<Rightarrow> nat option option" where
  "strchr hay c = do { h \<leftarrow> cstr hay; Some (search_sub [c] (h @ [0])) }"

definition malloc_block :: "nat \<Rightarrow> byte list" where
  "malloc_block n = replicate n 0"

definition realloc_block :: "byte list option \<Rightarrow> nat \<Rightarrow> byte list" where
  "realloc_block d n = (case d of None \<Rightarrow> replicate n 0 | Some b \<Rightarrow> take n b @ replicate (n - length b) 0)"

subsection \<open>State and operations\<close>

record nstring =
  st_data :: "byte list option"
  st_sz :: nat
  st_mem :: nat

definition st_new :: nstring where
  "st_new = \<lparr>st_data = Some [0], st_sz = 0, st_mem = 1\<rparr>"

definition st_clear :: "nstring \<Rightarrow> nstring" where
  "st_clear s = (case st_data s of None \<Rightarrow> s | Some d \<Rightarrow> \<lparr>st_data = None, st_sz = 0, st_mem = 0\<rparr>)"

definition st_dup :: "byte list option \<Rightarrow> nat \<Rightarrow> nstring \<Rightarrow> nstring option" where
  "st_dup str len s = do {
     let s1 = st_clear s;
     n \<leftarrow> (if len = npos then (case str of None \<Rightarrow> Some 0 | Some p \<Rightarrow> cstrlen p) else Some len);
     let d = malloc_block (n + 1);
     (case str of
        Some p \<Rightarrow> do {
          d1 \<leftarrow> memcpy d 0 p n;
          d2 \<leftarrow> store d1 n 0;
          Some (s1\<lparr>st_data := Some d2, st_sz := n, st_mem := n + 1\<rparr>)
        }
      | None \<Rightarrow> Some (s1\<lparr>st_data := Some d, st_sz := 0, st_mem := n + 1\<rparr>))
   }"

text \<open>The constructors from a pointer and from another string, and the assignments.\<close>

definition st_of :: "byte list option \<Rightarrow> nat \<Rightarrow> nstring option" where
  "st_of str len = st_dup str len \<lparr>st_data = None, st_sz = 0, st_mem = 0\<rparr>"

definition st_copy_of :: "nstring \<Rightarrow> nstring option" where
  "st_copy_of other = st_dup (st_data other) (st_sz other) \<lparr>st_data = None, st_sz = 0, st_mem = 0\<rparr>"

definition st_assign :: "nstring \<Rightarrow> nstring \<Rightarrow> nstring option" where
  "st_assign other s = st_dup (st_data other) (st_sz other) s"

definition st_assign_cstr :: "byte list option \<Rightarrow> nstring \<Rightarrow> nstring option" where
  "st_assign_cstr str s = st_dup str npos s"

definition st_valid :: "nstring \<Rightarrow> bool" where
  "st_valid s \<longleftrightarrow> st_data s \<noteq> None"

definition st_isempty :: "nstring \<Rightarrow> bool" where
  "st_isempty s \<longleftrightarrow> st_sz s = 0"

definition st_at :: "nat \<Rightarrow> nstring \<Rightarrow> byte option" where
  "st_at index s =
     (if index < st_sz s then do { d \<leftarrow> st_data s; load d index } else Some 0)"

definition st_setSize :: "nat \<Rightarrow> nstring \<Rightarrow> nstring" where
  "st_setSize len s = (if len < st_mem s then s\<lparr>st_sz := len\<rparr> else s)"

definition st_eq_cstr :: "byte list option \<Rightarrow> nstring \<Rightarrow> bool option" where
  "st_eq_cstr str s =
     (case (st_data s, str) of
        (None, None) \<Rightarrow> Some True
      | (Some d, Some p) \<Rightarrow> strcmp_eq d p
      | _ \<Rightarrow> Some False)"

definition st_eq :: "nstring \<Rightarrow> nstring \<Rightarrow> bool option" where
  "st_eq other s = st_eq_cstr (st_data other) s"

definition st_push_back :: "byte \<Rightarrow> nstring \<Rightarrow> nstring option" where
  "st_push_back c s = do {
     let newSize = st_sz s + 2;
     let tmp = realloc_block (st_data s) newSize;
     tmp1 \<leftarrow> store tmp (st_sz s) c;
     tmp2 \<leftarrow> store tmp1 (st_sz s + 1) 0;
     Some (s\<lparr>st_data := Some tmp2, st_sz := st_sz s + 1, st_mem := newSize\<rparr>)
   }"

definition st_take_front :: "nstring \<Rightarrow> (byte \<times> nstring) option" where
  "st_take_front s =
     (if 0 < st_sz s
      then do {
        d \<leftarrow> st_data s;
        ret \<leftarrow> load d 0;
        let s1 = s\<lparr>st_sz := st_sz s - 1\<rparr>;
        if st_sz s1 = 0 then Some (ret, st_clear s1)
        else do {
          m \<leftarrow> memread d 1 (st_sz s1);
          d1 \<leftarrow> memcpy d 0 m (st_sz s1);
          d2 \<leftarrow> store d1 (st_sz s1) 0;
          Some (ret, s1\<lparr>st_data := Some d2\<rparr>)
        }
      }
      else Some (0, s))"

definition st_find :: "byte list option \<Rightarrow> nstring \<Rightarrow> nat option" where
  "st_find str s =
     (case (st_data s, str) of
        (Some d, Some p) \<Rightarrow> map_option (\<lambda>r. case r of None \<Rightarrow> npos | Some i \<Rightarrow> i) (strstr d p)
      | _ \<Rightarrow> Some npos)"

definition st_find_char :: "byte \<Rightarrow> nstring \<Rightarrow> nat option" where
  "st_find_char c s =
     (case st_data s of
        Some d \<Rightarrow> map_option (\<lambda>r. case r of None \<Rightarrow> npos | Some i \<Rightarrow> i) (strchr d c)
      | None \<Rightarrow> Some npos)"

definition st_substr :: "nat \<Rightarrow> nat \<Rightarrow> nstring \<Rightarrow> nstring option" where
  "st_substr pos len s =
     (if st_sz s \<le> pos then Some st_new
      else do {
        let len1 = (if st_sz s < (pos + len) mod size_t_mod then st_sz s - pos else len);
        d \<leftarrow> st_data s;
        st_of (Some (drop pos d)) len1
      })"

definition st_append_cstr :: "byte list option \<Rightarrow> nat \<Rightarrow> nstring \<Rightarrow> nstring option" where
  "st_append_cstr str len0 s = do {
     len \<leftarrow> (if len0 = npos then (case str of Some p \<Rightarrow> cstrlen p | None \<Rightarrow> Some 0) else Some len0);
     if len = 0 then Some s
     else do {
       let grow = st_mem s < st_sz s + len + 1;
       let mem_incr = (if grow then st_sz s + len + 1 - st_mem s else 0);
       tmp \<leftarrow> (if grow then Some (realloc_block (st_data s) (st_sz s + len + 1)) else st_data s);
       (case str of
          Some p \<Rightarrow> do {
            tmp1 \<leftarrow> memcpy tmp (st_sz s) p len;
            tmp2 \<leftarrow> store tmp1 (st_sz s + len) 0;
            Some (s\<lparr>st_data := Some tmp2, st_sz := st_sz s + len, st_mem := st_mem s + mem_incr\<rparr>)
          }
        | None \<Rightarrow> do {
            tmp1 \<leftarrow> memcpy tmp (st_sz s) (replicate len 0) len;
            Some (s\<lparr>st_data := Some tmp1, st_mem := st_mem s + mem_incr\<rparr>)
          })
     }
   }"

definition st_append :: "nstring \<Rightarrow> nstring \<Rightarrow> nstring option" where
  "st_append other s = st_append_cstr (st_data other) (st_sz other) s"

definition st_new_list :: "nstring useq" where
  "st_new_list = \<lparr>sq_items = [], sq_invalid = st_new\<rparr>"

text \<open>
  \<open>split\<close>: the body of the loop over the characters, shared by the two overloads, which differ in
  the test for a separator; the state is the list of pieces and \<open>last_pos\<close>.
\<close>

definition st_split_step ::
  "(byte \<Rightarrow> bool) \<Rightarrow> bool \<Rightarrow> nstring \<Rightarrow> nat \<Rightarrow> nstring useq \<times> nat \<Rightarrow> (nstring useq \<times> nat) option" where
  "st_split_step is_sep keep s i = (\<lambda>(ret, last_pos). do {
     d \<leftarrow> st_data s;
     c \<leftarrow> load d i;
     if is_sep c
     then do {
       (ret1, last1) \<leftarrow>
         (if last_pos < i
          then map_option (\<lambda>t. (sq_append t ret, i)) (st_substr last_pos (i - last_pos) s)
          else Some (ret, last_pos));
       ret2 \<leftarrow>
         (if keep then map_option (\<lambda>t. sq_append t ret1) (st_substr last1 1 s) else Some ret1);
       Some (ret2, last1 + 1)
     }
     else Some (ret, last_pos)
   })"

fun st_split_loop ::
  "(byte \<Rightarrow> bool) \<Rightarrow> bool \<Rightarrow> nstring \<Rightarrow> nat list \<Rightarrow> nstring useq \<times> nat \<Rightarrow> (nstring useq \<times> nat) option" where
  "st_split_loop is_sep keep s [] st = Some st"
| "st_split_loop is_sep keep s (i # is) st =
     do { st1 \<leftarrow> st_split_step is_sep keep s i st; st_split_loop is_sep keep s is st1 }"

definition st_split_all :: "(byte \<Rightarrow> bool) \<Rightarrow> bool \<Rightarrow> nstring \<Rightarrow> nstring useq option" where
  "st_split_all is_sep keep s = do {
     (ret, last_pos) \<leftarrow> st_split_loop is_sep keep s [0..<st_sz s] (st_new_list, 0);
     if 0 < last_pos \<and> last_pos < st_sz s
     then map_option (\<lambda>t. sq_append t ret) (st_substr last_pos npos s)
     else Some ret
   }"

definition st_split_default :: "nstring \<Rightarrow> nstring useq \<Rightarrow> nstring useq option" where
  "st_split_default s ret =
     (if sq_items ret = [] then map_option (\<lambda>t. sq_append t ret) (st_substr 0 npos s) else Some ret)"

definition st_split_char :: "byte \<Rightarrow> bool \<Rightarrow> nstring \<Rightarrow> nstring useq option" where
  "st_split_char sep keep s =
     do { ret \<leftarrow> st_split_all (\<lambda>c. c = sep) keep s; st_split_default s ret }"

definition st_split :: "byte list option \<Rightarrow> bool \<Rightarrow> nstring \<Rightarrow> nstring useq option" where
  "st_split sep keep s = do {
     ret \<leftarrow> (case sep of None \<Rightarrow> Some st_new_list
             | Some p \<Rightarrow> do {
                 seps \<leftarrow> cstr p;
                 if 0 < length seps then st_split_all (\<lambda>c. c \<in> set seps) keep s else Some st_new_list
               });
     st_split_default s ret
   }"

definition c_tolower :: "byte \<Rightarrow> byte" where
  "c_tolower c = (if 65 \<le> c \<and> c \<le> 90 then c + 32 else c)"

text \<open>The loops that push one byte after the other.\<close>

fun st_push_all :: "byte list \<Rightarrow> nstring \<Rightarrow> nstring option" where
  "st_push_all [] ret = Some ret"
| "st_push_all (c # cs) ret = do { ret1 \<leftarrow> st_push_back c ret; st_push_all cs ret1 }"

fun st_map_loop :: "(byte \<Rightarrow> byte list) \<Rightarrow> nstring \<Rightarrow> nat list \<Rightarrow> nstring \<Rightarrow> nstring option" where
  "st_map_loop f s [] ret = Some ret"
| "st_map_loop f s (i # is) ret = do {
     d \<leftarrow> st_data s;
     c \<leftarrow> load d i;
     ret1 \<leftarrow> st_push_all (f c) ret;
     st_map_loop f s is ret1
   }"

definition st_toLower :: "nstring \<Rightarrow> nstring option" where
  "st_toLower s = st_map_loop (\<lambda>c. [c_tolower c]) s [0..<st_sz s] st_new"

definition st_toHex :: "nstring \<Rightarrow> nstring option" where
  "st_toHex s =
     st_map_loop (\<lambda>c. [c2h (and (drop_bit 4 c) 15), c2h (and c 15)]) s [0..<st_sz s] st_new"

fun st_fromHex_loop :: "byte list \<Rightarrow> nstring \<Rightarrow> nstring option" where
  "st_fromHex_loop [] ret = Some ret"
| "st_fromHex_loop [a] ret = st_push_back (push_bit 4 (h2c a)) ret"
| "st_fromHex_loop (a # b # hex) ret =
     do { ret1 \<leftarrow> st_push_back (or (push_bit 4 (h2c a)) (h2c b)) ret; st_fromHex_loop hex ret1 }"

definition st_fromHex :: "byte list \<Rightarrow> nstring option" where
  "st_fromHex hex = do { h \<leftarrow> cstr hex; st_fromHex_loop h st_new }"

fun st_join_loop :: "nstring useq \<Rightarrow> nat list \<Rightarrow> nstring \<Rightarrow> nstring option" where
  "st_join_loop list [] ret = Some ret"
| "st_join_loop list (i # is) ret =
     do { ret1 \<leftarrow> st_append (sq_at (int i) list) ret; st_join_loop list is ret1 }"

definition st_join :: "nstring useq \<Rightarrow> nat \<Rightarrow> nat \<Rightarrow> nstring option" where
  "st_join list pos len =
     st_join_loop list [pos..<(if len = npos then nat (sq_count list) else len)] st_new"

definition st_compareNoCase :: "byte list option \<Rightarrow> nstring \<Rightarrow> bool option" where
  "st_compareNoCase str s =
     (case str of
        Some p \<Rightarrow>
          (if st_valid s
           then do {
             t \<leftarrow> st_of (Some p) npos;
             tl \<leftarrow> st_toLower t;
             sl \<leftarrow> st_toLower s;
             d \<leftarrow> st_data tl;
             e \<leftarrow> st_data sl;
             strcmp_eq d e
           }
           else Some False)
      | None \<Rightarrow> Some (st_sz s = 0))"

text \<open>\<open>copy(dest, len)\<close>: the number of bytes copied and the destination object afterwards.\<close>

definition st_copy :: "byte list option \<Rightarrow> nat \<Rightarrow> nstring \<Rightarrow> (nat \<times> byte list option) option" where
  "st_copy dest len s =
     (case dest of
        None \<Rightarrow> Some (0, None)
      | Some buf \<Rightarrow>
          (if 0 < len
           then do {
             let n = min len (st_sz s);
             src \<leftarrow> (if 0 < n then st_data s else Some []);
             b1 \<leftarrow> memcpy buf 0 src n;
             b2 \<leftarrow> store b1 n 0;
             Some (n, Some b2)
           }
           else Some (0, Some buf)))"

fun st_check_loop :: "nstring \<Rightarrow> nat list \<Rightarrow> bool option" where
  "st_check_loop s [] = Some True"
| "st_check_loop s (i # is) = do {
     d \<leftarrow> st_data s;
     c \<leftarrow> load d i;
     if sint c < 32 \<or> 126 < sint c then Some False else st_check_loop s is
   }"

definition st_check7bit :: "nstring \<Rightarrow> bool option" where
  "st_check7bit s = st_check_loop s [0..<st_sz s]"

text \<open>
  \<open>strip\<close>: the first loop counts the leading characters, the second walks down from the last one.
  Its condition \<open>i >= 0\<close> always holds for the unsigned \<open>i\<close>, so after index 0 it reads \<open>data[i]\<close>
  at the wrapped index, far outside the block.
\<close>

fun st_strip_front :: "byte \<Rightarrow> byte list \<Rightarrow> nat \<Rightarrow> nat \<Rightarrow> nat \<Rightarrow> nat \<Rightarrow> (nat \<times> nat) option" where
  "st_strip_front c d 0 i pos len = Some (pos, len)"
| "st_strip_front c d (Suc k) i pos len = do {
     x \<leftarrow> load d i;
     if c = x then st_strip_front c d k (i + 1) (pos + 1) ((len + size_t_mod - 1) mod size_t_mod)
     else Some (pos, len)
   }"

fun st_strip_back :: "byte \<Rightarrow> byte list \<Rightarrow> nat \<Rightarrow> nat \<Rightarrow> nat option" where
  "st_strip_back c d 0 len = do {
     x \<leftarrow> load d 0;
     if c = x then None else Some len
   }"
| "st_strip_back c d (Suc i) len = do {
     x \<leftarrow> load d (Suc i);
     if c = x then st_strip_back c d i ((len + size_t_mod - 1) mod size_t_mod) else Some len
   }"

definition st_strip :: "byte \<Rightarrow> nstring \<Rightarrow> nstring option" where
  "st_strip c s =
     (if 0 < st_sz s
      then do {
        d \<leftarrow> st_data s;
        (pos, len) \<leftarrow> st_strip_front c d (st_sz s) 0 0 (st_sz s);
        len1 \<leftarrow> st_strip_back c d (st_sz s - 1) len;
        st_substr pos len1 s
      }
      else st_substr 0 (st_sz s) s)"


subsection \<open>The text of a string\<close>

text \<open>
  \<open>st_rep s xs\<close>: the block holds the text \<open>xs\<close> followed by a zero byte (which may be followed by
  spare bytes), or there is no block and no text.
\<close>

definition st_block :: "nstring \<Rightarrow> byte list \<Rightarrow> bool" where
  "st_block s xs \<longleftrightarrow> st_sz s = length xs \<and>
     (\<exists>rest. st_data s = Some (xs @ 0 # rest) \<and> st_mem s = length xs + 1 + length rest)"

definition st_rep :: "nstring \<Rightarrow> byte list \<Rightarrow> bool" where
  "st_rep s xs \<longleftrightarrow> st_block s xs \<or> (st_data s = None \<and> st_sz s = 0 \<and> st_mem s = 0 \<and> xs = [])"

lemma st_rep_cases:
  assumes "st_rep s xs"
  obtains (block) rest where "st_data s = Some (xs @ 0 # rest)" "st_mem s = length xs + 1 + length rest"
      "st_sz s = length xs"
  | (null) "st_data s = None" "st_sz s = 0" "st_mem s = 0" "xs = []"
  using assms by (auto simp: st_rep_def st_block_def)

lemma st_block_rep: "st_block s xs \<Longrightarrow> st_rep s xs"
  by (simp add: st_rep_def)

lemma st_rep_sz: "st_rep s xs \<Longrightarrow> st_sz s = length xs"
  by (auto simp: st_rep_def st_block_def)

lemma st_rep_nonempty: "st_rep s xs \<Longrightarrow> xs \<noteq> [] \<Longrightarrow> st_block s xs"
  by (auto simp: st_rep_def)

lemma st_new_block: "st_block st_new []"
  by (simp add: st_block_def st_new_def)

lemma st_rep_at: "st_rep s xs \<Longrightarrow> i < length xs \<Longrightarrow> st_at i s = Some (xs ! i)"
  by (auto elim!: st_rep_cases simp: st_at_def load_def nth_append)

lemma cstrlen_text: "0 \<notin> set xs \<Longrightarrow> cstrlen (xs @ 0 # rest) = Some (length xs)"
  by (induction xs) auto

lemma cstrlen_Some: "cstrlen p = Some n \<Longrightarrow> n < length p \<and> p ! n = 0 \<and> 0 \<notin> set (take n p)"
proof (induction p arbitrary: n)
  case (Cons c cs)
  then show ?case by (cases n) (auto split: if_splits)
qed simp

lemma cstr_text: "0 \<notin> set xs \<Longrightarrow> cstr (xs @ 0 # rest) = Some xs"
  by (simp add: cstr_def cstrlen_text)

lemma cstr_takeWhile: "cstr (xs @ 0 # rest) = Some (takeWhile (\<lambda>c. c \<noteq> 0) xs)"
  by (induction xs) (auto simp: cstr_def split: option.splits)

lemma strcmp_eq_text:
  "0 \<notin> set xs \<Longrightarrow> 0 \<notin> set ys \<Longrightarrow> strcmp_eq (xs @ 0 # r1) (ys @ 0 # r2) = Some (xs = ys)"
proof (induction xs arbitrary: ys)
  case Nil
  then show ?case by (cases ys) auto
next
  case (Cons x xs)
  then show ?case by (cases ys) auto
qed

lemma st_dup_len:
  "n \<noteq> npos \<Longrightarrow> n \<le> length p \<Longrightarrow> \<exists>s'. st_dup (Some p) n s = Some s' \<and> st_block s' (take n p)"
  by (auto simp: st_dup_def malloc_block_def memcpy_in_range store_def st_block_def min_def
      list_update_append drop_update_first Suc_diff_le)

lemma st_dup_npos:
  assumes "cstr p = Some xs"
  shows "\<exists>s'. st_dup (Some p) npos s = Some s' \<and> st_block s' xs"
proof -
  obtain n where n: "cstrlen p = Some n" "xs = take n p" using assms by (auto simp: cstr_def)
  with cstrlen_Some [OF n(1)] show ?thesis
    by (auto simp: st_dup_def malloc_block_def memcpy_in_range store_def st_block_def list_update_append drop_update_first)
qed

lemma st_of_rep: "n \<noteq> npos \<Longrightarrow> n \<le> length p \<Longrightarrow> \<exists>s'. st_of (Some p) n = Some s' \<and> st_block s' (take n p)"
  by (simp add: st_of_def st_dup_len)

lemma st_assign_rep:
  assumes "st_rep other xs" and "length xs < npos"
  shows "\<exists>s'. st_assign other s = Some s' \<and> st_block s' xs"
  using assms(1)
proof (cases rule: st_rep_cases)
  case (block rest)
  then show ?thesis using st_dup_len [of "length xs" "xs @ 0 # rest" s] assms(2) by (simp add: st_assign_def)
next
  case null
  then show ?thesis by (auto simp: st_assign_def st_dup_def st_block_def malloc_block_def npos_def size_t_mod_def)
qed

lemma st_push_back_rep:
  assumes "st_rep s xs"
  shows "\<exists>s'. st_push_back c s = Some s' \<and> st_block s' (xs @ [c])"
  using assms
proof (cases rule: st_rep_cases)
  case (block rest)
  then show ?thesis
    by (cases rest) (auto simp: st_push_back_def realloc_block_def store_def st_block_def list_update_append drop_update_first)
next
  case null
  then show ?thesis
    by (auto simp: st_push_back_def realloc_block_def store_def st_block_def numeral_2_eq_2)
qed

lemma st_push_all_rep:
  "st_rep s xs \<Longrightarrow> \<exists>s'. st_push_all cs s = Some s' \<and> st_rep s' (xs @ cs) \<and> (st_block s xs \<longrightarrow> st_block s' (xs @ cs))"
proof (induction cs arbitrary: s xs)
  case Nil
  then show ?case by simp
next
  case (Cons c cs)
  obtain s1 where "st_push_back c s = Some s1" "st_block s1 (xs @ [c])"
    using st_push_back_rep [OF Cons.prems] by blast
  with Cons.IH [of s1 "xs @ [c]"] show ?case by (auto intro: st_block_rep)
qed

lemma st_take_front_rep:
  assumes "st_rep s (x # xs)"
  shows "\<exists>s'. st_take_front s = Some (x, s') \<and> st_rep s' xs \<and> (xs = [] \<longrightarrow> \<not> st_valid s')"
  using assms
proof (cases rule: st_rep_cases)
  case (block rest)
  show ?thesis
  proof (cases "xs = []")
    case True
    with block show ?thesis by (simp add: st_take_front_def load_def st_clear_def st_rep_def st_valid_def)
  next
    case False
    with block show ?thesis
      by (simp add: st_take_front_def load_def memread_in_range memcpy_in_range store_def st_rep_def st_block_def
          list_update_append drop_update_first)
  qed
qed simp

lemma st_take_front_nil: "st_rep s [] \<Longrightarrow> st_take_front s = Some (0, s)"
  by (auto elim!: st_rep_cases simp: st_take_front_def)

lemma st_append_cstr_rep:
  assumes s: "st_rep s xs" and "n \<noteq> npos" and "n \<le> length p"
  shows "\<exists>s'. st_append_cstr (Some p) n s = Some s' \<and> st_rep s' (xs @ take n p)"
proof (cases "n = 0")
  case True
  with s show ?thesis by (simp add: st_append_cstr_def npos_def size_t_mod_def)
next
  case False
  from s show ?thesis
  proof (cases rule: st_rep_cases)
    case (block rest)
    show ?thesis
    proof (cases "length rest < n")
      case True
      with block False assms(2,3) show ?thesis
        by (simp add: st_append_cstr_def realloc_block_def memcpy_in_range store_def st_rep_def st_block_def
            list_update_append drop_update_first)
    next
      case fit: False
      then obtain r1 r2 where r: "rest = r1 @ r2" "length r1 = n"
        by (metis append_take_drop_id length_take linorder_not_less min.absorb2)
      with block False assms(2,3) show ?thesis
        by (auto simp: st_append_cstr_def memcpy_in_range store_def st_rep_def st_block_def
            list_update_append drop_update_first drop_Cons' split: nat.splits)
    qed
  next
    case null
    with False assms(2,3) show ?thesis
      by (simp add: st_append_cstr_def realloc_block_def memcpy_in_range store_def st_rep_def st_block_def
            list_update_append drop_update_first)
  qed
qed


lemma st_substr_len:
  assumes s: "st_rep s xs" and "pos + len < npos"
  shows "\<exists>s'. st_substr pos len s = Some s' \<and> st_rep s' (take len (drop pos xs))"
  using s
proof (cases rule: st_rep_cases)
  case (block rest)
  have w: "(pos + len) mod size_t_mod = pos + len" using assms(2) by (simp add: npos_def)
  show ?thesis
  proof (cases "length xs \<le> pos")
    case True
    with block show ?thesis by (simp add: st_substr_def st_block_rep st_new_block)
  next
    case False
    let ?len = "if length xs < pos + len then length xs - pos else len"
    have "?len \<noteq> npos" "?len \<le> length (drop pos (xs @ 0 # rest))" using False assms(2) by auto
    from st_of_rep [OF this] obtain s' where
      "st_of (Some (drop pos (xs @ 0 # rest))) ?len = Some s'" "st_block s' (take ?len (drop pos (xs @ 0 # rest)))"
      by blast
    moreover have "take ?len (drop pos (xs @ 0 # rest)) = take len (drop pos xs)" using False by auto
    ultimately show ?thesis using block False w by (simp add: st_substr_def st_block_rep split: if_splits)
  qed
next
  case null
  then show ?thesis by (simp add: st_substr_def st_block_rep st_new_block)
qed

lemma npos_wrap: "0 < pos \<Longrightarrow> pos < npos \<Longrightarrow> (pos + npos) mod size_t_mod = pos - 1"
proof -
  assume "0 < pos" "pos < npos"
  then have "pos + npos = (pos - 1) + size_t_mod" "pos - 1 < size_t_mod" by (auto simp: npos_def size_t_mod_def)
  then show ?thesis by (metis mod_add_self2 mod_less)
qed

text \<open>
  The default length: from position 0 the whole text, from a later position the sum wraps and
  the copy runs to the next zero byte.
\<close>

lemma st_substr_npos_0:
  assumes s: "st_rep s xs" and "length xs < npos"
  shows "\<exists>s'. st_substr 0 npos s = Some s' \<and> st_rep s' xs"
  using s
proof (cases rule: st_rep_cases)
  case (block rest)
  then show ?thesis using st_of_rep [of "length xs" "xs @ 0 # rest"] assms(2)
    by (cases "xs = []") (auto simp: st_substr_def st_new_block npos_def intro: st_block_rep)
next
  case null
  then show ?thesis by (simp add: st_substr_def st_block_rep st_new_block)
qed

lemma st_substr_npos:
  assumes s: "st_rep s xs" and "length xs < npos" and "0 < pos" and "0 \<notin> set xs"
  shows "\<exists>s'. st_substr pos npos s = Some s' \<and> st_rep s' (drop pos xs)"
proof (cases "length xs \<le> pos")
  case True
  then show ?thesis using st_rep_sz [OF s] by (simp add: st_substr_def st_block_rep st_new_block)
next
  case False
  with s obtain rest where r: "st_data s = Some (xs @ 0 # rest)" "st_sz s = length xs"
    by (auto elim: st_rep_cases)
  have w: "(pos + npos) mod size_t_mod = pos - 1" using npos_wrap False assms(2,3) by simp
  have "0 \<notin> set (drop pos xs)" using assms(4) by (meson in_set_dropD)
  then have "cstr (drop pos (xs @ 0 # rest)) = Some (drop pos xs)" using False by (simp add: cstr_text)
  from st_dup_npos [OF this, folded st_of_def] obtain s' where
    s': "st_of (Some (drop pos (xs @ 0 # rest))) npos = Some s'" "st_block s' (drop pos xs)"
    unfolding st_of_def by blast
  have "st_substr pos npos s = st_of (Some (drop pos (xs @ 0 # rest))) npos"
  proof -
    have "\<not> length xs < pos - 1" using False by arith
    then show ?thesis unfolding st_substr_def w Let_def using r False by simp
  qed
  with s' show ?thesis by (auto intro: st_block_rep)
qed

subsection \<open>Comparison and search\<close>

lemma st_eq_rep:
  assumes "st_block s xs" and "st_block t ys" and "0 \<notin> set xs" and "0 \<notin> set ys"
  shows "st_eq t s = Some (xs = ys)"
  using assms by (auto simp: st_block_def st_eq_def st_eq_cstr_def strcmp_eq_text)

lemma is_prefix_iff: "is_prefix p xs \<longleftrightarrow> (\<exists>ys. xs = p @ ys)"
  by (induction p xs rule: is_prefix.induct) auto

lemma search_sub_Some:
  "search_sub p xs = Some i \<Longrightarrow>
   i \<le> length xs \<and> is_prefix p (drop i xs) \<and> (\<forall>j < i. \<not> is_prefix p (drop j xs))"
proof (induction xs arbitrary: i)
  case Nil
  then show ?case by (auto split: if_splits)
next
  case (Cons x xs)
  show ?case
  proof (cases "is_prefix p (x # xs)")
    case True
    with Cons.prems show ?thesis by simp
  next
    case False
    with Cons.prems obtain k where k: "search_sub p xs = Some k" "i = Suc k" by auto
    have "\<not> is_prefix p (drop j (x # xs))" if "j < Suc k" for j
      using that Cons.IH [OF k(1)] False by (cases j) auto
    with Cons.IH [OF k(1)] k(2) show ?thesis by simp
  qed
qed

lemma search_sub_None:
  "search_sub p xs = None \<Longrightarrow> j \<le> length xs \<Longrightarrow> \<not> is_prefix p (drop j xs)"
proof (induction xs arbitrary: j)
  case Nil
  then show ?case by (cases p) (auto split: if_splits)
next
  case (Cons x xs)
  then show ?case by (cases j) (auto split: if_splits)
qed

lemma st_find_rep:
  assumes "st_block s xs" and "0 \<notin> set xs" and "cstr p = Some pat"
  shows "st_find (Some p) s = Some (case search_sub pat xs of None \<Rightarrow> npos | Some i \<Rightarrow> i)"
  using assms by (auto simp: st_block_def st_find_def strstr_def cstr_text)

lemma search_sub_single_append: "c \<notin> set ys \<Longrightarrow> search_sub [c] (xs @ ys) = search_sub [c] xs"
  by (induction xs) (auto, induction ys, auto)

lemma search_sub_single_None: "search_sub [c] xs = None \<longleftrightarrow> c \<notin> set xs"
  by (induction xs) (auto split: option.splits)

lemma st_find_char_rep:
  assumes "st_block s xs" and "0 \<notin> set xs" and "c \<noteq> 0"
  shows "st_find_char c s = Some (case search_sub [c] xs of None \<Rightarrow> npos | Some i \<Rightarrow> i)"
  using assms by (auto simp: st_block_def st_find_char_def strchr_def cstr_text search_sub_single_append)

subsection \<open>Splitting\<close>

text \<open>
  The pieces a scan from left to right cuts: \<open>cur\<close> is the text since the last cut, empty pieces
  are dropped, separators are pieces of their own when they are kept.
\<close>

definition nonempty_piece :: "byte list \<Rightarrow> byte list list" where
  "nonempty_piece xs = (if xs = [] then [] else [xs])"

fun pieces :: "bool \<Rightarrow> (byte \<Rightarrow> bool) \<Rightarrow> byte list \<Rightarrow> byte list \<Rightarrow> byte list list" where
  "pieces keep sep cur [] = nonempty_piece cur"
| "pieces keep sep cur (x # xs) =
     (if sep x then nonempty_piece cur @ (if keep then [[x]] else []) @ pieces keep sep [] xs
      else pieces keep sep (cur @ [x]) xs)"

definition split_spec :: "bool \<Rightarrow> (byte \<Rightarrow> bool) \<Rightarrow> byte list \<Rightarrow> byte list list" where
  "split_spec keep sep xs = (if pieces keep sep [] xs = [] then [xs] else pieces keep sep [] xs)"

definition st_list_rep :: "nstring useq \<Rightarrow> byte list list \<Rightarrow> bool" where
  "st_list_rep q ts \<longleftrightarrow> list_all2 st_rep (sq_items q) ts"

lemma st_list_rep_new: "st_list_rep st_new_list []"
  by (simp add: st_list_rep_def st_new_list_def)

lemma st_list_rep_append: "st_list_rep q ts \<Longrightarrow> st_rep s t \<Longrightarrow> st_list_rep (sq_append s q) (ts @ [t])"
  by (simp add: st_list_rep_def sq_append_def list_all2_appendI)

lemma st_list_rep_empty: "st_list_rep q ts \<Longrightarrow> sq_items q = [] \<longleftrightarrow> ts = []"
  by (auto simp: st_list_rep_def)

text \<open>One step of the loop, at a character that is a separator and at another one.\<close>

lemma split_step_other:
  assumes "st_rep s (ys @ z # zs)" and "\<not> sep z"
  shows "st_split_step sep keep s (length ys) (ret, lst) = Some (ret, lst)"
  using assms(1)
  by (rule st_rep_cases) (use assms(2) in \<open>auto simp: st_split_step_def load_def nth_append\<close>)

lemma split_step_sep:
  assumes s: "st_rep s (ys @ z # zs)" and z: "sep z" and bound: "length (ys @ z # zs) < npos"
    and lst: "lst \<le> length ys" and ret: "st_list_rep ret ts"
  shows "\<exists>ret'. st_split_step sep keep s (length ys) (ret, lst) = Some (ret', Suc (length ys))
    \<and> st_list_rep ret' (ts @ nonempty_piece (drop lst ys) @ (if keep then [[z]] else []))"
proof -
  obtain rest where d: "st_data s = Some ((ys @ z # zs) @ 0 # rest)"
    using s by (auto elim: st_rep_cases)
  have ld: "load ((ys @ z # zs) @ 0 # rest) (length ys) = Some z" by (simp add: load_def nth_append)
  obtain ret1 where ret1:
    "(if lst < length ys then map_option (\<lambda>t. (sq_append t ret, length ys)) (st_substr lst (length ys - lst) s)
      else Some (ret, lst)) = Some (ret1, length ys)"
    "st_list_rep ret1 (ts @ nonempty_piece (drop lst ys))"
  proof (cases "lst < length ys")
    case True
    obtain t where t: "st_substr lst (length ys - lst) s = Some t"
        "st_rep t (take (length ys - lst) (drop lst (ys @ z # zs)))"
      using st_substr_len [OF s, of lst "length ys - lst"] bound True by auto
    moreover have "take (length ys - lst) (drop lst (ys @ z # zs)) = drop lst ys" using True by simp
    ultimately have "st_list_rep (sq_append t ret) (ts @ nonempty_piece (drop lst ys))"
      using st_list_rep_append [OF ret] True by (simp add: nonempty_piece_def)
    with t True that show ?thesis by simp
  next
    case False
    with lst ret that show ?thesis by (simp add: nonempty_piece_def)
  qed
  show ?thesis
  proof (cases keep)
    case True
    obtain t where t: "st_substr (length ys) 1 s = Some t" "st_rep t [z]"
      using st_substr_len [OF s, of "length ys" 1] bound by auto
    from st_list_rep_append [OF ret1(2) t(2)] True t ret1(1) d ld z show ?thesis
      by (simp add: st_split_step_def)
  next
    case False
    with ret1 d ld z show ?thesis by (simp add: st_split_step_def)
  qed
qed

lemma split_loop_rep:
  assumes "st_rep s (ys @ zs)" and "length (ys @ zs) < npos"
    and "lst \<le> length ys" and "st_list_rep ret ts"
  shows "\<exists>ret' lst' ts'. st_split_loop sep keep s [length ys..<length (ys @ zs)] (ret, lst) = Some (ret', lst')
    \<and> lst \<le> lst' \<and> lst' \<le> length (ys @ zs) \<and> st_list_rep ret' (ts @ ts') \<and> (lst' = 0 \<longrightarrow> ts' = [])
    \<and> ts' @ nonempty_piece (drop lst' (ys @ zs)) = pieces keep sep (drop lst ys) zs"
  using assms
proof (induction zs arbitrary: ys ret lst ts)
  case Nil
  then show ?case by (intro exI [of _ ret] exI [of _ lst] exI [of _ "[]"]) simp
next
  case (Cons z zs)
  have idx: "[length ys..<length (ys @ z # zs)] = length ys # [length (ys @ [z])..<length ((ys @ [z]) @ zs)]"
    by (simp add: upt_rec)
  have s1: "st_rep s ((ys @ [z]) @ zs)" "length ((ys @ [z]) @ zs) < npos" using Cons.prems by simp_all
  show ?case
  proof (cases "sep z")
    case True
    from split_step_sep [where sep = sep, OF Cons.prems(1) True Cons.prems(2-4), of keep] obtain ret1 where ret1:
      "st_split_step sep keep s (length ys) (ret, lst) = Some (ret1, Suc (length ys))"
      "st_list_rep ret1 (ts @ nonempty_piece (drop lst ys) @ (if keep then [[z]] else []))"
      by blast
    from Cons.IH [OF s1 _ ret1(2), of "Suc (length ys)"] obtain ret' lst' ts' where IH:
      "st_split_loop sep keep s [length (ys @ [z])..<length ((ys @ [z]) @ zs)] (ret1, Suc (length ys)) = Some (ret', lst')"
      "Suc (length ys) \<le> lst'" "lst' \<le> length ((ys @ [z]) @ zs)"
      "st_list_rep ret' ((ts @ nonempty_piece (drop lst ys) @ (if keep then [[z]] else [])) @ ts')"
      "lst' = 0 \<longrightarrow> ts' = []"
      "ts' @ nonempty_piece (drop lst' ((ys @ [z]) @ zs)) = pieces keep sep [] zs"
      by auto
    have pos: "lst' \<noteq> 0" "lst \<le> lst'" using IH(2) Cons.prems(3) by simp_all
    show ?thesis
      using IH ret1(1) True pos unfolding idx
      by (intro exI [of _ ret'] exI [of _ lst']
          exI [of _ "nonempty_piece (drop lst ys) @ (if keep then [[z]] else []) @ ts'"]) simp
  next
    case False
    have l: "lst \<le> length (ys @ [z])" using Cons.prems(3) by simp
    from Cons.IH [OF s1 l Cons.prems(4)] split_step_other [where sep = sep, OF Cons.prems(1) False, of keep ret lst] False
    show ?thesis unfolding idx using Cons.prems(3) by simp
  qed
qed

lemma split_all_rep:
  assumes s: "st_rep s xs" and bound: "length xs < npos" and nz: "0 \<notin> set xs"
  shows "\<exists>ret ts. st_split_all sep keep s = Some ret \<and> st_list_rep ret ts
    \<and> (ts = pieces keep sep [] xs \<or> ts = [] \<and> pieces keep sep [] xs = nonempty_piece xs)"
proof -
  obtain ret lst ts where L: "st_split_loop sep keep s [0..<length xs] (st_new_list, 0) = Some (ret, lst)"
      "lst \<le> length xs" "st_list_rep ret ts" "lst = 0 \<longrightarrow> ts = []"
      "ts @ nonempty_piece (drop lst xs) = pieces keep sep [] xs"
    using split_loop_rep [of s "[]" xs 0 st_new_list "[]" sep keep] s bound st_list_rep_new by auto
  note sz = st_rep_sz [OF s]
  consider "lst = 0" | "0 < lst" "lst < length xs" | "0 < lst" "lst = length xs" using L(2) by linarith
  then show ?thesis
  proof cases
    case 1
    with L sz show ?thesis by (auto simp: st_split_all_def)
  next
    case 2
    obtain t where t: "st_substr lst npos s = Some t" "st_rep t (drop lst xs)"
      using st_substr_npos [OF s bound 2(1) nz] by blast
    with 2 L sz st_list_rep_append [OF L(3) t(2)] show ?thesis
      by (auto simp: st_split_all_def nonempty_piece_def)
  next
    case 3
    with L sz show ?thesis by (auto simp: st_split_all_def nonempty_piece_def)
  qed
qed

lemma split_default_rep:
  assumes s: "st_rep s xs" and bound: "length xs < npos" and ret: "st_list_rep ret ts"
    and ts: "ts = pieces keep sep [] xs \<or> ts = [] \<and> pieces keep sep [] xs = nonempty_piece xs"
  shows "\<exists>ret'. st_split_default s ret = Some ret' \<and> st_list_rep ret' (split_spec keep sep xs)"
proof (cases "ts = []")
  case True
  obtain t where "st_substr 0 npos s = Some t" "st_rep t xs" using st_substr_npos_0 [OF s bound] by blast
  moreover have "split_spec keep sep xs = [xs]"
    using ts True by (auto simp: split_spec_def nonempty_piece_def)
  ultimately show ?thesis
    using True st_list_rep_append [OF ret] st_list_rep_empty [OF ret] by (simp add: st_split_default_def)
next
  case False
  then show ?thesis using ts ret st_list_rep_empty [OF ret] by (auto simp: st_split_default_def split_spec_def)
qed

lemma split_char_rep:
  assumes "st_rep s xs" and "length xs < npos" and "0 \<notin> set xs"
  shows "\<exists>ret. st_split_char sep keep s = Some ret \<and> st_list_rep ret (split_spec keep (\<lambda>c. c = sep) xs)"
proof -
  obtain ret ts where r: "st_split_all (\<lambda>c. c = sep) keep s = Some ret" "st_list_rep ret ts"
    "ts = pieces keep (\<lambda>c. c = sep) [] xs \<or> ts = [] \<and> pieces keep (\<lambda>c. c = sep) [] xs = nonempty_piece xs"
    using split_all_rep [OF assms, of "\<lambda>c. c = sep" keep] by blast
  from split_default_rep [OF assms(1,2) r(2,3)] r(1) show ?thesis by (simp add: st_split_char_def)
qed

lemma split_cstr_rep:
  assumes "st_rep s xs" and "length xs < npos" and "0 \<notin> set xs" and "cstr p = Some seps" and "seps \<noteq> []"
  shows "\<exists>ret. st_split (Some p) keep s = Some ret \<and> st_list_rep ret (split_spec keep (\<lambda>c. c \<in> set seps) xs)"
proof -
  let ?sep = "\<lambda>c. c \<in> set seps"
  obtain ret ts where r: "st_split_all ?sep keep s = Some ret" "st_list_rep ret ts"
    "ts = pieces keep ?sep [] xs \<or> ts = [] \<and> pieces keep ?sep [] xs = nonempty_piece xs"
    using split_all_rep [OF assms(1-3), of ?sep keep] by blast
  from split_default_rep [OF assms(1,2) r(2,3)] r(1) assms(4,5) show ?thesis by (simp add: st_split_def)
qed

lemma concat_pieces_keep: "concat (pieces True sep cur xs) = cur @ xs"
  by (induction xs arbitrary: cur) (auto simp: nonempty_piece_def)

lemma pieces_drop_sep:
  "list_all (\<lambda>x. \<not> sep x) cur \<Longrightarrow>
   list_all (\<lambda>t. t \<noteq> [] \<and> list_all (\<lambda>x. \<not> sep x) t) (pieces False sep cur xs)"
  by (induction xs arbitrary: cur) (auto simp: nonempty_piece_def)

lemma concat_pieces_drop:
  "list_all (\<lambda>x. \<not> sep x) cur \<Longrightarrow> concat (pieces False sep cur xs) = filter (\<lambda>x. \<not> sep x) (cur @ xs)"
  by (induction xs arbitrary: cur) (auto simp: nonempty_piece_def filter_id_conv list_all_iff)

subsection \<open>Loops that push bytes\<close>

lemma st_map_loop_rep:
  assumes "st_data s = Some (xs @ rest)"
  shows "st_block r acc \<Longrightarrow> ys @ zs = xs \<Longrightarrow>
    \<exists>r'. st_map_loop f s [length ys..<length xs] r = Some r' \<and> st_block r' (acc @ concat (map f zs))"
proof (induction zs arbitrary: ys r acc)
  case Nil
  then show ?case by auto
next
  case (Cons z zs)
  then have "load (xs @ rest) (length ys) = Some z" and lt: "length ys < length xs"
    by (auto simp: load_def nth_append)
  moreover obtain r1 where "st_push_all (f z) r = Some r1" "st_block r1 (acc @ f z)"
    using st_push_all_rep [OF st_block_rep [OF Cons.prems(1)], of "f z"] Cons.prems(1) by blast
  moreover from Cons.IH [OF this(2), of "ys @ [z]"] Cons.prems(2)
  obtain r' where "st_map_loop f s [Suc (length ys)..<length xs] r1 = Some r'"
      "st_block r' (acc @ concat (map f (z # zs)))" by auto
  ultimately show ?case using assms by (auto simp: upt_rec)
qed

lemma st_map_all_rep:
  assumes "st_rep s xs"
  shows "\<exists>r'. st_map_loop f s [0..<st_sz s] st_new = Some r' \<and> st_block r' (concat (map f xs))"
proof (cases "xs = []")
  case True
  then show ?thesis using st_rep_sz [OF assms] st_new_block by simp
next
  case False
  with assms obtain rest where "st_data s = Some (xs @ rest)" by (auto elim: st_rep_cases)
  from st_map_loop_rep [OF this st_new_block, of "[]" xs f] st_rep_sz [OF assms] show ?thesis by simp
qed

lemma st_toLower_rep: "st_rep s xs \<Longrightarrow> \<exists>r'. st_toLower s = Some r' \<and> st_block r' (map c_tolower xs)"
  using st_map_all_rep [of s xs "\<lambda>c. [c_tolower c]"] by (simp add: st_toLower_def)

definition hex_of :: "byte \<Rightarrow> byte list" where
  "hex_of c = [c2h (and (drop_bit 4 c) 15), c2h (and c 15)]"

lemma st_toHex_rep: "st_rep s xs \<Longrightarrow> \<exists>r'. st_toHex s = Some r' \<and> st_block r' (concat (map hex_of xs))"
  using st_map_all_rep [of s xs hex_of] by (simp add: st_toHex_def hex_of_def [abs_def])

lemma nibble_cases:
  fixes n :: byte
  assumes "n \<le> 15"
  shows "n \<in> {0, 1, 2, 3, 4, 5, 6, 7, 8, 9, 10, 11, 12, 13, 14, 15}"
proof -
  have "unat n \<le> 15" using assms by (simp add: word_le_nat_alt)
  then have "unat n \<in> set [0..<16]" by auto
  then have "word_of_nat (unat n) \<in> (word_of_nat :: nat \<Rightarrow> byte) ` set [0..<16]" by (rule imageI)
  then show ?thesis by (simp add: upt_rec)
qed

lemma h2c_c2h: "n \<le> 15 \<Longrightarrow> h2c (c2h n) = n \<and> c2h n \<noteq> 0"
proof -
  assume "n \<le> 15"
  from nibble_cases [OF this] show ?thesis
    by (simp only: insert_iff empty_iff) (elim disjE FalseE, simp_all only:, simp_all add: h2c_def c2h_def)
qed

lemma low_nibble_mask: "(15 :: byte) = mask 4"
  by (simp add: mask_eq_exp_minus_1)

lemma and_15_le: "and (n :: byte) 15 \<le> 15"
  by (rule word_and_le1)

lemma nibbles_join: "or (push_bit 4 (and (drop_bit 4 c) 15)) (and c 15) = (c :: byte)"
  unfolding low_nibble_mask by (rule bit_eqI) (auto simp: bit_simps)

lemma hex_of_join:
  obtains a b where "hex_of x = [a, b]" and "or (push_bit 4 (h2c a)) (h2c b) = x" and "a \<noteq> 0" and "b \<noteq> 0"
proof
  show "hex_of x = [c2h (and (drop_bit 4 x) 15), c2h (and x 15)]" by (simp add: hex_of_def)
  show "or (push_bit 4 (h2c (c2h (and (drop_bit 4 x) 15)))) (h2c (c2h (and x 15))) = x"
    by (simp only: h2c_c2h [OF and_15_le, THEN conjunct1] nibbles_join)
  show "c2h (and (drop_bit 4 x) 15) \<noteq> 0" "c2h (and x 15) \<noteq> 0"
    using h2c_c2h [OF and_15_le] by blast+
qed

lemma fromHex_loop_rep:
  "st_block r acc \<Longrightarrow>
   \<exists>r'. st_fromHex_loop (concat (map hex_of xs)) r = Some r' \<and> st_block r' (acc @ xs)"
proof (induction xs arbitrary: r acc)
  case Nil
  then show ?case by simp
next
  case (Cons x xs)
  obtain r1 where "st_push_back x r = Some r1" "st_block r1 (acc @ [x])"
    using st_push_back_rep [OF st_block_rep [OF Cons.prems]] by blast
  moreover obtain a b where "hex_of x = [a, b]" "or (push_bit 4 (h2c a)) (h2c b) = x"
    by (rule hex_of_join)
  ultimately show ?case using Cons.IH [of r1 "acc @ [x]"] by simp
qed

lemma hex_of_no_zero: "0 \<notin> set (concat (map hex_of xs))"
proof -
  have "0 \<notin> set (hex_of x)" for x using hex_of_join [of x] by (metis empty_iff empty_set insert_iff list.simps(15))
  then show ?thesis by auto
qed

subsection \<open>Stripping, comparing without case, printable text\<close>

lemma wrap_dec: "0 < n \<Longrightarrow> n < size_t_mod \<Longrightarrow> (n + size_t_mod - 1) mod size_t_mod = n - 1"
proof -
  assume a: "0 < n" "n < size_t_mod"
  then have "n + size_t_mod - 1 = (n - 1) + size_t_mod" by simp
  then show ?thesis using a by (simp only: mod_add_self2) simp
qed

lemma strip_front_rep:
  "length xs \<le> len \<Longrightarrow> len < size_t_mod \<Longrightarrow>
   st_strip_front c (ys @ xs @ rest) (length xs) (length ys) pos len =
     Some (pos + length (takeWhile ((=) c) xs), len - length (takeWhile ((=) c) xs))"
proof (induction xs arbitrary: ys pos len)
  case Nil
  then show ?case by simp
next
  case (Cons x xs)
  have ld: "load (ys @ (x # xs) @ rest) (length ys) = Some x" by (simp add: load_def nth_append)
  show ?case
  proof (cases "c = x")
    case True
    have "(len + size_t_mod - 1) mod size_t_mod = len - 1" using Cons.prems by (intro wrap_dec) auto
    moreover have "length xs \<le> len - 1" "len - 1 < size_t_mod" using Cons.prems by auto
    ultimately show ?thesis using ld True Cons.IH [of "len - 1" "ys @ [x]" "pos + 1"]
      by simp
  next
    case False
    with ld show ?thesis by simp
  qed
qed

lemma strip_back_all:
  "ys \<noteq> [] \<Longrightarrow> list_all ((=) c) ys \<Longrightarrow> st_strip_back c (ys @ rest) (length ys - 1) len = None"
proof (induction ys arbitrary: rest len rule: rev_induct)
  case Nil
  then show ?case by simp
next
  case (snoc u us)
  then have u: "c = u" by simp
  show ?case
  proof (cases us)
    case Nil
    with u show ?thesis by (simp add: load_def)
  next
    case (Cons v vs)
    have "load ((us @ [u]) @ rest) (length us) = Some u" by (simp add: load_def nth_append)
    then show ?thesis using snoc.IH [of "[u] @ rest" "(len + size_t_mod - 1) mod size_t_mod"] snoc.prems u Cons by auto
  qed
qed

lemma strip_back_rep:
  "\<not> list_all ((=) c) ys \<Longrightarrow> length (takeWhile ((=) c) (rev ys)) \<le> len \<Longrightarrow> len < size_t_mod \<Longrightarrow>
   st_strip_back c (ys @ rest) (length ys - 1) len = Some (len - length (takeWhile ((=) c) (rev ys)))"
proof (induction ys arbitrary: rest len rule: rev_induct)
  case Nil
  then show ?case by simp
next
  case (snoc u us)
  have ld: "load ((us @ [u]) @ rest) (length us) = Some u" by (simp add: load_def nth_append)
  show ?case
  proof (cases "c = u")
    case True
    then have ne: "\<not> list_all ((=) c) us" using snoc.prems(1) by simp
    then obtain k where k: "length us = Suc k" by (cases us) auto
    have "(len + size_t_mod - 1) mod size_t_mod = len - 1"
      using snoc.prems True by (intro wrap_dec) auto
    then show ?thesis using ld True k snoc.IH [OF ne, of "len - 1" "[u] @ rest"] snoc.prems by simp
  next
    case False
    with ld show ?thesis by (cases "length us") simp_all
  qed
qed

definition strip_spec :: "byte \<Rightarrow> byte list \<Rightarrow> byte list" where
  "strip_spec c xs = rev (dropWhile ((=) c) (rev (dropWhile ((=) c) xs)))"

lemma strip_spec_take:
  assumes "\<not> list_all ((=) c) xs"
  defines "n \<equiv> length (takeWhile ((=) c) xs)" and "m \<equiv> length (takeWhile ((=) c) (rev xs))"
  shows "n + m < length xs" and "take (length xs - n - m) (drop n xs) = strip_spec c xs"
proof -
  have "dropWhile ((=) c) xs \<noteq> []" using assms(1) by (auto simp: list_all_iff)
  then obtain y ys where y: "dropWhile ((=) c) xs = y # ys" by (cases "dropWhile ((=) c) xs") auto
  then have cy: "c \<noteq> y" by (metis hd_dropWhile list.discI list.sel(1))
  have xs: "xs = takeWhile ((=) c) xs @ y # ys" using y by (metis takeWhile_dropWhile_id)
  have "takeWhile ((=) c) (rev (takeWhile ((=) c) xs @ y # ys)) = takeWhile ((=) c) (rev (y # ys))"
    using cy by (simp add: takeWhile_append takeWhile_tail)
  then have m: "m = length (takeWhile ((=) c) (rev (y # ys)))" using xs by (simp add: m_def)
  have "takeWhile ((=) c) (rev (y # ys)) \<noteq> rev (y # ys)" using cy
    by (metis in_set_conv_decomp rev.simps(2) set_takeWhileD)
  then have mlt: "m < length (y # ys)"
    using m by (metis length_rev length_takeWhile_le nless_le takeWhile_eq_take take_all_iff order_refl)
  have len: "length xs = n + length (y # ys)" using xs by (metis length_append n_def)
  with mlt show "n + m < length xs" by simp
  have "drop n xs = y # ys" using xs by (metis append_eq_conv_conj n_def)
  moreover have "strip_spec c xs = rev (drop m (rev (y # ys)))"
    unfolding strip_spec_def y m by (simp only: dropWhile_eq_drop)
  moreover have "rev (drop m (rev (y # ys))) = take (length (y # ys) - m) (y # ys)"
    by (metis rev_drop rev_rev_ident length_rev)
  ultimately show "take (length xs - n - m) (drop n xs) = strip_spec c xs" using len by simp
qed

lemma st_strip_rep:
  assumes s: "st_rep s xs" and bound: "length xs < npos" and ne: "\<not> list_all ((=) c) xs"
  shows "\<exists>s'. st_strip c s = Some s' \<and> st_rep s' (strip_spec c xs)"
proof -
  have xs: "xs \<noteq> []" using ne by auto
  then obtain rest where d: "st_data s = Some (xs @ 0 # rest)" using s by (auto elim: st_rep_cases)
  note sz = st_rep_sz [OF s]
  have M: "length xs < size_t_mod" using bound by (simp add: npos_def)
  let ?n = "length (takeWhile ((=) c) xs)" and ?m = "length (takeWhile ((=) c) (rev xs))"
  note nm = strip_spec_take [OF ne]
  have "st_strip_front c (xs @ 0 # rest) (length xs) 0 0 (length xs) = Some (?n, length xs - ?n)"
    using strip_front_rep [of xs "length xs" c "[]" "0 # rest" 0] M by simp
  moreover have "st_strip_back c (xs @ 0 # rest) (length xs - 1) (length xs - ?n)
      = Some (length xs - ?n - ?m)"
    using strip_back_rep [OF ne, of "length xs - ?n"] nm(1) M by simp
  ultimately have "st_strip c s = st_substr ?n (length xs - ?n - ?m) s"
    using xs d sz by (simp add: st_strip_def)
  moreover obtain s' where "st_substr ?n (length xs - ?n - ?m) s = Some s'"
      "st_rep s' (take (length xs - ?n - ?m) (drop ?n xs))"
  proof -
    have "?n + (length xs - ?n - ?m) < npos" using nm(1) bound by linarith
    from st_substr_len [OF s this] that show ?thesis by blast
  qed
  ultimately show ?thesis using nm(2) by simp
qed

lemma st_strip_all:
  assumes s: "st_rep s xs" and "xs \<noteq> []" and "length xs < size_t_mod" and all: "list_all ((=) c) xs"
  shows "st_strip c s = None"
proof -
  obtain rest where d: "st_data s = Some (xs @ 0 # rest)" using s assms(2) by (auto elim: st_rep_cases)
  have "st_strip_front c (xs @ 0 # rest) (length xs) 0 0 (length xs) \<noteq> None"
    using strip_front_rep [of xs "length xs" c "[]" "0 # rest" 0] assms(3) by simp
  then show ?thesis
    using d st_rep_sz [OF s] assms(2) strip_back_all [OF assms(2) all] by (auto simp: st_strip_def)
qed

lemma c_tolower_0: "c_tolower c = 0 \<longleftrightarrow> c = 0"
proof (cases "65 \<le> c \<and> c \<le> 90")
  case True
  then have "unat c \<le> 90" "65 \<le> unat c" by (auto simp: word_le_nat_alt)
  then have "unat (c + 32) = unat c + 32" by (simp add: unat_word_ariths)
  then show ?thesis using True by (auto simp: c_tolower_def)
next
  case False
  then show ?thesis by (auto simp: c_tolower_def)
qed

lemma st_compareNoCase_rep:
  assumes s: "st_block s xs" and xs: "0 \<notin> set xs" and p: "cstr p = Some ys"
  shows "st_compareNoCase (Some p) s = Some (map c_tolower ys = map c_tolower xs)"
proof -
  have ys: "0 \<notin> set ys" using p cstrlen_Some by (auto simp: cstr_def)
  obtain t where t: "st_of (Some p) npos = Some t" "st_block t ys"
    using st_dup_npos [OF p] unfolding st_of_def by blast
  obtain tl where tl: "st_toLower t = Some tl" "st_block tl (map c_tolower ys)"
    using st_toLower_rep [OF st_block_rep [OF t(2)]] by blast
  obtain sl where sl: "st_toLower s = Some sl" "st_block sl (map c_tolower xs)"
    using st_toLower_rep [OF st_block_rep [OF s]] by blast
  have nz: "0 \<notin> set (map c_tolower xs)" "0 \<notin> set (map c_tolower ys)"
    using xs ys by (metis (no_types, lifting) c_tolower_0 imageE set_map)+
  obtain d e where "st_data tl = Some d" "st_data sl = Some e"
      "strcmp_eq d e = Some (map c_tolower ys = map c_tolower xs)"
    using tl(2) sl(2) strcmp_eq_text [OF nz(2,1)] by (auto simp: st_block_def)
  moreover have "st_valid s" using s by (auto simp: st_block_def st_valid_def)
  ultimately show ?thesis using t tl sl by (simp add: st_compareNoCase_def)
qed

lemma st_check_loop_rep:
  assumes "st_data s = Some (xs @ rest)"
  shows "ys @ zs = xs \<Longrightarrow>
    st_check_loop s [length ys..<length xs] = Some (\<forall>z \<in> set zs. 32 \<le> sint z \<and> sint z \<le> 126)"
proof (induction zs arbitrary: ys)
  case Nil
  then show ?case by auto
next
  case (Cons z zs)
  then have "load (xs @ rest) (length ys) = Some z" "length ys < length xs"
    by (auto simp: load_def nth_append)
  with Cons.IH [of "ys @ [z]"] Cons.prems assms show ?case by (auto simp: upt_rec)
qed

subsection \<open>The operations as a refinement of operations on the text\<close>

lemma st_append_default_rep:
  assumes "st_rep s xs" and "cstr p = Some ys" and "length ys < npos"
  shows "\<exists>s'. st_append_cstr (Some p) npos s = Some s' \<and> st_rep s' (xs @ ys)"
proof -
  obtain n where n: "cstrlen p = Some n" "ys = take n p" using assms(2) by (auto simp: cstr_def)
  have len: "n \<noteq> npos" "n \<le> length p" "length ys = n"
    using cstrlen_Some [OF n(1)] n(2) assms(3) by auto
  have "st_append_cstr (Some p) npos s = st_append_cstr (Some p) n s"
    using n(1) len(1) by (simp add: st_append_cstr_def)
  with st_append_cstr_rep [OF assms(1) len(1,2)] n(2) show ?thesis by simp
qed

lemma st_append_rep:
  assumes s: "st_rep s xs" and t: "st_rep t ys" and "length ys < npos"
  shows "\<exists>s'. st_append t s = Some s' \<and> st_rep s' (xs @ ys)"
  using t
proof (cases rule: st_rep_cases)
  case (block rest)
  then show ?thesis
    using st_append_cstr_rep [OF s, of "length ys" "ys @ 0 # rest"] assms(3) by (simp add: st_append_def)
next
  case null
  with s show ?thesis by (simp add: st_append_def st_append_cstr_def npos_def size_t_mod_def)
qed

lemma st_join_loop_rep:
  assumes q: "st_list_rep q ts" and len: "\<forall>t \<in> set ts. length t < npos"
  shows "st_rep r acc \<Longrightarrow> k \<le> length ts \<Longrightarrow>
    \<exists>r'. st_join_loop q [k..<length ts] r = Some r' \<and> st_rep r' (acc @ concat (drop k ts))"
proof (induction "length ts - k" arbitrary: k r acc)
  case 0
  then show ?case by simp
next
  case (Suc d)
  then have k: "k < length ts" "d = length ts - Suc k" by auto
  have l: "length (sq_items q) = length ts" using q by (auto simp: st_list_rep_def dest: list_all2_lengthD)
  have "st_rep (sq_at (int k) q) (ts ! k)"
    using q k(1) l by (auto simp: st_list_rep_def sq_at_def sq_valid_def list_all2_conv_all_nth)
  then obtain r1 where r1: "st_append (sq_at (int k) q) r = Some r1" "st_rep r1 (acc @ ts ! k)"
    using st_append_rep [OF Suc.prems(1)] len k(1) by (meson nth_mem)
  moreover have "[k..<length ts] = k # [Suc k..<length ts]" using k(1) by (simp add: upt_rec)
  moreover have "concat (drop k ts) = ts ! k @ concat (drop (Suc k) ts)"
    using k(1) by (simp flip: Cons_nth_drop_Suc)
  ultimately show ?case using Suc.hyps(1) [OF k(2) r1(2)] k(1) by auto
qed

lemma st_join_rep:
  assumes q: "st_list_rep q ts" and len: "\<forall>t \<in> set ts. length t < npos"
  shows "\<exists>r. st_join q 0 npos = Some r \<and> st_rep r (concat ts)"
proof -
  have "nat (sq_count q) = length ts"
    using q by (auto simp: st_list_rep_def sq_count_def dest: list_all2_lengthD)
  with st_join_loop_rep [OF q len st_block_rep [OF st_new_block], of 0] show ?thesis
    by (simp add: st_join_def)
qed

datatype string_op =
    SPushBack byte
  | STakeFront
  | SAppend "byte list" nat
  | SAppendC "byte list"
  | SAssignC "byte list"
  | SAt nat
  | SSize
  | SEmpty

datatype string_out = SoUnit | SoByte byte | SoNat nat | SoBool bool

fun st_exec :: "string_op \<Rightarrow> nstring \<Rightarrow> (string_out \<times> nstring) option" where
  "st_exec (SPushBack c) s = map_option (Pair SoUnit) (st_push_back c s)"
| "st_exec STakeFront s = map_option (\<lambda>(c, s'). (SoByte c, s')) (st_take_front s)"
| "st_exec (SAppend p n) s = map_option (Pair SoUnit) (st_append_cstr (Some p) n s)"
| "st_exec (SAppendC p) s = map_option (Pair SoUnit) (st_append_cstr (Some p) npos s)"
| "st_exec (SAssignC p) s = map_option (Pair SoUnit) (st_assign_cstr (Some p) s)"
| "st_exec (SAt i) s = map_option (\<lambda>c. (SoByte c, s)) (st_at i s)"
| "st_exec SSize s = Some (SoNat (st_sz s), s)"
| "st_exec SEmpty s = Some (SoBool (st_isempty s), s)"

fun text_exec :: "string_op \<Rightarrow> byte list \<Rightarrow> string_out \<times> byte list" where
  "text_exec (SPushBack c) xs = (SoUnit, xs @ [c])"
| "text_exec STakeFront xs = (case xs of [] \<Rightarrow> (SoByte 0, []) | x # ys \<Rightarrow> (SoByte x, ys))"
| "text_exec (SAppend p n) xs = (SoUnit, xs @ take n p)"
| "text_exec (SAppendC p) xs = (SoUnit, xs @ the (cstr p))"
| "text_exec (SAssignC p) xs = (SoUnit, the (cstr p))"
| "text_exec (SAt i) xs = (SoByte (if i < length xs then xs ! i else 0), xs)"
| "text_exec SSize xs = (SoNat (length xs), xs)"
| "text_exec SEmpty xs = (SoBool (xs = []), xs)"

text \<open>The requirement on arguments: a length that the object has, or a terminating zero byte.\<close>

fun string_op_ok :: "string_op \<Rightarrow> bool" where
  "string_op_ok (SAppend p n) = (n \<noteq> npos \<and> n \<le> length p)"
| "string_op_ok (SAppendC p) = (case cstr p of None \<Rightarrow> False | Some xs \<Rightarrow> length xs < npos)"
| "string_op_ok (SAssignC p) = (cstr p \<noteq> None)"
| "string_op_ok _ = True"

interpretation str: data_refinement st_rep string_op_ok st_exec text_exec
proof unfold_locales
  fix s :: nstring and xs :: "byte list" and x :: string_op
  assume r: "st_rep s xs" and ok: "string_op_ok x"
  show "\<exists>s'. st_exec x s = Some (fst (text_exec x xs), s') \<and> st_rep s' (snd (text_exec x xs))"
  proof (cases x)
    case (SPushBack c)
    then show ?thesis using st_push_back_rep [OF r, of c] by (auto intro: st_block_rep)
  next
    case STakeFront
    then show ?thesis using r st_take_front_nil st_take_front_rep by (cases xs) fastforce+
  next
    case (SAppend p n)
    then show ?thesis using st_append_cstr_rep [OF r, of n p] ok by auto
  next
    case (SAppendC p)
    then obtain ys where "cstr p = Some ys" "length ys < npos" using ok by (auto split: option.splits)
    with SAppendC show ?thesis using st_append_default_rep [OF r] by auto
  next
    case (SAssignC p)
    then obtain ys where "cstr p = Some ys" using ok by auto
    with SAssignC show ?thesis using st_dup_npos [of p ys s] by (auto simp: st_assign_cstr_def intro: st_block_rep)
  next
    case (SAt i)
    then show ?thesis using r st_rep_at [OF r, of i] st_rep_sz [OF r] by (auto simp: st_at_def)
  next
    case SSize
    then show ?thesis using r st_rep_sz by simp
  next
    case SEmpty
    then show ?thesis using r st_rep_sz by (simp add: st_isempty_def)
  qed
qed


subsection \<open>Properties\<close>



text \<open>
  \<open>toHex\<close> produces a zero terminated string of two digits per byte, and \<open>fromHex\<close> of it
  gives the text back, for every text (zero bytes included).
\<close>

theorem string_hex_roundtrip:
  assumes "st_rep s xs"
  shows "\<exists>h hex t. st_toHex s = Some h \<and> st_data h = Some hex \<and> st_sz h = 2 * length xs
    \<and> st_fromHex hex = Some t \<and> st_rep t xs"
proof -
  obtain h where h: "st_toHex s = Some h" "st_block h (concat (map hex_of xs))"
    using st_toHex_rep [OF assms] by blast
  have len: "length (concat (map hex_of xs)) = 2 * length xs"
    by (simp add: hex_of_def length_concat sum_list_triv o_def)
  from h(2) obtain rest where "st_data h = Some (concat (map hex_of xs) @ 0 # rest)"
      "st_sz h = 2 * length xs"
    using len by (auto simp: st_block_def)
  with fromHex_loop_rep [OF st_new_block, of xs] h(1) hex_of_no_zero [of xs] show ?thesis
    by (auto simp: st_fromHex_def cstr_text intro: st_block_rep)
qed

lemma string_hex_roundtrip_witness:
  "\<exists>h hex t. st_toHex \<lparr>st_data = Some [171, 0], st_sz = 1, st_mem = 2\<rparr> = Some h \<and> st_data h = Some hex
    \<and> st_fromHex hex = Some t \<and> st_rep t [171]"
  using string_hex_roundtrip [of "\<lparr>st_data = Some [171, 0], st_sz = 1, st_mem = 2\<rparr>" "[171]"]
  by (auto simp: st_rep_def st_block_def)

text \<open>
  \<open>split\<close> at a character. With separators kept the pieces put together are the text. Without
  them, unless the text consists of separators only, no piece is empty or contains a separator,
  and the pieces put together are the text without its separators.
\<close>

theorem string_split_pieces:
  assumes "st_rep s xs" and "length xs < npos" and "0 \<notin> set xs"
  shows "\<exists>ret ts. st_split_char sep keep s = Some ret \<and> st_list_rep ret ts
    \<and> (keep \<longrightarrow> concat ts = xs)
    \<and> (\<not> keep \<and> \<not> list_all ((=) sep) xs \<longrightarrow>
        concat ts = filter (\<lambda>c. c \<noteq> sep) xs \<and> list_all (\<lambda>t. t \<noteq> [] \<and> sep \<notin> set t) ts)"
proof -
  obtain ret where ret: "st_split_char sep keep s = Some ret"
      "st_list_rep ret (split_spec keep (\<lambda>c. c = sep) xs)"
    using split_char_rep [OF assms] by blast
  have "keep \<longrightarrow> concat (split_spec keep (\<lambda>c. c = sep) xs) = xs"
    using concat_pieces_keep [of "\<lambda>c. c = sep" "[]" xs] by (auto simp: split_spec_def)
  moreover have "concat (split_spec keep (\<lambda>c. c = sep) xs) = filter (\<lambda>c. c \<noteq> sep) xs
      \<and> list_all (\<lambda>t. t \<noteq> [] \<and> sep \<notin> set t) (split_spec keep (\<lambda>c. c = sep) xs)"
    if "\<not> keep" "\<not> list_all ((=) sep) xs"
  proof -
    have c: "concat (pieces False (\<lambda>c. c = sep) [] xs) = filter (\<lambda>c. c \<noteq> sep) xs"
      using concat_pieces_drop [of "\<lambda>c. c = sep" "[]" xs] by simp
    moreover have "filter (\<lambda>c. c \<noteq> sep) xs \<noteq> []" using that(2) by (auto simp: list_all_iff filter_empty_conv)
    ultimately have "split_spec keep (\<lambda>c. c = sep) xs = pieces False (\<lambda>c. c = sep) [] xs"
      using that(1) by (auto simp: split_spec_def)
    with c pieces_drop_sep [of "\<lambda>c. c = sep" "[]" xs] show ?thesis by (auto simp: list_all_iff)
  qed
  ultimately show ?thesis using ret by blast
qed

lemma string_split_pieces_witness:
  "\<exists>ret ts. st_split_char 44 True \<lparr>st_data = Some [49, 44, 44, 50, 0], st_sz = 4, st_mem = 5\<rparr> = Some ret
    \<and> st_list_rep ret ts \<and> concat ts = [49, 44, 44, 50]"
  using string_split_pieces
    [of "\<lparr>st_data = Some [49, 44, 44, 50, 0], st_sz = 4, st_mem = 5\<rparr>" "[49, 44, 44, 50]" 44 True]
  by (auto simp: st_rep_def st_block_def npos_def size_t_mod_def)

text \<open>
  \<open>strip(c)\<close> returns the text without its leading and trailing \<open>c\<close>, provided some other
  character is in it (or it is empty).
\<close>

theorem string_strip_correct:
  assumes "st_rep s xs" and "length xs < npos" and "xs = [] \<or> \<not> list_all ((=) c) xs"
  shows "\<exists>s'. st_strip c s = Some s' \<and> st_rep s' (strip_spec c xs)"
proof (cases "xs = []")
  case True
  then show ?thesis using st_rep_sz [OF assms(1)]
    by (simp add: st_strip_def st_substr_def strip_spec_def st_block_rep st_new_block)
next
  case False
  then show ?thesis using st_strip_rep [OF assms(1,2)] assms(3) by blast
qed

lemma string_strip_correct_witness:
  "\<exists>s'. st_strip 34 \<lparr>st_data = Some [34, 65, 34, 0], st_sz = 3, st_mem = 4\<rparr> = Some s' \<and> st_rep s' [65]"
  using string_strip_correct [of "\<lparr>st_data = Some [34, 65, 34, 0], st_sz = 3, st_mem = 4\<rparr>" "[34, 65, 34]" 34]
  by (auto simp: st_rep_def st_block_def npos_def size_t_mod_def strip_spec_def)

text \<open>
  On a text that consists of \<open>c\<close> only, \<open>strip(c)\<close> runs past index 0 (the loop condition
  \<open>i >= 0\<close> holds for every \<open>size_t\<close>) and reads outside the block.
\<close>

theorem string_strip_all_escapes:
  assumes "st_rep s xs" and "xs \<noteq> []" and "length xs < npos" and "list_all ((=) c) xs"
  shows "st_strip c s = None"
  using st_strip_all [OF assms(1,2) _ assms(4)] assms(3) by (simp add: npos_def)

lemma string_strip_all_escapes_witness:
  "st_strip 34 \<lparr>st_data = Some [34, 34, 0], st_sz = 2, st_mem = 3\<rparr> = None"
  by (rule string_strip_all_escapes [of _ "[34, 34]"])
     (simp_all add: st_rep_def st_block_def npos_def size_t_mod_def)

text \<open>
  \<open>find\<close> returns the position of the first occurrence of a C string in the text, and
  \<open>npos\<close> exactly when there is none.
\<close>

theorem string_find_first:
  assumes "st_block s xs" and "0 \<notin> set xs" and "length xs < npos" and "cstr p = Some pat"
  shows "\<exists>i. st_find (Some p) s = Some i
    \<and> (if i = npos then \<forall>j \<le> length xs. \<not> is_prefix pat (drop j xs)
       else is_prefix pat (drop i xs) \<and> (\<forall>j < i. \<not> is_prefix pat (drop j xs)))"
proof (cases "search_sub pat xs")
  case None
  then show ?thesis using st_find_rep [OF assms(1,2,4)] search_sub_None by auto
next
  case (Some i)
  then show ?thesis using st_find_rep [OF assms(1,2,4)] search_sub_Some [OF Some] assms(3) by auto
qed

lemma string_find_first_witness:
  "\<exists>i. st_find (Some [66, 0]) \<lparr>st_data = Some [65, 66, 66, 0], st_sz = 3, st_mem = 4\<rparr> = Some i
    \<and> (if i = npos then \<forall>j \<le> length [65, 66, 66 :: byte]. \<not> is_prefix [66] (drop j [65, 66, 66])
       else is_prefix [66] (drop i [65, 66, 66]) \<and> (\<forall>j < i. \<not> is_prefix [66] (drop j [65, 66, 66])))"
  by (rule string_find_first) (simp_all add: st_block_def npos_def size_t_mod_def cstr_def)

end
