(* ===== verification/Clock.thy ===== *)
theory Clock
  imports Prelude
begin

text \<open>
  The library's clock, \<open>NbiotTime\<close> (\<open>libNbiotCore/src/nbiottime.cpp\<close>), which an interrupt
  advances through \<open>tick\<close>, and the timers that read it, \<open>nbiot::Timer\<close>
  (\<open>libNbiotCore/src/nbiottimer.cpp\<close>). The 16-bit counters are words; \<open>time_t\<close> and
  \<open>long long\<close> are integers (their range exceeds the lifetime of a device); a conversion to
  \<open>unsigned long\<close> reduces modulo its width on the 32-bit targets of the library.
\<close>

subsection \<open>The clock\<close>

record ntime =
  nt_millis :: u16
  nt_timestamp :: int
  nt_ticksPerMs :: u16
  nt_msPerTick :: u16
  nt_ticksCurrent :: u16
  nt_tickLock :: bool

definition nt_new :: ntime where
  "nt_new = \<lparr>nt_millis = 0, nt_timestamp = 0, nt_ticksPerMs = 1, nt_msPerTick = 1,
     nt_ticksCurrent = 0, nt_tickLock = False\<rparr>"

text \<open>\<open>clocks_per_sec\<close> is the platform's \<open>CLOCKS_PER_SEC\<close>.\<close>

definition nt_setTickFrequency :: "nat \<Rightarrow> nat \<Rightarrow> ntime \<Rightarrow> ntime" where
  "nt_setTickFrequency clocks_per_sec ticks0 s =
     (let ticks = (if ticks0 = 0 then clocks_per_sec else ticks0)
      in if 1000 \<le> ticks
         then s\<lparr>nt_ticksPerMs := of_nat (ticks div 1000), nt_msPerTick := 0\<rparr>
         else s\<lparr>nt_msPerTick := of_nat (1000 div ticks), nt_ticksPerMs := 0\<rparr>)"

definition nt_getMinDelay :: "ntime \<Rightarrow> u16" where
  "nt_getMinDelay s = (if nt_msPerTick s = 0 then 1 else nt_msPerTick s)"

definition nt_getMillis :: "ntime \<Rightarrow> int" where
  "nt_getMillis s = nt_timestamp s * 1000 + uint (nt_millis s)"

definition nt_addMillis :: "nat \<Rightarrow> ntime \<Rightarrow> ntime" where
  "nt_addMillis ms s =
     (let millis = nt_getMillis s + int ms
      in s\<lparr>nt_timestamp := millis sdiv 1000, nt_millis := of_int (millis smod 1000)\<rparr>)"

definition nt_getTime :: "ntime \<Rightarrow> int" where
  "nt_getTime s = nt_timestamp s"

definition nt_setTime :: "int \<Rightarrow> ntime \<Rightarrow> ntime" where
  "nt_setTime t s = s\<lparr>nt_timestamp := t, nt_millis := 0, nt_tickLock := False\<rparr>"

definition nt_tick :: "ntime \<Rightarrow> ntime" where
  "nt_tick s =
     (if \<not> nt_tickLock s
      then let s1 =
             (if 0 < nt_msPerTick s then s\<lparr>nt_millis := nt_millis s + nt_msPerTick s\<rparr>
              else if 1 < nt_ticksPerMs s
              then let s2 = s\<lparr>nt_ticksCurrent := nt_ticksCurrent s + 1\<rparr>
                   in if nt_ticksPerMs s2 \<le> nt_ticksCurrent s2
                      then s2\<lparr>nt_millis := nt_millis s2 + 1, nt_ticksCurrent := 0\<rparr>
                      else s2
              else s\<lparr>nt_millis := nt_millis s + 1\<rparr>)
           in if 1000 \<le> nt_millis s1
              then s1\<lparr>nt_timestamp := nt_timestamp s1 + 1, nt_millis := nt_millis s1 - 1000\<rparr>
              else s1
      else s)"

fun nt_ticks :: "nat \<Rightarrow> ntime \<Rightarrow> ntime" where
  "nt_ticks 0 s = s"
| "nt_ticks (Suc n) s = nt_ticks n (nt_tick s)"

text \<open>
  Since \<open>tick\<close> runs in an interrupt, it can come between the accesses of the other operations.
  These are their accesses, in program order; \<open>addMillis\<close> first reads both fields.
\<close>

datatype clock_access =
    AcTick
  | AcLock
  | AcStamp int
  | AcMillis u16
  | AcUnlock

fun clock_step :: "clock_access \<Rightarrow> ntime \<Rightarrow> ntime" where
  "clock_step AcTick s = nt_tick s"
| "clock_step AcLock s = s\<lparr>nt_tickLock := True\<rparr>"
| "clock_step (AcStamp t) s = s\<lparr>nt_timestamp := t\<rparr>"
| "clock_step (AcMillis m) s = s\<lparr>nt_millis := m\<rparr>"
| "clock_step AcUnlock s = s\<lparr>nt_tickLock := False\<rparr>"

definition clock_run :: "clock_access list \<Rightarrow> ntime \<Rightarrow> ntime" where
  "clock_run as s = fold clock_step as s"

definition setTime_accesses :: "int \<Rightarrow> clock_access list" where
  "setTime_accesses t = [AcLock, AcStamp t, AcMillis 0, AcUnlock]"

definition addMillis_accesses :: "nat \<Rightarrow> ntime \<Rightarrow> clock_access list" where
  "addMillis_accesses ms s =
     [AcStamp ((nt_getMillis s + int ms) sdiv 1000), AcMillis (of_int ((nt_getMillis s + int ms) smod 1000))]"

subsection \<open>Lemmas on the clock\<close>

text \<open>The fields stay in their ranges: less than a second in \<open>millis\<close>, at most a second per tick.\<close>

definition nt_inv :: "ntime \<Rightarrow> bool" where
  "nt_inv s \<longleftrightarrow> nt_millis s < 1000 \<and> nt_msPerTick s \<le> 1000"

lemma nt_inv_new: "nt_inv nt_new"
  by (simp add: nt_inv_def nt_new_def)

lemma u16_plus:
  fixes a b :: u16
  assumes "uint a + uint b < 65536"
  shows "uint (a + b) = uint a + uint b"
  using assms by (simp add: uint_word_ariths)

lemma u16_minus:
  fixes a b :: u16
  assumes "b \<le> a"
  shows "uint (a - b) = uint a - uint b"
  using assms uint_sub_lem word_le_def by blast

lemma carry_second:
  assumes "uint (nt_millis s) < 2000"
  shows "let s' = (if 1000 \<le> nt_millis s
              then s\<lparr>nt_timestamp := nt_timestamp s + 1, nt_millis := nt_millis s - 1000\<rparr> else s)
    in nt_millis s' < 1000 \<and> nt_getMillis s' = nt_getMillis s"
  using assms by (auto simp: Let_def nt_getMillis_def word_less_def word_le_def u16_minus)

text \<open>How far one tick advances the clock, and the tick counter.\<close>

definition tick_gain :: "ntime \<Rightarrow> int" where
  "tick_gain s =
     (if 0 < nt_msPerTick s then uint (nt_msPerTick s)
      else if 1 < nt_ticksPerMs s \<and> nt_ticksCurrent s + 1 < nt_ticksPerMs s then 0 else 1)"

lemma nt_tick_props:
  assumes "nt_inv s" and "\<not> nt_tickLock s"
  shows "nt_getMillis (nt_tick s) = nt_getMillis s + tick_gain s" and "nt_inv (nt_tick s)"
proof -
  have b: "uint (nt_millis s) < 1000" "uint (nt_msPerTick s) \<le> 1000"
    using assms(1) by (simp_all add: nt_inv_def word_less_def word_le_def)
  then have p: "uint (nt_millis s + nt_msPerTick s) = uint (nt_millis s) + uint (nt_msPerTick s)"
    "uint (nt_millis s + 1) = uint (nt_millis s) + 1"
    by (simp_all add: u16_plus)
  define s1 where "s1 =
     (if 0 < nt_msPerTick s then s\<lparr>nt_millis := nt_millis s + nt_msPerTick s\<rparr>
      else if 1 < nt_ticksPerMs s
      then let s2 = s\<lparr>nt_ticksCurrent := nt_ticksCurrent s + 1\<rparr>
           in if nt_ticksPerMs s2 \<le> nt_ticksCurrent s2
              then s2\<lparr>nt_millis := nt_millis s2 + 1, nt_ticksCurrent := 0\<rparr>
              else s2
      else s\<lparr>nt_millis := nt_millis s + 1\<rparr>)"
  have "uint (nt_millis s1) < 2000" using b p by (simp add: s1_def Let_def)
  note c = carry_second [OF this]
  have "nt_getMillis s1 = nt_getMillis s + tick_gain s" "nt_msPerTick s1 = nt_msPerTick s"
    using p by (auto simp: s1_def nt_getMillis_def tick_gain_def Let_def not_le)
  with c assms show "nt_getMillis (nt_tick s) = nt_getMillis s + tick_gain s" "nt_inv (nt_tick s)"
    unfolding nt_tick_def s1_def [symmetric] by (simp_all add: Let_def nt_inv_def split: if_splits)
qed

lemma nt_tick_fields [simp]:
  "nt_msPerTick (nt_tick s) = nt_msPerTick s" "nt_ticksPerMs (nt_tick s) = nt_ticksPerMs s"
  "nt_tickLock (nt_tick s) = nt_tickLock s"
  by (simp_all add: nt_tick_def Let_def)

lemma nt_tick_counter:
  "\<not> nt_tickLock s \<Longrightarrow> nt_msPerTick s = 0 \<Longrightarrow> 1 < nt_ticksPerMs s \<Longrightarrow>
   nt_ticksCurrent (nt_tick s) =
     (if nt_ticksPerMs s \<le> nt_ticksCurrent s + 1 then 0 else nt_ticksCurrent s + 1)"
  by (simp add: nt_tick_def Let_def)

lemma nt_tick_locked: "nt_tickLock s \<Longrightarrow> nt_tick s = s"
  by (simp add: nt_tick_def)

lemma nt_ticks_add: "nt_ticks (m + n) s = nt_ticks n (nt_ticks m s)"
  by (induction m arbitrary: s) auto

lemma nt_ticks_fields [simp]:
  "nt_msPerTick (nt_ticks n s) = nt_msPerTick s" "nt_ticksPerMs (nt_ticks n s) = nt_ticksPerMs s"
  "nt_tickLock (nt_ticks n s) = nt_tickLock s"
  by (induction n arbitrary: s) auto

lemma nt_ticks_inv: "nt_inv s \<Longrightarrow> \<not> nt_tickLock s \<Longrightarrow> nt_inv (nt_ticks n s)"
  by (induction n arbitrary: s) (auto simp: nt_tick_props)

text \<open>A constant gain per tick: slow tick sources, and one tick per millisecond.\<close>

lemma nt_ticks_const:
  assumes "nt_inv s" and "\<not> nt_tickLock s" and "0 < nt_msPerTick s \<or> nt_ticksPerMs s \<le> 1"
  shows "nt_getMillis (nt_ticks n s) = nt_getMillis s + int n * tick_gain s"
  using assms
proof (induction n arbitrary: s)
  case 0
  then show ?case by simp
next
  case (Suc n)
  have "tick_gain (nt_tick s) = tick_gain s" using Suc.prems(3) by (auto simp: tick_gain_def)
  with Suc.IH [of "nt_tick s"] Suc.prems nt_tick_props [OF Suc.prems(1,2)]
  show ?case by (auto simp: algebra_simps)
qed

text \<open>Fast tick sources: \<open>k\<close> ticks make a millisecond.\<close>

lemma nt_ticks_fast:
  assumes "nt_inv s" and "\<not> nt_tickLock s" and "nt_msPerTick s = 0"
    and "unat (nt_ticksPerMs s) = k" and "1 < k" and "unat (nt_ticksCurrent s) < k"
  shows "nt_getMillis (nt_ticks n s) = nt_getMillis s + int ((unat (nt_ticksCurrent s) + n) div k)"
  using assms
proof (induction n arbitrary: s)
  case 0
  then show ?case by simp
next
  case (Suc n)
  let ?c = "unat (nt_ticksCurrent s)"
  have "unat (nt_ticksPerMs s) < 2 ^ LENGTH(16)" by (rule unsigned_less)
  then have k: "k < 65536" using Suc.prems(4) by simp
  have gt: "1 < nt_ticksPerMs s" using Suc.prems(4,5) by (simp add: word_less_nat_alt)
  have c1: "unat (nt_ticksCurrent s + 1) = ?c + 1"
    using Suc.prems(6) k by (simp add: unat_word_ariths)
  have wrap: "nt_ticksPerMs s \<le> nt_ticksCurrent s + 1 \<longleftrightarrow> ?c + 1 = k"
    using c1 Suc.prems(4,6) by (auto simp: word_le_nat_alt)
  have cur: "unat (nt_ticksCurrent (nt_tick s)) = (if ?c + 1 = k then 0 else ?c + 1)"
    using nt_tick_counter [OF Suc.prems(2,3) gt] wrap c1 by simp
  have gain: "tick_gain s = (if ?c + 1 = k then 1 else 0)"
    using gt wrap Suc.prems(3) by (auto simp: tick_gain_def not_le)
  have IH: "nt_getMillis (nt_ticks n (nt_tick s)) =
      nt_getMillis (nt_tick s) + int ((unat (nt_ticksCurrent (nt_tick s)) + n) div k)"
    by (rule Suc.IH) (use Suc.prems nt_tick_props cur in \<open>auto\<close>)
  have "(?c + Suc n) div k = (if ?c + 1 = k then 1 else 0)
      + (unat (nt_ticksCurrent (nt_tick s)) + n) div k"
  proof (cases "?c + 1 = k")
    case True
    then have 1: "?c + Suc n = k + n" by simp
    have 2: "(k + n) div k = Suc (n div k)" using Suc.prems(5) by (simp add: div_add_self1)
    show ?thesis unfolding 1 2 cur using True by simp
  next
    case False
    then show ?thesis using cur by simp
  qed
  then show ?case using IH nt_tick_props(1) [OF Suc.prems(1,2)] gain by simp
qed

text \<open>The rates that \<open>setTickFrequency\<close> chooses.\<close>

lemma setTickFrequency_slow:
  assumes "0 < f" and "f < 1000"
  shows "nt_msPerTick (nt_setTickFrequency cps f s) = of_nat (1000 div f)"
    and "unat (of_nat (1000 div f) :: u16) = 1000 div f" and "0 < 1000 div f"
proof -
  have "1000 div f \<le> 1000" by (rule div_le_dividend)
  moreover have "1 \<le> 1000 div f" using assms by (metis div_greater_zero_iff less_or_eq_imp_le less_one linorder_not_less)
  ultimately have b: "1000 div f < 65536" "0 < 1000 div f" by linarith+
  then show "unat (of_nat (1000 div f) :: u16) = 1000 div f" by (simp add: unat_of_nat)
  show "0 < 1000 div f" by (rule b(2))
  show "nt_msPerTick (nt_setTickFrequency cps f s) = of_nat (1000 div f)"
    using assms by (simp add: nt_setTickFrequency_def Let_def)
qed

subsection \<open>Timers\<close>

definition ulong_mod :: int where
  "ulong_mod = 2 ^ 32"

definition to_ulong :: "int \<Rightarrow> int" where
  "to_ulong x = x mod ulong_mod"

record ntimer =
  tm_start_ms :: int
  tm_end_ms :: int

definition tm_new :: ntimer where
  "tm_new = \<lparr>tm_start_ms = 0, tm_end_ms = 0\<rparr>"

text \<open>The clock is an argument: \<open>NbiotCoreApp::getInstance().getTimeInstance()\<close>.\<close>

definition tm_start :: "ntime \<Rightarrow> ntimer \<Rightarrow> ntimer" where
  "tm_start clk t = t\<lparr>tm_start_ms := nt_getMillis clk, tm_end_ms := tm_end_ms t + nt_getMillis clk\<rparr>"

definition tm_start_for :: "ntime \<Rightarrow> int \<Rightarrow> ntimer \<Rightarrow> ntimer" where
  "tm_start_for clk end t = t\<lparr>tm_start_ms := nt_getMillis clk, tm_end_ms := nt_getMillis clk + end\<rparr>"

definition tm_setTime :: "int \<Rightarrow> ntimer \<Rightarrow> ntimer" where
  "tm_setTime end t = t\<lparr>tm_end_ms := end\<rparr>"

definition tm_getTime :: "ntimer \<Rightarrow> int" where
  "tm_getTime t =
     (if tm_start_ms t \<noteq> 0 \<and> tm_start_ms t \<le> tm_end_ms t
      then to_ulong (tm_end_ms t - tm_start_ms t) else to_ulong (tm_end_ms t))"

definition tm_remaining :: "ntime \<Rightarrow> ntimer \<Rightarrow> int" where
  "tm_remaining clk t =
     (let current_millis = nt_getMillis clk
      in if tm_end_ms t = 0 \<or> tm_end_ms t \<le> current_millis then 0
         else to_ulong (tm_end_ms t - current_millis))"

definition tm_expired :: "ntime \<Rightarrow> ntimer \<Rightarrow> int" where
  "tm_expired clk t =
     (if tm_start_ms t = 0 then 0
      else if tm_remaining clk t = 0 then to_ulong (tm_end_ms t - tm_start_ms t)
      else to_ulong (nt_getMillis clk - tm_start_ms t))"

definition tm_clear :: "ntimer \<Rightarrow> ntimer" where
  "tm_clear t = t\<lparr>tm_start_ms := 0, tm_end_ms := 0\<rparr>"

definition tm_valid :: "ntimer \<Rightarrow> bool" where
  "tm_valid t \<longleftrightarrow> tm_start_ms t \<noteq> 0 \<and> tm_end_ms t \<noteq> 0"

definition tm_has_expired :: "ntime \<Rightarrow> ntimer \<Rightarrow> bool" where
  "tm_has_expired clk t \<longleftrightarrow> tm_remaining clk t = 0"

definition tm_countdown_ms :: "ntime \<Rightarrow> int \<Rightarrow> ntimer \<Rightarrow> ntimer" where
  "tm_countdown_ms clk ms t = tm_start_for clk ms t"

definition tm_countdown :: "ntime \<Rightarrow> int \<Rightarrow> ntimer \<Rightarrow> ntimer" where
  "tm_countdown clk s t = tm_start_for clk (to_ulong (1000 * s)) t"

definition tm_left_ms :: "ntime \<Rightarrow> ntimer \<Rightarrow> u16" where
  "tm_left_ms clk t = of_int (tm_remaining clk t)"

lemma setTickFrequency_fast:
  assumes "1000 \<le> f" and "f < 65536000"
  shows "nt_msPerTick (nt_setTickFrequency cps f s) = 0"
    and "unat (nt_ticksPerMs (nt_setTickFrequency cps f s)) = f div 1000" and "0 < f div 1000"
proof -
  have b: "f div 1000 < 65536" "0 < f div 1000" using assms by (auto simp: less_mult_imp_div_less div_greater_zero_iff)
  then show "nt_msPerTick (nt_setTickFrequency cps f s) = 0" "0 < f div 1000"
    "unat (nt_ticksPerMs (nt_setTickFrequency cps f s)) = f div 1000"
    using assms by (simp_all add: nt_setTickFrequency_def Let_def unat_of_nat)
qed

lemma nt_new_freq [simp]:
  "nt_getMillis (nt_setTickFrequency cps f nt_new) = 0"
  "nt_inv (nt_setTickFrequency cps f nt_new) \<longleftrightarrow> nt_msPerTick (nt_setTickFrequency cps f nt_new) \<le> 1000"
  "\<not> nt_tickLock (nt_setTickFrequency cps f nt_new)"
  "nt_ticksCurrent (nt_setTickFrequency cps f nt_new) = 0"
  by (simp_all add: nt_setTickFrequency_def nt_new_def nt_getMillis_def nt_inv_def Let_def)

lemma clock_rate_slow:
  assumes "0 < f" and "f < 1000"
  shows "nt_getMillis (nt_ticks n (nt_setTickFrequency cps f nt_new)) = int (n * (1000 div f))"
proof -
  let ?s = "nt_setTickFrequency cps f nt_new"
  note r = setTickFrequency_slow [OF assms]
  have "uint (nt_msPerTick ?s) = int (1000 div f)" unfolding r(1) using r(2) by (metis uint_nat)
  moreover have "0 < nt_msPerTick ?s" unfolding r(1) using r(2,3) by (simp add: word_less_nat_alt)
  moreover have "nt_inv ?s"
  proof -
    have "unat (nt_msPerTick ?s) \<le> 1000" unfolding r(1) r(2) by (rule div_le_dividend)
    then show ?thesis by (simp add: word_le_nat_alt)
  qed
  ultimately show ?thesis using nt_ticks_const [of ?s n] by (simp add: tick_gain_def)
qed

lemma clock_rate_fast:
  assumes "1000 \<le> f" and "f < 65536000"
  shows "nt_getMillis (nt_ticks n (nt_setTickFrequency cps f nt_new)) = int (n div (f div 1000))"
proof -
  let ?s = "nt_setTickFrequency cps f nt_new"
  note r = setTickFrequency_fast [OF assms]
  have inv: "nt_inv ?s" using r(1) by simp
  show ?thesis
  proof (cases "f div 1000 = 1")
    case True
    then have "unat (nt_ticksPerMs ?s) = 1" using r(2) by (rule trans [rotated])
    then have "nt_ticksPerMs ?s = 1" by (simp add: word_unat_eq_iff)
    with r(1) True nt_ticks_const [OF inv, of n] show ?thesis by (simp add: tick_gain_def)
  next
    case False
    with r(3) have "1 < f div 1000" by linarith
    with nt_ticks_fast [OF inv _ r(1,2), of n] show ?thesis by simp
  qed
qed


subsection \<open>Properties\<close>

text \<open>
  When the tick frequency divides 1000 or is a multiple of 1000 (below 65.536 MHz), the clock
  keeps time: after the ticks of \<open>s\<close> seconds it has advanced by exactly \<open>1000 * s\<close> ms.
\<close>

theorem clock_keeps_time:
  assumes "0 < f" and "f < 65536000" and "f dvd 1000 \<or> 1000 dvd f"
  shows "nt_getMillis (nt_ticks (f * s) (nt_setTickFrequency cps f nt_new)) = 1000 * int s"
proof (cases "f < 1000")
  case True
  then have "f dvd 1000" using assms(1,3) by (auto dest: dvd_imp_le)
  then have "f * s * (1000 div f) = 1000 * s"
    by (metis dvd_mult_div_cancel mult.commute mult.left_commute)
  then show ?thesis by (metis clock_rate_slow [OF assms(1) True] of_nat_mult of_nat_numeral)
next
  case False
  then have f: "1000 dvd f"
    using assms(1,3) by (metis dvd_imp_le dvd_refl linorder_not_less nle_le zero_less_numeral)
  then obtain k where k: "f = 1000 * k" by blast
  with assms(1) have "f * s div (f div 1000) = 1000 * s" by simp
  then show ?thesis using clock_rate_fast [of f "f * s" cps] False assms(2) by simp
qed

lemma clock_keeps_time_witness:
  "nt_getMillis (nt_ticks (100 * 7) (nt_setTickFrequency 1000000 100 nt_new)) = 7000"
  using clock_keeps_time [of 100 7 1000000] by (simp add: dvd_def exI [of _ 10])

text \<open>
  For other frequencies the rounded rate makes the clock drift. Between 500 Hz and 1 kHz a
  second of ticks counts as \<open>f\<close> ms, up to half a second too little.
\<close>

theorem clock_drifts_below_1khz:
  assumes "500 < f" and "f < 1000"
  shows "nt_getMillis (nt_ticks f (nt_setTickFrequency cps f nt_new)) = int f \<and> int f < 1000"
proof -
  have "1000 div f = 1" using assms by (intro div_nat_eqI) auto
  with clock_rate_slow [of f f cps] assms show ?thesis by simp
qed

lemma clock_drifts_below_1khz_witness:
  "nt_getMillis (nt_ticks 501 (nt_setTickFrequency 1000000 501 nt_new)) = int 501 \<and> int 501 < 1000"
  by (rule clock_drifts_below_1khz) simp_all

lemma clock_run_ticks: "fold clock_step (replicate n AcTick) s = nt_ticks n s"
  by (induction n arbitrary: s) auto

lemma nt_ticks_locked: "nt_tickLock s \<Longrightarrow> nt_ticks n s = s"
  by (induction n) (auto simp: nt_tick_locked)

lemma shuffles_ticks_Cons:
  assumes "zs \<in> shuffles (x # xs) (replicate k AcTick)"
  shows "\<exists>a ys. a \<le> k \<and> zs = replicate a AcTick @ x # ys \<and> ys \<in> shuffles xs (replicate (k - a) AcTick)"
  using assms
proof (induction k arbitrary: zs)
  case 0
  then show ?case by (intro exI [of _ 0] exI [of _ xs]) simp
next
  case (Suc k)
  then consider ys where "zs = x # ys" "ys \<in> shuffles xs (replicate (Suc k) AcTick)"
    | ys where "zs = AcTick # ys" "ys \<in> shuffles (x # xs) (replicate k AcTick)"
    by auto
  then show ?case
  proof cases
    case 1
    then show ?thesis by (intro exI [of _ 0] exI [of _ ys]) simp
  next
    case 2
    obtain a ws where "a \<le> k" "ys = replicate a AcTick @ x # ws"
      "ws \<in> shuffles xs (replicate (k - a) AcTick)"
      using Suc.IH [OF 2(2)] by blast
    then show ?thesis using 2(1) by (intro exI [of _ "Suc a"] exI [of _ ws]) simp
  qed
qed

text \<open>
  C39: \<open>setTime\<close> is atomic for the tick interrupt. However the accesses of \<open>setTime\<close> are
  interleaved with \<open>k\<close> ticks, the clock ends in a state that \<open>setTime\<close> alone reaches when it runs
  between the ticks before its first access and the ticks after its last one; a tick between is
  ignored and never seen half done.
\<close>

theorem setTime_interrupt_safe:
  assumes "run \<in> shuffles (setTime_accesses t) (replicate k AcTick)"
  shows "\<exists>a e. a + e \<le> k \<and> clock_run run s = nt_ticks e (nt_setTime t (nt_ticks a s))"
proof -
  obtain a r1 where 1: "a \<le> k" "run = replicate a AcTick @ AcLock # r1"
      "r1 \<in> shuffles [AcStamp t, AcMillis 0, AcUnlock] (replicate (k - a) AcTick)"
    using shuffles_ticks_Cons [OF assms [unfolded setTime_accesses_def]] by blast
  obtain b r2 where 2: "b \<le> k - a" "r1 = replicate b AcTick @ AcStamp t # r2"
      "r2 \<in> shuffles [AcMillis 0, AcUnlock] (replicate (k - a - b) AcTick)"
    using shuffles_ticks_Cons [OF 1(3)] by blast
  obtain c r3 where 3: "c \<le> k - a - b" "r2 = replicate c AcTick @ AcMillis 0 # r3"
      "r3 \<in> shuffles [AcUnlock] (replicate (k - a - b - c) AcTick)"
    using shuffles_ticks_Cons [OF 2(3)] by blast
  obtain d r4 where 4: "d \<le> k - a - b - c" "r3 = replicate d AcTick @ AcUnlock # r4"
      "r4 \<in> shuffles [] (replicate (k - a - b - c - d) AcTick)"
    using shuffles_ticks_Cons [OF 3(3)] by blast
  have "r4 = replicate (k - a - b - c - d) AcTick" using 4(3) by simp
  then have "clock_run run s = nt_ticks (k - a - b - c - d) (nt_setTime t (nt_ticks a s))"
    unfolding 1(2) 2(2) 3(2) 4(2)
    by (simp add: clock_run_def clock_run_ticks nt_ticks_locked nt_setTime_def del: fold_replicate)
  moreover have "a + (k - a - b - c - d) \<le> k" using 1(1) by simp
  ultimately show ?thesis by blast
qed

lemma setTime_interrupt_safe_witness:
  "\<exists>a e. a + e \<le> 1 \<and> clock_run [AcLock, AcStamp 7, AcTick, AcMillis 0, AcUnlock] nt_new
     = nt_ticks e (nt_setTime 7 (nt_ticks a nt_new))"
  by (rule setTime_interrupt_safe) (simp add: setTime_accesses_def)

lemma addMillis_writes:
  assumes "nt_inv s" and "0 \<le> nt_timestamp s"
  shows "((nt_getMillis s + int ms) sdiv 1000) * 1000 + uint (of_int ((nt_getMillis s + int ms) smod 1000) :: u16)
    = nt_getMillis s + int ms"
proof -
  let ?x = "nt_getMillis s + int ms"
  have "0 \<le> ?x" using assms(2) by (simp add: nt_getMillis_def)
  then have e: "?x sdiv 1000 = ?x div 1000" "?x smod 1000 = ?x mod 1000"
    by (cases "?x = 0"; simp add: signed_divide_int_def signed_modulo_int_def sgn_if)+
  have "0 \<le> ?x mod 1000" "?x mod 1000 < 1000" by simp_all
  then have "uint (of_int (?x mod 1000) :: u16) = ?x mod 1000" by (simp add: uint_word_of_int)
  then show ?thesis by (simp add: e)
qed

lemma nt_tick_carry:
  assumes "nt_inv s" and "\<not> nt_tickLock s" and "1000 \<le> uint (nt_millis s) + tick_gain s"
  shows "nt_timestamp (nt_tick s) = nt_timestamp s + 1"
proof -
  have "uint (nt_millis s) < 1000" "uint (nt_millis (nt_tick s)) < 1000" "tick_gain s \<le> 1000"
    "0 \<le> uint (nt_millis (nt_tick s))"
    using assms(1) nt_tick_props(2) [OF assms(1,2)]
    by (auto simp: nt_inv_def word_less_def word_le_def tick_gain_def)
  moreover have "nt_timestamp (nt_tick s) * 1000 + uint (nt_millis (nt_tick s))
      = nt_timestamp s * 1000 + uint (nt_millis s) + tick_gain s"
    using nt_tick_props(1) [OF assms(1,2)] by (simp add: nt_getMillis_def)
  ultimately show ?thesis using assms(3) by linarith
qed

text \<open>
  C40: \<open>addMillis\<close> has no such protection. A tick between its reads and its writes is lost, and
  a tick between its two writes that completes a second makes the clock a second too fast.
\<close>

theorem addMillis_interrupt_unsafe:
  assumes "nt_inv s" and "\<not> nt_tickLock s" and "0 \<le> nt_timestamp s"
    and "1000 \<le> uint (nt_millis s) + tick_gain s" and "addMillis_accesses ms s = [w1, w2]"
  shows "nt_getMillis (clock_run [AcTick, w1, w2] s) = nt_getMillis s + int ms
    \<and> nt_getMillis (clock_run [w1, AcTick, w2] s) = nt_getMillis s + int ms + 1000
    \<and> nt_getMillis (clock_run [w1, w2] s) = nt_getMillis s + int ms"
proof -
  let ?x = "nt_getMillis s + int ms"
  have w: "w1 = AcStamp (?x sdiv 1000)" "w2 = AcMillis (of_int (?x smod 1000))"
    using assms(5) by (simp_all add: addMillis_accesses_def)
  let ?s = "s\<lparr>nt_timestamp := ?x sdiv 1000\<rparr>"
  have "tick_gain ?s = tick_gain s" by (simp add: tick_gain_def)
  then have "nt_timestamp (nt_tick ?s) = ?x sdiv 1000 + 1"
    using nt_tick_carry [of ?s] assms by (simp add: nt_inv_def)
  then show ?thesis
    using addMillis_writes [OF assms(1,3), of ms] by (simp add: w clock_run_def nt_getMillis_def algebra_simps)
qed

lemma addMillis_interrupt_unsafe_witness:
  "nt_getMillis (clock_run [AcStamp 1, AcTick, AcMillis 499]
     \<lparr>nt_millis = 999, nt_timestamp = 0, nt_ticksPerMs = 1, nt_msPerTick = 1, nt_ticksCurrent = 0,
       nt_tickLock = False\<rparr>) = 2499"
  using addMillis_interrupt_unsafe
    [of "\<lparr>nt_millis = 999, nt_timestamp = 0, nt_ticksPerMs = 1, nt_msPerTick = 1, nt_ticksCurrent = 0,
       nt_tickLock = False\<rparr>" 500 "AcStamp 1" "AcMillis 499"]
  by (simp add: nt_inv_def tick_gain_def addMillis_accesses_def nt_getMillis_def
      signed_divide_int_def signed_modulo_int_def)

text \<open>
  A timer started for \<open>n\<close> ms, when the clock does not stand at zero, counts down: at every
  later time the remaining and the expired time add up to \<open>n\<close>, and it has expired exactly when
  \<open>n\<close> ms have passed.
\<close>

theorem timer_counts_down:
  assumes "0 < nt_getMillis clk0" and "nt_getMillis clk0 \<le> nt_getMillis clk"
    and "0 \<le> n" and "n < ulong_mod"
  shows "let t = tm_start_for clk0 n tm0; elapsed = nt_getMillis clk - nt_getMillis clk0
    in tm_remaining clk t = max 0 (n - elapsed) \<and> tm_expired clk t = min n elapsed
      \<and> (tm_has_expired clk t \<longleftrightarrow> n \<le> elapsed) \<and> tm_valid t"
  using assms
  by (auto simp: Let_def tm_start_for_def tm_remaining_def tm_expired_def tm_has_expired_def tm_valid_def
      to_ulong_def)

lemma timer_counts_down_witness:
  "let t = tm_start_for (nt_setTime 1 nt_new) 500 tm_new
   in tm_remaining (nt_addMillis 200 (nt_setTime 1 nt_new)) t = 300"
  using timer_counts_down [of "nt_setTime 1 nt_new" "nt_addMillis 200 (nt_setTime 1 nt_new)" 500 tm_new]
  by (simp add: Let_def nt_setTime_def nt_addMillis_def nt_new_def nt_getMillis_def ulong_mod_def
      signed_divide_int_def signed_modulo_int_def)

text \<open>
  A timer started while the clock stands at zero (the clock's initial value) is not valid and
  reports no expired time, although it expires.
\<close>

theorem timer_started_at_zero:
  assumes "nt_getMillis clk0 = 0" and "n \<le> nt_getMillis clk"
  shows "\<not> tm_valid (tm_start_for clk0 n tm0) \<and> tm_expired clk (tm_start_for clk0 n tm0) = 0
    \<and> tm_has_expired clk (tm_start_for clk0 n tm0)"
  using assms by (simp add: tm_start_for_def tm_valid_def tm_expired_def tm_has_expired_def tm_remaining_def)

lemma timer_started_at_zero_witness:
  "tm_expired (nt_setTime 3 nt_new) (tm_start_for nt_new 500 tm_new) = 0"
  using timer_started_at_zero [of nt_new 500 "nt_setTime 3 nt_new" tm_new]
  by (simp add: nt_new_def nt_setTime_def nt_getMillis_def)

text \<open>
  \<open>left_ms\<close> returns the remaining time modulo 65536, so a timer with 65.536 s left reports
  that nothing is left.
\<close>

theorem left_ms_truncates:
  "uint (tm_left_ms clk t) = tm_remaining clk t mod 65536"
  by (simp add: tm_left_ms_def uint_word_of_int)

end
