(* ===== verification/Packet.thy ===== *)
theory Packet
  imports Prelude
begin

text \<open>
  The MQTT-SN packet primitives of
  \<open>external/src/paho.mqtt-sn.embedded-c/MQTTSNPacket/MQTTSNPacket.c\<close> and the types of
  \<open>MQTTSNPacket.h\<close>. A \<open>unsigned char*\<close> into a packet buffer is the buffer with a position; an
  access outside the buffer is \<open>None\<close>. A pointer that a deserializer hands out is the rest of
  the buffer from that position. Types \<open>char\<close> are signed, as on the hosts of the tests.
  The theories Packet_Publish, Packet_Connect and Packet_Subscribe build on it.
\<close>

subsection \<open>Types and constants\<close>

definition BUFFER_TOO_SHORT :: int where "BUFFER_TOO_SHORT = - 2"
definition READ_ERROR :: int where "READ_ERROR = - 1"

text \<open>The message types, with the value of each in \<open>enum MQTTSN_msgTypes\<close>.\<close>

datatype msg_type =
    ADVERTISE | SEARCHGW | GWINFO | RESERVED1 | CONNECT | CONNACK
  | WILLTOPICREQ | WILLTOPIC | WILLMSGREQ | WILLMSG | REGISTER | REGACK
  | PUBLISH | PUBACK | PUBCOMP | PUBREC | PUBREL | RESERVED2
  | SUBSCRIBE | SUBACK | UNSUBSCRIBE | UNSUBACK | PINGREQ | PINGRESP
  | DISCONNECT | RESERVED3 | WILLTOPICUPD | WILLTOPICRESP | WILLMSGUPD | WILLMSGRESP

fun msg_code :: "msg_type \<Rightarrow> byte" where
  "msg_code ADVERTISE = 0" | "msg_code SEARCHGW = 1" | "msg_code GWINFO = 2" | "msg_code RESERVED1 = 3"
| "msg_code CONNECT = 4" | "msg_code CONNACK = 5" | "msg_code WILLTOPICREQ = 6" | "msg_code WILLTOPIC = 7"
| "msg_code WILLMSGREQ = 8" | "msg_code WILLMSG = 9" | "msg_code REGISTER = 10" | "msg_code REGACK = 11"
| "msg_code PUBLISH = 12" | "msg_code PUBACK = 13" | "msg_code PUBCOMP = 14" | "msg_code PUBREC = 15"
| "msg_code PUBREL = 16" | "msg_code RESERVED2 = 17" | "msg_code SUBSCRIBE = 18" | "msg_code SUBACK = 19"
| "msg_code UNSUBSCRIBE = 20" | "msg_code UNSUBACK = 21" | "msg_code PINGREQ = 22" | "msg_code PINGRESP = 23"
| "msg_code DISCONNECT = 24" | "msg_code RESERVED3 = 25" | "msg_code WILLTOPICUPD = 26"
| "msg_code WILLTOPICRESP = 27" | "msg_code WILLMSGUPD = 28" | "msg_code WILLMSGRESP = 29"

datatype topic_type = TNormal | TPredefined | TShort

fun topic_type_code :: "topic_type \<Rightarrow> byte" where
  "topic_type_code TNormal = 0" | "topic_type_code TPredefined = 1" | "topic_type_code TShort = 2"

text \<open>
  The union in \<open>MQTTSN_topicid\<close>, by the member last written. Reading another member is defined
  where the bytes are (\<open>id\<close> and \<open>short_name\<close> share them, low byte first); the bytes of a pointer
  are not determined.
\<close>

datatype topic_union = UId u16 | UShort byte byte | ULong "byte list option" int

record topicid =
  tp_type :: topic_type
  tp_data :: topic_union

fun union_id :: "topic_union \<Rightarrow> u16 option" where
  "union_id (UId i) = Some i"
| "union_id (UShort a b) = Some (word_of_int (uint a + 256 * uint b))"
| "union_id (ULong _ _) = None"

fun union_short :: "topic_union \<Rightarrow> (byte \<times> byte) option" where
  "union_short (UId i) = Some (word_of_int (uint i), word_of_int (uint i div 256))"
| "union_short (UShort a b) = Some (a, b)"
| "union_short (ULong _ _) = None"

fun union_long :: "topic_union \<Rightarrow> (byte list option \<times> int) option" where
  "union_long (ULong name len) = Some (name, len)"
| "union_long _ = None"

text \<open>The flags byte: the bit fields in the order of a little endian target.\<close>

record flags =
  fl_topicIdType :: byte
  fl_cleanSession :: byte
  fl_will :: byte
  fl_retain :: byte
  fl_QoS :: byte
  fl_dup :: byte

definition flags_zero :: flags where
  "flags_zero = \<lparr>fl_topicIdType = 0, fl_cleanSession = 0, fl_will = 0, fl_retain = 0, fl_QoS = 0, fl_dup = 0\<rparr>"

text \<open>Assigning to a bit field keeps its low bits; the fields are stored as such.\<close>

definition flags_all :: "flags \<Rightarrow> byte" where
  "flags_all f =
     or (take_bit 2 (fl_topicIdType f)) (or (push_bit 2 (take_bit 1 (fl_cleanSession f)))
       (or (push_bit 3 (take_bit 1 (fl_will f))) (or (push_bit 4 (take_bit 1 (fl_retain f)))
         (or (push_bit 5 (take_bit 2 (fl_QoS f))) (push_bit 7 (take_bit 1 (fl_dup f)))))))"

definition get_topicIdType :: "byte \<Rightarrow> byte" where "get_topicIdType b = take_bit 2 b"
definition get_cleanSession :: "byte \<Rightarrow> byte" where "get_cleanSession b = take_bit 1 (drop_bit 2 b)"
definition get_will :: "byte \<Rightarrow> byte" where "get_will b = take_bit 1 (drop_bit 3 b)"
definition get_retain :: "byte \<Rightarrow> byte" where "get_retain b = take_bit 1 (drop_bit 4 b)"
definition get_QoS :: "byte \<Rightarrow> byte" where "get_QoS b = take_bit 2 (drop_bit 5 b)"

text \<open>\<open>dup\<close> is a signed one-bit field: a set bit reads as \<open>-1\<close>, which is 255 in a byte.\<close>

definition get_dup :: "byte \<Rightarrow> byte" where
  "get_dup b = (if take_bit 1 (drop_bit 7 b) = 1 then - 1 else 0)"

record mstring =
  ms_cstring :: "byte list option"
  ms_len :: int
  ms_data :: "byte list option"

fun c_strlen :: "byte list \<Rightarrow> nat option" where
  "c_strlen [] = None"
| "c_strlen (c # cs) = (if c = 0 then Some 0 else map_option Suc (c_strlen cs))"

definition MQTTSNstrlen :: "mstring \<Rightarrow> int option" where
  "MQTTSNstrlen s =
     (case ms_cstring s of Some p \<Rightarrow> map_option int (c_strlen p) | None \<Rightarrow> Some (ms_len s))"

definition packet_names :: "string list" where
  "packet_names =
     [''ADVERTISE'', ''SEARCHGW'', ''GWINFO'', ''RESERVED'', ''CONNECT'', ''CONNACK'',
      ''WILLTOPICREQ'', ''WILLTOPIC'', ''WILLMSGREQ'', ''WILLMSG'', ''REGISTER'', ''REGACK'',
      ''PUBLISH'', ''PUBACK'', ''PUBCOMP'', ''PUBREC'', ''PUBREL'', ''RESERVED'',
      ''SUBSCRIBE'', ''SUBACK'', ''UNSUBSCRIBE'', ''UNSUBACK'', ''PINGREQ'', ''PINGRESP'',
      ''DISCONNECT'', ''RESERVED'', ''WILLTOPICUPD'', ''WILLTOPICRESP'', ''WILLMSGUPD'',
      ''WILLMSGRESP'']"

definition MQTTSNPacket_name :: "int \<Rightarrow> string" where
  "MQTTSNPacket_name code =
     (if 0 \<le> code \<and> code \<le> uint (msg_code WILLMSGRESP) then packet_names ! nat code else ''UNKNOWN'')"

subsection \<open>Writing\<close>

text \<open>A writer: the buffer and the offset of the write pointer.\<close>

type_synonym writer = "byte list \<times> nat"

definition writeChar :: "byte \<Rightarrow> writer \<Rightarrow> writer option" where
  "writeChar c = (\<lambda>(buf, ptr). map_option (\<lambda>b. (b, ptr + 1)) (store buf ptr c))"

definition writeInt :: "int \<Rightarrow> writer \<Rightarrow> writer option" where
  "writeInt n w = do {
     w1 \<leftarrow> writeChar (word_of_int (n sdiv 256)) w;
     writeChar (word_of_int (n smod 256)) w1
   }"

text \<open>\<open>memcpy(ptr, p, n)\<close> and \<open>ptr += n\<close>; a negative \<open>n\<close> becomes a huge size.\<close>

definition writeMem :: "byte list option \<Rightarrow> int \<Rightarrow> writer \<Rightarrow> writer option" where
  "writeMem p n = (\<lambda>(buf, ptr).
     if n < 0 then None
     else if n = 0 then Some (buf, ptr)
     else do {
       src \<leftarrow> p;
       b \<leftarrow> memcpy buf ptr src (nat n);
       Some (b, ptr + nat n)
     })"

definition writeCString :: "byte list \<Rightarrow> writer \<Rightarrow> writer option" where
  "writeCString s w = do { len \<leftarrow> c_strlen s; writeMem (Some s) (int len) w }"

definition writeMQTTSNString :: "mstring \<Rightarrow> writer \<Rightarrow> writer option" where
  "writeMQTTSNString s w =
     (if 0 < ms_len s then writeMem (ms_data s) (ms_len s) w
      else case ms_cstring s of Some p \<Rightarrow> writeCString p w | None \<Rightarrow> Some w)"

definition MQTTSNPacket_len :: "int \<Rightarrow> int" where
  "MQTTSNPacket_len n = (if n > 255 then n + 3 else n + 1)"

text \<open>
  The length field. For a length above 255 \<open>buf\<close> is not advanced before \<open>writeInt(&buf, length)\<close>,
  so the two length bytes go to offsets 0 and 1, over the marker 1.
\<close>

definition MQTTSNPacket_encode :: "int \<Rightarrow> writer \<Rightarrow> writer option" where
  "MQTTSNPacket_encode n = (\<lambda>(buf, ptr).
     if n > 255
     then do {
       (b1, _) \<leftarrow> writeChar 1 (buf, ptr);
       (b2, _) \<leftarrow> writeInt n (b1, ptr);
       Some (b2, ptr + 3)
     }
     else writeChar (word_of_int n) (buf, ptr))"

text \<open>A finished packet: the return value \<open>ptr - buf\<close> and the buffer.\<close>

definition finish :: "writer option \<Rightarrow> (int \<times> byte list) option" where
  "finish w = map_option (\<lambda>(buf, ptr). (int ptr, buf)) w"

subsection \<open>Reading\<close>

definition readChar :: "byte list \<Rightarrow> int \<Rightarrow> (byte \<times> int) option" where
  "readChar buf p = (if 0 \<le> p then map_option (\<lambda>c. (c, p + 1)) (load buf (nat p)) else None)"

definition readInt :: "byte list \<Rightarrow> int \<Rightarrow> (int \<times> int) option" where
  "readInt buf p = do {
     (a, p1) \<leftarrow> readChar buf p;
     (b, p2) \<leftarrow> readChar buf p1;
     Some (256 * uint a + uint b, p2)
   }"

definition getLenStringLen :: "byte list \<Rightarrow> int option" where
  "getLenStringLen p = map_option fst (readInt p 0)"

text \<open>
  \<open>MQTTSNPacket_decode(buf, buflen, &value)\<close>: the number of length bytes and the variable
  afterwards; \<open>None\<close> in its place is a variable that was never assigned.
\<close>

definition MQTTSNPacket_decode :: "byte list \<Rightarrow> int \<Rightarrow> int option \<Rightarrow> (int \<times> int option) option" where
  "MQTTSNPacket_decode buf buflen v =
     (if buflen \<le> 0 then Some (READ_ERROR, v)
      else do {
        (b0, p1) \<leftarrow> readChar buf 0;
        if b0 = 1
        then if buflen < 3 then Some (READ_ERROR, v)
             else do { (n, _) \<leftarrow> readInt buf p1; Some (3, Some n) }
        else Some (1, Some (uint b0))
      })"

text \<open>A pointer into the buffer as a value: the buffer from that offset.\<close>

definition ptr_at :: "byte list \<Rightarrow> int \<Rightarrow> byte list option" where
  "ptr_at buf p = (if 0 \<le> p \<and> p \<le> int (length buf) then Some (drop (nat p) buf) else None)"

definition readMQTTSNString :: "byte list \<Rightarrow> int \<Rightarrow> int \<Rightarrow> mstring \<times> int" where
  "readMQTTSNString buf p enddata =
     (let n = enddata - p
      in if 0 < n then (\<lparr>ms_cstring = None, ms_len = n, ms_data = ptr_at buf p\<rparr>, p + n)
         else (\<lparr>ms_cstring = None, ms_len = n, ms_data = None\<rparr>, p))"

text \<open>
  \<open>MQTTSNPacket_read\<close>: \<open>getfn\<close> is the transport, which fills the buffer and returns a count.
\<close>

definition MQTTSNPacket_read ::
  "(byte list \<Rightarrow> int \<Rightarrow> int \<times> byte list) \<Rightarrow> byte list \<Rightarrow> int \<Rightarrow> (int \<times> byte list) option" where
  "MQTTSNPacket_read getfn buf buflen =
     (let (len, buf1) = getfn buf buflen
      in if len < 3 then Some (READ_ERROR, buf1)
         else do {
           (lenlen, datalen) \<leftarrow> MQTTSNPacket_decode buf1 len (Some 0);
           n \<leftarrow> datalen;
           if n \<noteq> len then Some (READ_ERROR, buf1)
           else do { (t, _) \<leftarrow> readChar buf1 lenlen; Some (uint t, buf1) }
         })"

text \<open>The type read from a topic-type bit field; the value 3 counts as a normal topic.\<close>

definition topic_type_of :: "byte \<Rightarrow> topic_type" where
  "topic_type_of b = (if b = 2 then TShort else if b = 1 then TPredefined else TNormal)"

subsection \<open>What a sequence of writes produces\<close>

text \<open>\<open>wst orig out\<close>: the writer that has put \<open>out\<close> over the start of the buffer \<open>orig\<close>.\<close>

definition wst :: "byte list \<Rightarrow> byte list \<Rightarrow> writer" where
  "wst orig out = (out @ drop (length out) orig, length out)"

named_theorems wst_simps \<open>the effect of the write operations\<close>

lemma wst_start: "(buf, 0) = wst buf []"
  by (simp add: wst_def)

lemma writeChar_wst [wst_simps]:
  "length out < length orig \<Longrightarrow> writeChar c (wst orig out) = Some (wst orig (out @ [c]))"
  by (simp add: wst_def writeChar_def store_def list_update_append drop_update_first)

definition be16 :: "int \<Rightarrow> byte list" where
  "be16 n = [word_of_int (n sdiv 256), word_of_int (n smod 256)]"

lemma length_be16 [simp]: "length (be16 n) = 2"
  by (simp add: be16_def)

lemma writeInt_wst [wst_simps]:
  "length out + 2 \<le> length orig \<Longrightarrow> writeInt n (wst orig out) = Some (wst orig (out @ be16 n))"
  by (simp add: writeInt_def writeChar_wst be16_def)

lemma writeMem_wst [wst_simps]:
  "0 \<le> n \<Longrightarrow> nat n \<le> length src \<Longrightarrow> length out + nat n \<le> length orig \<Longrightarrow>
   writeMem (Some src) n (wst orig out) = Some (wst orig (out @ take (nat n) src))"
  by (auto simp: wst_def writeMem_def memcpy_in_range min_def add.commute)

lemma encode_wst [wst_simps]:
  "n \<le> 255 \<Longrightarrow> orig \<noteq> [] \<Longrightarrow> MQTTSNPacket_encode n (wst orig []) = Some (wst orig [word_of_int n])"
  using writeChar_wst [of "[]" orig "word_of_int n"]
  by (simp add: MQTTSNPacket_encode_def wst_def)

lemma finish_wst [wst_simps]:
  "finish (Some (wst orig out)) = Some (int (length out), out @ drop (length out) orig)"
  by (simp add: finish_def wst_def)

subsection \<open>Values of fields\<close>

lemma be16_value:
  assumes "0 \<le> n" and "n < 65536"
  shows "256 * uint (word_of_int (n sdiv 256) :: byte) + uint (word_of_int (n smod 256) :: byte) = n"
proof -
  have e: "n sdiv 256 = n div 256" "n smod 256 = n mod 256"
    using assms(1) by (cases "n = 0"; simp add: signed_divide_int_def signed_modulo_int_def sgn_if)+
  have "0 \<le> n div 256" "n div 256 < 256" "0 \<le> n mod 256" "n mod 256 < 256"
    using assms by auto
  then have "uint (word_of_int (n div 256) :: byte) = n div 256" "uint (word_of_int (n mod 256) :: byte) = n mod 256"
    by (simp_all add: uint_word_of_int)
  then show ?thesis by (simp add: e)
qed

lemma u16_range: "0 \<le> uint (w :: u16)" "uint (w :: u16) < 65536"
  using unsigned_less [of w] by simp_all

lemma be16_u16 [simp]:
  "256 * uint (word_of_int (uint w sdiv 256) :: byte) + uint (word_of_int (uint w smod 256) :: byte)
     = uint (w :: u16)"
  by (rule be16_value [OF u16_range])

text \<open>Reading back the flags that \<open>flags_all\<close> packs.\<close>

lemma flags_bit:
  "bit (flags_all f) n \<longleftrightarrow> n < 8 \<and>
     (if n < 2 then bit (fl_topicIdType f) n else if n = 2 then bit (fl_cleanSession f) 0
      else if n = 3 then bit (fl_will f) 0 else if n = 4 then bit (fl_retain f) 0
      else if n < 7 then bit (fl_QoS f) (n - 5) else bit (fl_dup f) 0)"
proof (cases "n < 8")
  case True
  then have "n \<in> {0, 1, 2, 3, 4, 5, 6, 7}" by auto
  then show ?thesis
    by (simp only: insert_iff empty_iff flags_all_def bit_or_iff bit_push_bit_iff bit_take_bit_iff)
       (elim disjE FalseE; simp)
next
  case False
  then show ?thesis using bit_imp_le_length [of "flags_all f" n] by auto
qed

lemma flags_fields:
  "get_topicIdType (flags_all f) = take_bit 2 (fl_topicIdType f)"
  "get_cleanSession (flags_all f) = take_bit 1 (fl_cleanSession f)"
  "get_will (flags_all f) = take_bit 1 (fl_will f)"
  "get_retain (flags_all f) = take_bit 1 (fl_retain f)"
  "get_QoS (flags_all f) = take_bit 2 (fl_QoS f)"
  "take_bit 1 (drop_bit 7 (flags_all f)) = take_bit 1 (fl_dup f)"
proof -
  show "get_topicIdType (flags_all f) = take_bit 2 (fl_topicIdType f)"
    by (simp only: get_topicIdType_def get_cleanSession_def get_will_def get_retain_def get_QoS_def,
        rule bit_word_eqI, simp only: bit_take_bit_iff bit_drop_bit_eq flags_bit o_def,
        auto simp: less_Suc_eq numeral_eq_Suc)
  show "get_cleanSession (flags_all f) = take_bit 1 (fl_cleanSession f)"
    by (simp only: get_topicIdType_def get_cleanSession_def get_will_def get_retain_def get_QoS_def,
        rule bit_word_eqI, simp only: bit_take_bit_iff bit_drop_bit_eq flags_bit o_def,
        auto simp: less_Suc_eq numeral_eq_Suc)
  show "get_will (flags_all f) = take_bit 1 (fl_will f)"
    by (simp only: get_topicIdType_def get_cleanSession_def get_will_def get_retain_def get_QoS_def,
        rule bit_word_eqI, simp only: bit_take_bit_iff bit_drop_bit_eq flags_bit o_def,
        auto simp: less_Suc_eq numeral_eq_Suc)
  show "get_retain (flags_all f) = take_bit 1 (fl_retain f)"
    by (simp only: get_topicIdType_def get_cleanSession_def get_will_def get_retain_def get_QoS_def,
        rule bit_word_eqI, simp only: bit_take_bit_iff bit_drop_bit_eq flags_bit o_def,
        auto simp: less_Suc_eq numeral_eq_Suc)
  show "get_QoS (flags_all f) = take_bit 2 (fl_QoS f)"
    by (simp only: get_topicIdType_def get_cleanSession_def get_will_def get_retain_def get_QoS_def,
        rule bit_word_eqI, simp only: bit_take_bit_iff bit_drop_bit_eq flags_bit o_def,
        auto simp: less_Suc_eq numeral_eq_Suc)
  show "take_bit 1 (drop_bit 7 (flags_all f)) = take_bit 1 (fl_dup f)"
    by (rule bit_word_eqI, simp only: bit_take_bit_iff bit_drop_bit_eq flags_bit o_def,
        auto simp: less_Suc_eq numeral_eq_Suc)
qed

lemma flags_dup: "get_dup (flags_all f) = (if take_bit 1 (fl_dup f) = 1 then - 1 else 0)"
  by (simp only: get_dup_def flags_fields)

subsection \<open>The interface of a packet kind\<close>

text \<open>
  A serializer and a deserializer of one packet kind, over the messages \<open>m\<close> it carries and their
  encoding \<open>wire m\<close>: the serializer writes the encoding when it fits the declared length of the
  buffer and nothing otherwise, the deserializer recovers the message from the encoding.
\<close>

locale packet_codec =
  fixes ser :: "byte list \<Rightarrow> int \<Rightarrow> 'm \<Rightarrow> (int \<times> byte list) option"
    and des :: "byte list \<Rightarrow> int \<Rightarrow> (int \<times> 'm option) option"
    and wire :: "'m \<Rightarrow> byte list"
    and ok :: "'m \<Rightarrow> bool"
  assumes ser_fits: "ok m \<Longrightarrow> int (length (wire m)) \<le> n \<Longrightarrow> n \<le> int (length buf) \<Longrightarrow>
      ser buf n m = Some (int (length (wire m)), wire m @ drop (length (wire m)) buf)"
    and ser_short: "ok m \<Longrightarrow> n < int (length (wire m)) \<Longrightarrow> ser buf n m = Some (BUFFER_TOO_SHORT, buf)"
    and des_wire: "ok m \<Longrightarrow> int (length (wire m)) \<le> n \<Longrightarrow> des (wire m @ rest) n = Some (1, Some m)"
begin

lemma roundtrip:
  assumes "ok m" and "int (length (wire m)) \<le> n" and "n \<le> int (length buf)"
  shows "\<exists>out. ser buf n m = Some (int (length (wire m)), out)
    \<and> des out (int (length (wire m))) = Some (1, Some m)"
  using ser_fits [OF assms] des_wire [OF assms(1), of "int (length (wire m))"] by simp

lemma in_bounds:
  assumes "ok m" and "0 \<le> n" and "n \<le> int (length buf)"
  shows "\<exists>rc out. ser buf n m = Some (rc, out) \<and> length out = length buf
    \<and> drop (nat n) out = drop (nat n) buf"
proof (cases "int (length (wire m)) \<le> n")
  case True
  then have "length (wire m) \<le> length buf" "length (wire m) \<le> nat n" using assms(3) by linarith+
  with ser_fits [OF assms(1) True assms(3)] show ?thesis by simp
next
  case False
  with ser_short [OF assms(1), of n buf] show ?thesis by simp
qed

lemma contract:
  assumes "ok m" and "0 \<le> n" and "n \<le> int (length buf)"
  shows "\<exists>rc out. ser buf n m = Some (rc, out) \<and> length out = length buf
    \<and> drop (nat n) out = drop (nat n) buf
    \<and> (if int (length (wire m)) \<le> n then rc = int (length (wire m)) \<and> des out rc = Some (1, Some m)
       else rc = BUFFER_TOO_SHORT \<and> out = buf)"
proof (cases "int (length (wire m)) \<le> n")
  case True
  from in_bounds [OF assms] roundtrip [OF assms(1) True assms(3)] True show ?thesis by auto
next
  case False
  with ser_short [OF assms(1), of n buf] show ?thesis by simp
qed

lemma wire_inj:
  assumes "ok m" and "ok m'" and "wire m = wire m'"
  shows "m = m'"
  using des_wire [OF assms(1), of "int (length (wire m))" "[]"]
    des_wire [OF assms(2), of "int (length (wire m))" "[]"] assms(3) by simp

end

text \<open>The length field of a packet of at most 255 bytes.\<close>

lemma byte_of_length:
  assumes "2 \<le> n" and "n \<le> 255"
  shows "uint (word_of_int n :: byte) = n" and "(word_of_int n :: byte) \<noteq> 1"
proof -
  show u: "uint (word_of_int n :: byte) = n" using assms by (simp add: uint_word_of_int)
  then show "(word_of_int n :: byte) \<noteq> 1" using assms(1) by auto
qed

lemma decode_length:
  "2 \<le> n \<Longrightarrow> n \<le> 255 \<Longrightarrow> 0 < buflen \<Longrightarrow>
   MQTTSNPacket_decode (word_of_int n # xs) buflen v = Some (1, Some n)"
  using byte_of_length [of n]
  by (simp add: MQTTSNPacket_decode_def readChar_def load_def)

lemma decode_length_lit:
  "k \<noteq> 1 \<Longrightarrow> 0 < buflen \<Longrightarrow> MQTTSNPacket_decode (k # xs) buflen v = Some (1, Some (uint k))"
  by (simp add: MQTTSNPacket_decode_def readChar_def load_def)

lemmas rd_simps = readChar_def readInt_def load_def

lemma ptr_at_append: "p = int (length pre) \<Longrightarrow> ptr_at (pre @ xs) p = Some xs"
  by (simp add: ptr_at_def)

text \<open>Topics as values, and what the deserializers' pointers denote.\<close>

datatype vtopic = VNormal u16 | VPredefined u16 | VShort byte byte | VLong "byte list"

fun to_topicid :: "vtopic \<Rightarrow> topicid" where
  "to_topicid (VNormal i) = \<lparr>tp_type = TNormal, tp_data = UId i\<rparr>"
| "to_topicid (VPredefined i) = \<lparr>tp_type = TPredefined, tp_data = UId i\<rparr>"
| "to_topicid (VShort a b) = \<lparr>tp_type = TShort, tp_data = UShort a b\<rparr>"
| "to_topicid (VLong n) = \<lparr>tp_type = TNormal, tp_data = ULong (Some n) (int (length n))\<rparr>"

definition deref_bytes :: "byte list option \<Rightarrow> int \<Rightarrow> byte list" where
  "deref_bytes p n = (case p of None \<Rightarrow> [] | Some xs \<Rightarrow> take (nat n) xs)"

definition of_topicid :: "topicid \<Rightarrow> vtopic" where
  "of_topicid t =
     (case tp_data t of
        UId i \<Rightarrow> if tp_type t = TNormal then VNormal i else VPredefined i
      | UShort a b \<Rightarrow> VShort a b
      | ULong p n \<Rightarrow> VLong (deref_bytes p n))"

text \<open>A string argument that holds \<open>xs\<close>, in either of its two forms, and the value of one read.\<close>

definition ms_holds :: "mstring \<Rightarrow> byte list \<Rightarrow> bool" where
  "ms_holds s xs \<longleftrightarrow>
     (\<exists>rest. ms_cstring s = Some (xs @ 0 # rest) \<and> 0 \<notin> set xs \<and> ms_len s \<le> 0)
     \<or> (\<exists>rest. ms_cstring s = None \<and> ms_len s = int (length xs) \<and> ms_data s = Some (xs @ rest))"

definition ms_of :: "byte list \<Rightarrow> mstring" where
  "ms_of xs = \<lparr>ms_cstring = None, ms_len = int (length xs), ms_data = Some xs\<rparr>"

definition ms_value :: "mstring \<Rightarrow> byte list" where
  "ms_value s = deref_bytes (ms_data s) (ms_len s)"

lemma ms_holds_of: "ms_holds (ms_of xs) xs"
  by (simp add: ms_holds_def ms_of_def)

lemma c_strlen_text: "0 \<notin> set xs \<Longrightarrow> c_strlen (xs @ 0 # rest) = Some (length xs)"
  by (induction xs) auto

lemma MQTTSNstrlen_holds: "ms_holds s xs \<Longrightarrow> MQTTSNstrlen s = Some (int (length xs))"
  by (auto simp: ms_holds_def MQTTSNstrlen_def c_strlen_text)

lemma writeMQTTSNString_wst [wst_simps]:
  assumes "ms_holds s xs" and "length out + length xs \<le> length orig"
  shows "writeMQTTSNString s (wst orig out) = Some (wst orig (out @ xs))"
  using assms(1) unfolding ms_holds_def
proof (elim disjE exE conjE)
  fix rest
  assume "ms_cstring s = Some (xs @ 0 # rest)" "0 \<notin> set xs" "ms_len s \<le> 0"
  with assms(2) show ?thesis
    by (simp add: writeMQTTSNString_def writeCString_def c_strlen_text wst_simps)
next
  fix rest
  assume "ms_cstring s = None" "ms_len s = int (length xs)" "ms_data s = Some (xs @ rest)"
  with assms(2) show ?thesis by (cases "xs = []") (simp_all add: writeMQTTSNString_def wst_simps)
qed

lemma readMQTTSNString_value:
  "0 \<le> p \<Longrightarrow> nat p \<le> length buf \<Longrightarrow> e = p + int (length xs) \<Longrightarrow> drop (nat p) buf = xs @ rest \<Longrightarrow>
   ms_value (fst (readMQTTSNString buf p e)) = xs"
  by (auto simp: readMQTTSNString_def Let_def ms_value_def deref_bytes_def ptr_at_def)

subsection \<open>Properties\<close>

text \<open>
  Lengths above 255 are encoded wrongly. The two length bytes overwrite the marker 1 and the
  third byte keeps what the buffer held before; reading the length back gives another number
  (except for 257 over a byte that happens to be 1).
\<close>

theorem long_length_misencoded:
  assumes "256 \<le> n" and "n < 512" and "3 \<le> length buf" and "n \<noteq> 257" and "3 \<le> buflen"
  shows "\<exists>out v. MQTTSNPacket_encode n (buf, 0) = Some (out, 3)
    \<and> MQTTSNPacket_decode out buflen (Some 0) = Some (3, Some v)
    \<and> v = 256 * (n - 256) + uint (buf ! 2) \<and> v \<noteq> n"
proof -
  obtain a b c rest where buf: "buf = a # b # c # rest"
    using assms(3) by (metis Suc_le_length_iff numeral_3_eq_3)
  define k where "k = n - 256"
  have k: "n = 256 + k" "0 \<le> k" "k < 256" using assms(1,2) by (simp_all add: k_def)
  have n: "n div 256 = 1" "n mod 256 = k" unfolding k(1) using k(2,3) by simp_all
  then have s: "n sdiv 256 = 1" "n smod 256 = k"
    using assms(1) by (simp_all add: signed_divide_int_def signed_modulo_int_def sgn_if)
  have u: "uint (word_of_int k :: byte) = k" using k(2,3) by (simp add: uint_word_of_int)
  have enc: "MQTTSNPacket_encode n (buf, 0) = Some (1 # word_of_int k # c # rest, 3)"
    using assms(1) by (simp add: buf MQTTSNPacket_encode_def writeChar_def writeInt_def store_def s)
  have dec: "MQTTSNPacket_decode (1 # word_of_int k # c # rest) buflen (Some 0)
      = Some (3, Some (256 * k + uint c))"
    using assms(5) by (simp add: MQTTSNPacket_decode_def rd_simps u)
  have "0 \<le> uint c" "uint c < 256" using unsigned_less [of c] by simp_all
  then have "256 * k + uint c \<noteq> n" unfolding k(1) using assms(4) k by linarith
  moreover have "256 * (n - 256) + uint (buf ! 2) = 256 * k + uint c" by (simp add: buf k_def)
  ultimately show ?thesis using enc dec by metis
qed

lemma long_length_misencoded_witness:
  "\<exists>out v. MQTTSNPacket_encode 300 ([0, 0, 7], 0) = Some (out, 3)
    \<and> MQTTSNPacket_decode out 3 (Some 0) = Some (3, Some v) \<and> v \<noteq> 300"
  using long_length_misencoded [of 300 "[0, 0, 7]" 3] by auto

end
