(* ===== verification/Packet_Publish.thy ===== *)
theory Packet_Publish
  imports Packet
begin

text \<open>
  Publishing and registering: \<open>MQTTSNSerializePublish.c\<close> and \<open>MQTTSNDeserializePublish.c\<close>.
  A deserializer's result is its return code and, when it assigned them, the values of its output
  parameters.
\<close>

subsection \<open>Serializers\<close>

definition MQTTSNSerialize_publishLength :: "int \<Rightarrow> topicid \<Rightarrow> int \<Rightarrow> int option" where
  "MQTTSNSerialize_publishLength payloadlen topic qos =
     (if tp_type topic = TNormal \<and> qos = 3
      then do { (_, len) \<leftarrow> union_long (tp_data topic); Some (payloadlen + (6 + len)) }
      else Some (payloadlen + 6))"

definition write_publish_topic :: "topicid \<Rightarrow> int \<Rightarrow> writer \<Rightarrow> writer option" where
  "write_publish_topic topic qos w =
     (if tp_type topic = TNormal \<and> qos = 3
      then do { (_, len) \<leftarrow> union_long (tp_data topic); writeInt len w }
      else if tp_type topic = TNormal \<or> tp_type topic = TPredefined
      then do { i \<leftarrow> union_id (tp_data topic); writeInt (uint i) w }
      else do { (a, b) \<leftarrow> union_short (tp_data topic); w1 \<leftarrow> writeChar a w; writeChar b w1 })"

definition MQTTSNSerialize_publish ::
  "byte list \<Rightarrow> int \<Rightarrow> byte \<Rightarrow> int \<Rightarrow> byte \<Rightarrow> u16 \<Rightarrow> topicid \<Rightarrow> byte list option \<Rightarrow> int
     \<Rightarrow> (int \<times> byte list) option" where
  "MQTTSNSerialize_publish buf buflen dup qos retained packetid topic payload payloadlen = do {
     n \<leftarrow> MQTTSNSerialize_publishLength payloadlen topic qos;
     let len = MQTTSNPacket_len n;
     if len > buflen then Some (BUFFER_TOO_SHORT, buf)
     else finish (do {
       w1 \<leftarrow> MQTTSNPacket_encode len (buf, 0);
       w2 \<leftarrow> writeChar (msg_code PUBLISH) w1;
       w3 \<leftarrow> writeChar (flags_all (flags_zero\<lparr>fl_dup := dup, fl_QoS := word_of_int qos,
                fl_retain := retained, fl_topicIdType := topic_type_code (tp_type topic)\<rparr>)) w2;
       w4 \<leftarrow> write_publish_topic topic qos w3;
       w5 \<leftarrow> writeInt (uint packetid) w4;
       w6 \<leftarrow> (if tp_type topic = TNormal \<and> qos = 3
              then do { (name, l) \<leftarrow> union_long (tp_data topic); writeMem name l w5 }
              else Some w5);
       writeMem payload payloadlen w6
     })
   }"

definition MQTTSNSerialize_puback ::
  "byte list \<Rightarrow> int \<Rightarrow> u16 \<Rightarrow> u16 \<Rightarrow> byte \<Rightarrow> (int \<times> byte list) option" where
  "MQTTSNSerialize_puback buf buflen topicid packetid returncode =
     (let len = MQTTSNPacket_len 6
      in if len > buflen then Some (BUFFER_TOO_SHORT, buf)
         else finish (do {
           w1 \<leftarrow> MQTTSNPacket_encode len (buf, 0);
           w2 \<leftarrow> writeChar (msg_code PUBACK) w1;
           w3 \<leftarrow> writeInt (uint topicid) w2;
           w4 \<leftarrow> writeInt (uint packetid) w3;
           writeChar returncode w4
         }))"

definition MQTTSNSerialize_ack ::
  "byte list \<Rightarrow> int \<Rightarrow> u16 \<Rightarrow> u16 \<Rightarrow> (int \<times> byte list) option" where
  "MQTTSNSerialize_ack buf buflen packet_type packetid =
     (let len = 4
      in if len > buflen then Some (BUFFER_TOO_SHORT, buf)
         else finish (do {
           w1 \<leftarrow> MQTTSNPacket_encode len (buf, 0);
           w2 \<leftarrow> writeChar (ucast packet_type) w1;
           writeInt (uint packetid) w2
         }))"

definition MQTTSNSerialize_pubrec :: "byte list \<Rightarrow> int \<Rightarrow> u16 \<Rightarrow> (int \<times> byte list) option" where
  "MQTTSNSerialize_pubrec buf buflen packetid = MQTTSNSerialize_ack buf buflen (ucast (msg_code PUBREC)) packetid"

definition MQTTSNSerialize_pubrel :: "byte list \<Rightarrow> int \<Rightarrow> u16 \<Rightarrow> (int \<times> byte list) option" where
  "MQTTSNSerialize_pubrel buf buflen packetid = MQTTSNSerialize_ack buf buflen (ucast (msg_code PUBREL)) packetid"

definition MQTTSNSerialize_pubcomp :: "byte list \<Rightarrow> int \<Rightarrow> u16 \<Rightarrow> (int \<times> byte list) option" where
  "MQTTSNSerialize_pubcomp buf buflen packetid = MQTTSNSerialize_ack buf buflen (ucast (msg_code PUBCOMP)) packetid"

definition MQTTSNSerialize_registerLength :: "int \<Rightarrow> int" where
  "MQTTSNSerialize_registerLength topicnamelen = topicnamelen + 5"

definition MQTTSNSerialize_register ::
  "byte list \<Rightarrow> int \<Rightarrow> u16 \<Rightarrow> u16 \<Rightarrow> mstring \<Rightarrow> (int \<times> byte list) option" where
  "MQTTSNSerialize_register buf buflen topicid packetid topicname = do {
     topicnamelen \<leftarrow> (case ms_cstring topicname of Some p \<Rightarrow> map_option int (c_strlen p)
                      | None \<Rightarrow> Some (ms_len topicname));
     let len = MQTTSNPacket_len (MQTTSNSerialize_registerLength topicnamelen);
     if len > buflen then Some (BUFFER_TOO_SHORT, buf)
     else finish (do {
       w1 \<leftarrow> MQTTSNPacket_encode len (buf, 0);
       w2 \<leftarrow> writeChar (msg_code REGISTER) w1;
       w3 \<leftarrow> writeInt (uint topicid) w2;
       w4 \<leftarrow> writeInt (uint packetid) w3;
       writeMem (case ms_cstring topicname of Some p \<Rightarrow> Some p | None \<Rightarrow> ms_data topicname) topicnamelen w4
     })
   }"

definition MQTTSNSerialize_regack ::
  "byte list \<Rightarrow> int \<Rightarrow> u16 \<Rightarrow> u16 \<Rightarrow> byte \<Rightarrow> (int \<times> byte list) option" where
  "MQTTSNSerialize_regack buf buflen topicid packetid return_code =
     (let len = MQTTSNPacket_len 6
      in if len > buflen then Some (BUFFER_TOO_SHORT, buf)
         else finish (do {
           w1 \<leftarrow> MQTTSNPacket_encode len (buf, 0);
           w2 \<leftarrow> writeChar (msg_code REGACK) w1;
           w3 \<leftarrow> writeInt (uint topicid) w2;
           w4 \<leftarrow> writeInt (uint packetid) w3;
           writeChar return_code w4
         }))"

subsection \<open>Deserializers\<close>

record publish_out =
  po_dup :: byte
  po_qos :: int
  po_retained :: byte
  po_packetid :: u16
  po_topic :: topicid
  po_payload :: "byte list option"
  po_payloadlen :: int

text \<open>The topic field: for a name at QoS -1 its length, the name itself comes later.\<close>

definition read_publish_topic ::
  "byte list \<Rightarrow> int \<Rightarrow> topic_type \<Rightarrow> int \<Rightarrow> (topic_union \<times> int) option" where
  "read_publish_topic buf p ty qos =
     (if ty = TNormal \<and> qos = 3
      then do { (l, p) \<leftarrow> readInt buf p; Some (ULong None l, p) }
      else if ty = TNormal \<or> ty = TPredefined
      then do { (i, p) \<leftarrow> readInt buf p; Some (UId (word_of_int i), p) }
      else do { (a, p) \<leftarrow> readChar buf p; (b, p) \<leftarrow> readChar buf p; Some (UShort a b, p) })"

definition MQTTSNDeserialize_publish :: "byte list \<Rightarrow> int \<Rightarrow> (int \<times> publish_out option) option" where
  "MQTTSNDeserialize_publish buf buflen = do {
     (rc, mylen) \<leftarrow> MQTTSNPacket_decode buf buflen (Some 0);
     enddata \<leftarrow> mylen;
     if enddata - rc > buflen then Some (rc, None)
     else do {
       (t, p) \<leftarrow> readChar buf rc;
       if t \<noteq> msg_code PUBLISH then Some (rc, None)
       else do {
         (fl, p) \<leftarrow> readChar buf p;
         let qos = uint (get_QoS fl);
         let ty = topic_type_of (get_topicIdType fl);
         (n, p) \<leftarrow> read_publish_topic buf p ty qos;
         (pid, p) \<leftarrow> readInt buf p;
         let (data, p) =
           (case n of ULong _ l \<Rightarrow> (ULong (ptr_at buf p) l, p + l) | _ \<Rightarrow> (n, p));
         Some (1, Some \<lparr>po_dup = get_dup fl, po_qos = qos, po_retained = get_retain fl,
                 po_packetid = word_of_int pid, po_topic = \<lparr>tp_type = ty, tp_data = data\<rparr>,
                 po_payload = ptr_at buf p, po_payloadlen = enddata - p\<rparr>)
       }
     }
   }"

definition MQTTSNDeserialize_puback :: "byte list \<Rightarrow> int \<Rightarrow> (int \<times> (u16 \<times> u16 \<times> byte) option) option" where
  "MQTTSNDeserialize_puback buf buflen = do {
     (rc, mylen) \<leftarrow> MQTTSNPacket_decode buf buflen (Some 0);
     enddata \<leftarrow> mylen;
     if enddata - rc > buflen then Some (rc, None)
     else do {
       (t, p) \<leftarrow> readChar buf rc;
       if t \<noteq> msg_code PUBACK then Some (rc, None)
       else do {
         (topicid, p) \<leftarrow> readInt buf p;
         (packetid, p) \<leftarrow> readInt buf p;
         (returncode, p) \<leftarrow> readChar buf p;
         Some (1, Some (word_of_int topicid, word_of_int packetid, returncode))
       }
     }
   }"

text \<open>The type is assigned before it is checked.\<close>

definition MQTTSNDeserialize_ack ::
  "byte list \<Rightarrow> int \<Rightarrow> (int \<times> byte option \<times> u16 option) option" where
  "MQTTSNDeserialize_ack buf buflen = do {
     (rc, mylen) \<leftarrow> MQTTSNPacket_decode buf buflen (Some 0);
     enddata \<leftarrow> mylen;
     if enddata - rc > buflen then Some (rc, None, None)
     else do {
       (t, p) \<leftarrow> readChar buf rc;
       if t \<noteq> msg_code PUBREL \<and> t \<noteq> msg_code PUBREC \<and> t \<noteq> msg_code PUBCOMP then Some (rc, Some t, None)
       else do {
         (packetid, p) \<leftarrow> readInt buf p;
         Some (1, Some t, Some (word_of_int packetid))
       }
     }
   }"

definition MQTTSNDeserialize_register :: "byte list \<Rightarrow> int \<Rightarrow> (int \<times> (u16 \<times> u16 \<times> mstring) option) option" where
  "MQTTSNDeserialize_register buf buflen = do {
     (rc, mylen) \<leftarrow> MQTTSNPacket_decode buf buflen (Some 0);
     enddata \<leftarrow> mylen;
     if enddata - rc > buflen then Some (rc, None)
     else do {
       (t, p) \<leftarrow> readChar buf rc;
       if t \<noteq> msg_code REGISTER then Some (rc, None)
       else do {
         (topicid, p) \<leftarrow> readInt buf p;
         (packetid, p) \<leftarrow> readInt buf p;
         Some (1, Some (word_of_int topicid, word_of_int packetid,
           \<lparr>ms_cstring = None, ms_len = enddata - p, ms_data = ptr_at buf p\<rparr>))
       }
     }
   }"

definition MQTTSNDeserialize_regack :: "byte list \<Rightarrow> int \<Rightarrow> (int \<times> (u16 \<times> u16 \<times> byte) option) option" where
  "MQTTSNDeserialize_regack buf buflen = do {
     (rc, mylen) \<leftarrow> MQTTSNPacket_decode buf buflen (Some 0);
     enddata \<leftarrow> mylen;
     if enddata - rc > buflen then Some (rc, None)
     else do {
       (t, p) \<leftarrow> readChar buf rc;
       if t \<noteq> msg_code REGACK then Some (rc, None)
       else do {
         (topicid, p) \<leftarrow> readInt buf p;
         (packetid, p) \<leftarrow> readInt buf p;
         (return_code, p) \<leftarrow> readChar buf p;
         Some (1, Some (word_of_int topicid, word_of_int packetid, return_code))
       }
     }
   }"

subsection \<open>The fixed-size acknowledgements\<close>

type_synonym ack_msg = "u16 \<times> u16 \<times> byte"

definition ack_wire :: "byte \<Rightarrow> ack_msg \<Rightarrow> byte list" where
  "ack_wire t = (\<lambda>(a, b, c). [7, t] @ be16 (uint a) @ be16 (uint b) @ [c])"

lemma ack7_writes:
  assumes "7 \<le> length buf"
  shows "finish (do { w1 \<leftarrow> MQTTSNPacket_encode 7 (buf, 0); w2 \<leftarrow> writeChar t w1; w3 \<leftarrow> writeInt (uint a) w2;
     w4 \<leftarrow> writeInt (uint b) w3; writeChar c w4 }) = Some (7, ack_wire t (a, b, c) @ drop 7 buf)"
proof -
  have "buf \<noteq> []" using assms by auto
  with assms show ?thesis by (simp add: ack_wire_def wst_simps wst_start)
qed

lemma ack7_fields:
  "readInt (ack_wire t (a, b, c) @ rest) 2 = Some (uint a, 4)"
  "readInt (ack_wire t (a, b, c) @ rest) 4 = Some (uint b, 6)"
  "readChar (ack_wire t (a, b, c) @ rest) 6 = Some (c, 7)"
  "readChar (ack_wire t (a, b, c) @ rest) 1 = Some (t, 2)"
  by (simp_all add: ack_wire_def be16_def rd_simps)

lemma ack7_decode: "0 < n \<Longrightarrow> MQTTSNPacket_decode (ack_wire t m @ rest) n v = Some (1, Some 7)"
  by (cases m) (simp add: ack_wire_def decode_length_lit)

lemma length_ack_wire [simp]: "length (ack_wire t m) = 7"
  by (cases m) (simp add: ack_wire_def)

interpretation puback: packet_codec
  "\<lambda>buf n (t, p, r). MQTTSNSerialize_puback buf n t p r" MQTTSNDeserialize_puback
  "ack_wire (msg_code PUBACK)" "\<lambda>_. True"
proof (unfold_locales, goal_cases)
  case (1 m n buf)
  then show ?case by (cases m) (simp add: MQTTSNSerialize_puback_def MQTTSNPacket_len_def ack7_writes del: msg_code.simps)
next
  case (2 m n buf)
  then show ?case by (cases m) (simp add: MQTTSNSerialize_puback_def MQTTSNPacket_len_def)
next
  case (3 m n rest)
  then show ?case
    by (cases m) (simp add: MQTTSNDeserialize_puback_def ack7_decode ack7_fields del: msg_code.simps)
qed

interpretation regack: packet_codec
  "\<lambda>buf n (t, p, r). MQTTSNSerialize_regack buf n t p r" MQTTSNDeserialize_regack
  "ack_wire (msg_code REGACK)" "\<lambda>_. True"
proof (unfold_locales, goal_cases)
  case (1 m n buf)
  then show ?case by (cases m) (simp add: MQTTSNSerialize_regack_def MQTTSNPacket_len_def ack7_writes del: msg_code.simps)
next
  case (2 m n buf)
  then show ?case by (cases m) (simp add: MQTTSNSerialize_regack_def MQTTSNPacket_len_def)
next
  case (3 m n rest)
  then show ?case
    by (cases m) (simp add: MQTTSNDeserialize_regack_def ack7_decode ack7_fields del: msg_code.simps)
qed

text \<open>The three acknowledgements of a QoS 2 exchange: a type and a packet id.\<close>

definition qos2_type :: "byte \<Rightarrow> bool" where
  "qos2_type t \<longleftrightarrow> t = msg_code PUBREL \<or> t = msg_code PUBREC \<or> t = msg_code PUBCOMP"

definition qos2_wire :: "byte \<times> u16 \<Rightarrow> byte list" where
  "qos2_wire = (\<lambda>(t, pid). [4, t] @ be16 (uint pid))"

definition ack_out :: "int \<times> byte option \<times> u16 option \<Rightarrow> int \<times> (byte \<times> u16) option" where
  "ack_out = (\<lambda>(rc, t, pid). (rc, case (t, pid) of (Some t, Some pid) \<Rightarrow> Some (t, pid) | _ \<Rightarrow> None))"

lemma ucast_byte_u16 [simp]: "(ucast (ucast (t :: byte) :: u16) :: byte) = t"
  by (simp add: ucast_up_ucast_id is_up)

interpretation qos2_ack: packet_codec
  "\<lambda>buf n (t, pid). MQTTSNSerialize_ack buf n (ucast t) pid"
  "\<lambda>buf n. map_option ack_out (MQTTSNDeserialize_ack buf n)" qos2_wire "\<lambda>(t, pid). qos2_type t"
proof (unfold_locales, goal_cases)
  case (1 m n buf)
  then have "buf \<noteq> []" by (cases m) (auto simp: qos2_wire_def)
  with 1 show ?case
    by (cases m) (simp add: MQTTSNSerialize_ack_def qos2_wire_def wst_simps wst_start)
next
  case (2 m n buf)
  then show ?case by (cases m) (simp add: MQTTSNSerialize_ack_def qos2_wire_def)
next
  case (3 m n rest)
  then show ?case
    by (cases m) (auto simp: MQTTSNDeserialize_ack_def qos2_wire_def decode_length_lit qos2_type_def ack_out_def
        be16_def rd_simps)
qed

subsection \<open>Register\<close>

type_synonym register_msg = "u16 \<times> u16 \<times> byte list"

definition register_wire :: "register_msg \<Rightarrow> byte list" where
  "register_wire = (\<lambda>(t, p, xs). [word_of_int (int (length xs) + 6), msg_code REGISTER]
     @ be16 (uint t) @ be16 (uint p) @ xs)"

definition register_ok :: "register_msg \<Rightarrow> bool" where
  "register_ok = (\<lambda>(t, p, xs). length xs \<le> 249)"

definition register_out :: "int \<times> (u16 \<times> u16 \<times> mstring) option \<Rightarrow> int \<times> register_msg option" where
  "register_out = (\<lambda>(rc, r). (rc, map_option (\<lambda>(t, p, s). (t, p, ms_value s)) r))"

lemma length_register_wire: "int (length (register_wire (t, p, xs))) = int (length xs) + 6"
  by (simp add: register_wire_def)

text \<open>Both forms of the topic name give the same packet.\<close>

lemma MQTTSNSerialize_register_form:
  assumes "ms_holds s xs" and "length buf \<noteq> 0" and "n \<le> int (length buf)" and "length xs \<le> 249"
  shows "MQTTSNSerialize_register buf n t p s =
    (if int (length xs) + 6 > n then Some (BUFFER_TOO_SHORT, buf)
     else Some (int (length xs) + 6, register_wire (t, p, xs) @ drop (length (register_wire (t, p, xs))) buf))"
proof -
  have len: "(case ms_cstring s of Some p \<Rightarrow> map_option int (c_strlen p) | None \<Rightarrow> Some (ms_len s))
      = Some (int (length xs))"
    using MQTTSNstrlen_holds [OF assms(1)] by (simp add: MQTTSNstrlen_def)
  obtain rest where src: "(case ms_cstring s of Some p \<Rightarrow> Some p | None \<Rightarrow> ms_data s) = Some (xs @ rest)"
    using assms(1) by (auto simp: ms_holds_def)
  have "buf \<noteq> []" using assms(2) by auto
  then show ?thesis
    using assms(3,4) unfolding MQTTSNSerialize_register_def len src
    by (auto simp: MQTTSNSerialize_registerLength_def MQTTSNPacket_len_def register_wire_def wst_simps wst_start)
qed

lemma register_decode:
  assumes "length xs \<le> 249" and "0 < n"
  shows "MQTTSNPacket_decode (register_wire (t, p, xs) @ rest) n v = Some (1, Some (int (length xs) + 6))"
proof -
  have "int (length xs) + 6 \<le> 255" using assms(1) by linarith
  from decode_length [OF _ this assms(2)] show ?thesis by (simp add: register_wire_def)
qed

lemma register_fields:
  "readChar (register_wire (t, p, xs) @ rest) 1 = Some (msg_code REGISTER, 2)"
  "readInt (register_wire (t, p, xs) @ rest) 2 = Some (uint t, 4)"
  "readInt (register_wire (t, p, xs) @ rest) 4 = Some (uint p, 6)"
  "ptr_at (register_wire (t, p, xs) @ rest) 6 = Some (xs @ rest)"
  by (simp_all add: register_wire_def be16_def rd_simps ptr_at_def)

interpretation register: packet_codec
  "\<lambda>buf n (t, p, xs). MQTTSNSerialize_register buf n t p (ms_of xs)"
  "\<lambda>buf n. map_option register_out (MQTTSNDeserialize_register buf n)" register_wire register_ok
proof (unfold_locales, goal_cases)
  case (1 m n buf)
  obtain t p xs where m: "m = (t, p, xs)" by (cases m)
  have "length buf \<noteq> 0" using 1(2,3) length_register_wire [of t p xs] unfolding m by auto
  with 1 m length_register_wire [of t p xs] MQTTSNSerialize_register_form [OF ms_holds_of, of buf n xs]
  show ?case by (simp add: register_ok_def)
next
  case (2 m n buf)
  obtain t p xs where m: "m = (t, p, xs)" by (cases m)
  with 2 show ?case
    using length_register_wire [of t p xs]
    by (simp add: MQTTSNSerialize_register_def ms_of_def MQTTSNSerialize_registerLength_def register_ok_def
        MQTTSNPacket_len_def)
next
  case (3 m n rest)
  obtain t p xs where m: "m = (t, p, xs)" by (cases m)
  have n: "0 < n" "int (length xs) + 6 \<le> n" using 3(2) length_register_wire [of t p xs] unfolding m by linarith+
  with 3 m register_decode [of xs n t p rest "Some 0"] register_fields [of t p xs rest] show ?case
    by (simp add: MQTTSNDeserialize_register_def register_ok_def register_out_def ms_value_def deref_bytes_def
        del: msg_code.simps)
qed

subsection \<open>Publish\<close>

record publish_msg =
  pm_dup :: bool
  pm_qos :: int
  pm_retained :: bool
  pm_packetid :: u16
  pm_topic :: vtopic
  pm_payload :: "byte list"

fun topic_field :: "vtopic \<Rightarrow> byte list" where
  "topic_field (VNormal i) = be16 (uint i)"
| "topic_field (VPredefined i) = be16 (uint i)"
| "topic_field (VShort a b) = [a, b]"
| "topic_field (VLong name) = be16 (int (length name))"

fun topic_name :: "vtopic \<Rightarrow> byte list" where
  "topic_name (VLong name) = name"
| "topic_name _ = []"

definition bit_byte :: "bool \<Rightarrow> byte" where
  "bit_byte b = (if b then 1 else 0)"

definition publish_flags :: "publish_msg \<Rightarrow> byte" where
  "publish_flags m = flags_all (flags_zero\<lparr>fl_dup := bit_byte (pm_dup m), fl_QoS := word_of_int (pm_qos m),
     fl_retain := bit_byte (pm_retained m), fl_topicIdType := topic_type_code (tp_type (to_topicid (pm_topic m)))\<rparr>)"

definition publish_size :: "publish_msg \<Rightarrow> int" where
  "publish_size m = int (length (topic_name (pm_topic m))) + int (length (pm_payload m)) + 7"

definition publish_wire :: "publish_msg \<Rightarrow> byte list" where
  "publish_wire m = [word_of_int (publish_size m), msg_code PUBLISH, publish_flags m]
     @ topic_field (pm_topic m) @ be16 (uint (pm_packetid m)) @ topic_name (pm_topic m) @ pm_payload m"

text \<open>The QoS is 0 to 3 (3 stands for -1); names are sent at QoS -1 only, and only there.\<close>

definition publish_ok :: "publish_msg \<Rightarrow> bool" where
  "publish_ok m \<longleftrightarrow> pm_qos m \<in> {0, 1, 2, 3} \<and> publish_size m \<le> 255 \<and>
     (case pm_topic m of VLong _ \<Rightarrow> pm_qos m = 3 | VNormal _ \<Rightarrow> pm_qos m \<noteq> 3 | _ \<Rightarrow> True)"

definition publish_send :: "byte list \<Rightarrow> int \<Rightarrow> publish_msg \<Rightarrow> (int \<times> byte list) option" where
  "publish_send buf n m = MQTTSNSerialize_publish buf n (bit_byte (pm_dup m)) (pm_qos m)
     (bit_byte (pm_retained m)) (pm_packetid m) (to_topicid (pm_topic m)) (Some (pm_payload m))
     (int (length (pm_payload m)))"

definition publish_value :: "publish_out \<Rightarrow> publish_msg" where
  "publish_value r = \<lparr>pm_dup = (po_dup r \<noteq> 0), pm_qos = po_qos r, pm_retained = (po_retained r \<noteq> 0),
     pm_packetid = po_packetid r, pm_topic = of_topicid (po_topic r),
     pm_payload = deref_bytes (po_payload r) (po_payloadlen r)\<rparr>"

definition publish_recv :: "byte list \<Rightarrow> int \<Rightarrow> (int \<times> publish_msg option) option" where
  "publish_recv buf n = map_option (\<lambda>(rc, r). (rc, map_option publish_value r)) (MQTTSNDeserialize_publish buf n)"

lemma length_topic_field [simp]: "length (topic_field t) = 2"
  by (cases t) simp_all

lemma length_publish_wire: "int (length (publish_wire m)) = publish_size m"
  by (simp add: publish_wire_def publish_size_def)

lemma publish_length:
  assumes "publish_ok m"
  shows "MQTTSNSerialize_publishLength (int (length (pm_payload m))) (to_topicid (pm_topic m)) (pm_qos m)
    = Some (publish_size m - 1)"
  using assms
  by (cases "pm_topic m") (auto simp: MQTTSNSerialize_publishLength_def publish_size_def publish_ok_def)

lemma write_topic_wst:
  assumes "publish_ok m" and "length out + 2 \<le> length orig"
  shows "write_publish_topic (to_topicid (pm_topic m)) (pm_qos m) (wst orig out) =
    Some (wst orig (out @ topic_field (pm_topic m)))"
  using assms by (cases "pm_topic m") (auto simp: write_publish_topic_def publish_ok_def wst_simps)

lemma write_name_wst:
  assumes "publish_ok m" and "length out + length (topic_name (pm_topic m)) \<le> length orig"
  shows "(if tp_type (to_topicid (pm_topic m)) = TNormal \<and> pm_qos m = 3
      then do { (name, l) \<leftarrow> union_long (tp_data (to_topicid (pm_topic m))); writeMem name l (wst orig out) }
      else Some (wst orig out)) = Some (wst orig (out @ topic_name (pm_topic m)))"
  using assms by (cases "pm_topic m") (auto simp: publish_ok_def wst_simps)

lemma publish_fits:
  assumes ok: "publish_ok m" and n: "publish_size m \<le> n" "n \<le> int (length buf)"
  shows "publish_send buf n m = Some (publish_size m, publish_wire m @ drop (nat (publish_size m)) buf)"
proof -
  let ?t = "topic_name (pm_topic m)"
  have L: "length ?t + length (pm_payload m) + 7 \<le> length buf" "publish_size m \<le> 255"
    using n ok by (auto simp: publish_size_def publish_ok_def)
  then have ne: "buf \<noteq> []" by auto
  have plen: "MQTTSNPacket_len (publish_size m - 1) = publish_size m"
    using L(2) by (simp add: MQTTSNPacket_len_def)
  have sz: "nat (publish_size m) = length (publish_wire m)" using length_publish_wire [of m] by simp
  have fin: "finish (Some (wst buf (publish_wire m))) =
      Some (publish_size m, publish_wire m @ drop (nat (publish_size m)) buf)"
    unfolding sz wst_simps length_publish_wire ..
  show ?thesis
    unfolding publish_send_def MQTTSNSerialize_publish_def publish_length [OF ok] bind.simps Let_def plen
    using L n ne fin
    by (simp add: wst_start wst_simps write_topic_wst [OF ok] write_name_wst [OF ok] publish_wire_def
        publish_flags_def del: msg_code.simps)
qed

lemma take_bit_2_small: "(q :: int) \<in> {0, 1, 2, 3} \<Longrightarrow> uint (take_bit 2 (word_of_int q :: byte)) = q"
  by auto

lemma topic_type_of_code: "topic_type_of (take_bit 2 (topic_type_code t)) = t"
  by (cases t) (simp_all add: topic_type_of_def)

lemma publish_flags_read:
  assumes "publish_ok m"
  shows "uint (get_QoS (publish_flags m)) = pm_qos m"
    and "(get_dup (publish_flags m) \<noteq> 0) = pm_dup m"
    and "(get_retain (publish_flags m) \<noteq> 0) = pm_retained m"
    and "topic_type_of (get_topicIdType (publish_flags m)) = tp_type (to_topicid (pm_topic m))"
  using assms take_bit_2_small [of "pm_qos m"]
  by (simp_all add: publish_ok_def publish_flags_def flags_fields flags_dup topic_type_of_code bit_byte_def)

lemma publish_decode:
  assumes "publish_ok m" and "0 < n"
  shows "MQTTSNPacket_decode (publish_wire m @ rest) n v = Some (1, Some (publish_size m))"
proof -
  have "2 \<le> publish_size m" "publish_size m \<le> 255" using assms(1) by (auto simp: publish_ok_def publish_size_def)
  from decode_length [OF this assms(2)] show ?thesis by (simp add: publish_wire_def)
qed

lemma publish_fields:
  "readChar (publish_wire m @ rest) 1 = Some (msg_code PUBLISH, 2)"
  "readChar (publish_wire m @ rest) 2 = Some (publish_flags m, 3)"
  "readInt (publish_wire m @ rest) 5 = Some (uint (pm_packetid m), 7)"
  by (cases "pm_topic m"; simp add: publish_wire_def be16_def rd_simps)+

lemma publish_ptr:
  "ptr_at (publish_wire m @ rest) 7 = Some (topic_name (pm_topic m) @ pm_payload m @ rest)"
  "ptr_at (publish_wire m @ rest) (7 + int (length (topic_name (pm_topic m)))) = Some (pm_payload m @ rest)"
proof -
  let ?h = "[word_of_int (publish_size m), msg_code PUBLISH, publish_flags m]
      @ topic_field (pm_topic m) @ be16 (uint (pm_packetid m))"
  have w: "publish_wire m @ rest = ?h @ topic_name (pm_topic m) @ pm_payload m @ rest"
    "publish_wire m @ rest = (?h @ topic_name (pm_topic m)) @ pm_payload m @ rest"
    by (simp_all add: publish_wire_def)
  show "ptr_at (publish_wire m @ rest) 7 = Some (topic_name (pm_topic m) @ pm_payload m @ rest)"
    unfolding w(1) by (rule ptr_at_append) simp
  show "ptr_at (publish_wire m @ rest) (7 + int (length (topic_name (pm_topic m)))) = Some (pm_payload m @ rest)"
    unfolding w(2) by (rule ptr_at_append) simp
qed

lemma publish_topic_read:
  assumes "publish_ok m"
  shows "read_publish_topic (publish_wire m @ rest) 3 (tp_type (to_topicid (pm_topic m))) (pm_qos m)
    = Some (case pm_topic m of VLong name \<Rightarrow> ULong None (int (length name)) | t \<Rightarrow> tp_data (to_topicid t), 5)"
proof (cases "pm_topic m")
  case (VLong name)
  then have "int (length name) \<le> 248" using assms(1) by (auto simp: publish_ok_def publish_size_def)
  then have "readInt (publish_wire m @ rest) 3 = Some (int (length name), 5)"
    using VLong be16_value [of "int (length name)"] by (simp add: publish_wire_def be16_def rd_simps)
  then show ?thesis using assms(1) VLong by (simp add: read_publish_topic_def publish_ok_def)
qed (use assms in \<open>auto simp: read_publish_topic_def publish_ok_def publish_wire_def be16_def rd_simps\<close>)

lemma publish_read:
  assumes ok: "publish_ok m" and n: "publish_size m \<le> n"
  shows "publish_recv (publish_wire m @ rest) n = Some (1, Some m)"
proof -
  let ?buf = "publish_wire m @ rest" and ?name = "topic_name (pm_topic m)"
  define u where "u = (case pm_topic m of VLong name \<Rightarrow> ULong None (int (length name)) | t \<Rightarrow> tp_data (to_topicid t))"
  note topic = publish_topic_read [OF ok, of rest, folded u_def]
  note ptr = publish_ptr [of m rest]
  obtain data p where dp: "(case u of ULong _ l \<Rightarrow> (ULong (ptr_at ?buf 7) l, 7 + l) | _ \<Rightarrow> (u, 7)) = (data, p)"
    by (cases "case u of ULong _ l \<Rightarrow> (ULong (ptr_at ?buf 7) l, 7 + l) | _ \<Rightarrow> (u, 7)")
  have p: "p = 7 + int (length ?name)"
    and topic_back: "of_topicid \<lparr>tp_type = tp_type (to_topicid (pm_topic m)), tp_data = data\<rparr> = pm_topic m"
    using dp ptr(1) by (cases "pm_topic m"; auto simp: u_def of_topicid_def deref_bytes_def)+
  have n0: "0 < n" "\<not> publish_size m - 1 > n" using n by (auto simp: publish_size_def)
  let ?r = "\<lparr>po_dup = get_dup (publish_flags m), po_qos = pm_qos m, po_retained = get_retain (publish_flags m),
      po_packetid = pm_packetid m, po_topic = \<lparr>tp_type = tp_type (to_topicid (pm_topic m)), tp_data = data\<rparr>,
      po_payload = ptr_at ?buf p, po_payloadlen = publish_size m - p\<rparr>"
  have "MQTTSNDeserialize_publish ?buf n = Some (1, Some ?r)"
    unfolding MQTTSNDeserialize_publish_def publish_decode [OF ok n0(1)]
    using n0(2) topic dp
    by (simp add: publish_fields publish_flags_read [OF ok] Let_def del: msg_code.simps)
  moreover have "publish_size m - p = int (length (pm_payload m))" by (simp add: p publish_size_def)
  ultimately show ?thesis
    using publish_flags_read [OF ok] topic_back ptr(2)
    by (simp add: publish_recv_def publish_value_def p deref_bytes_def)
qed

interpretation publish: packet_codec publish_send publish_recv publish_wire publish_ok
proof (unfold_locales, goal_cases)
  case (1 m n buf)
  have "nat (publish_size m) = length (publish_wire m)" unfolding length_publish_wire [symmetric] by simp
  with publish_fits [of m n buf] 1 show ?case by (simp add: length_publish_wire)
next
  case (2 m n buf)
  then have "publish_size m \<le> 255" "n < publish_size m" by (simp_all add: length_publish_wire publish_ok_def)
  with 2 publish_length [of m] show ?case
    by (simp add: publish_send_def MQTTSNSerialize_publish_def MQTTSNPacket_len_def)
next
  case (3 m n rest)
  then show ?case using publish_read [of m n rest] by (simp add: length_publish_wire)
qed

subsection \<open>Properties\<close>

text \<open>
  C27: for every publish message whose packet has at most 255 bytes, and every buffer, the
  serializer touches no byte beyond the declared length; when the packet fits it returns the size
  and the deserializer gets the same message back from the buffer, otherwise it reports
  \<open>MQTTSNPACKET_BUFFER_TOO_SHORT\<close> and leaves the buffer alone.
\<close>

theorem publish_packet_roundtrip:
  assumes "publish_ok m" and "0 \<le> n" and "n \<le> int (length buf)"
  shows "\<exists>rc out. publish_send buf n m = Some (rc, out) \<and> length out = length buf
    \<and> drop (nat n) out = drop (nat n) buf
    \<and> (if publish_size m \<le> n then rc = publish_size m \<and> publish_recv out rc = Some (1, Some m)
       else rc = BUFFER_TOO_SHORT \<and> out = buf)"
  using publish.contract [OF assms] unfolding length_publish_wire .

lemma publish_packet_roundtrip_witness:
  "\<exists>rc out. publish_send (replicate 10 0) 10
      \<lparr>pm_dup = True, pm_qos = 1, pm_retained = False, pm_packetid = 3, pm_topic = VShort 65 66, pm_payload = [1, 2]\<rparr>
      = Some (rc, out) \<and> rc = 9
    \<and> publish_recv out rc = Some (1, Some
      \<lparr>pm_dup = True, pm_qos = 1, pm_retained = False, pm_packetid = 3, pm_topic = VShort 65 66, pm_payload = [1, 2]\<rparr>)"
  using publish_packet_roundtrip
    [of "\<lparr>pm_dup = True, pm_qos = 1, pm_retained = False, pm_packetid = 3, pm_topic = VShort 65 66, pm_payload = [1, 2]\<rparr>"
      10 "replicate 10 0"]
  by (auto simp: publish_ok_def publish_size_def)

text \<open>
  The same for REGISTER, whichever of its two forms the topic name has.
\<close>

theorem register_packet_roundtrip:
  assumes "ms_holds s name" and "length name \<le> 249" and "0 < n" and "n \<le> int (length buf)"
  shows "\<exists>rc out. MQTTSNSerialize_register buf n t p s = Some (rc, out)
    \<and> (if int (length name) + 6 \<le> n
       then rc = int (length name) + 6 \<and> drop (nat rc) out = drop (nat rc) buf
         \<and> (\<exists>s'. MQTTSNDeserialize_register out rc = Some (1, Some (t, p, s')) \<and> ms_value s' = name)
       else rc = BUFFER_TOO_SHORT \<and> out = buf)"
proof (cases "int (length name) + 6 \<le> n")
  case True
  let ?w = "register_wire (t, p, name)"
  have len: "int (length ?w) = int (length name) + 6" by (rule length_register_wire)
  have "length buf \<noteq> 0" using assms(3,4) by auto
  from MQTTSNSerialize_register_form [OF assms(1) this assms(4,2), of t p] True
  have ser: "MQTTSNSerialize_register buf n t p s = Some (int (length name) + 6, ?w @ drop (length ?w) buf)"
    by simp
  have "map_option register_out (MQTTSNDeserialize_register (?w @ drop (length ?w) buf) (int (length name) + 6))
      = Some (1, Some (t, p, name))"
    using register.des_wire [of "(t, p, name)" "int (length name) + 6"] assms(2) len by (simp add: register_ok_def)
  then have "\<exists>s'. MQTTSNDeserialize_register (?w @ drop (length ?w) buf) (int (length name) + 6)
      = Some (1, Some (t, p, s')) \<and> ms_value s' = name"
    by (auto simp: register_out_def)
  moreover have "drop (nat (int (length name) + 6)) (?w @ drop (length ?w) buf)
      = drop (nat (int (length name) + 6)) buf"
    unfolding len [symmetric] by simp
  ultimately show ?thesis using ser True by simp
next
  case False
  have "length buf \<noteq> 0" using assms(3,4) by auto
  from MQTTSNSerialize_register_form [OF assms(1) this assms(4,2), of t p] False show ?thesis by simp
qed

lemma register_packet_roundtrip_witness:
  "\<exists>rc out. MQTTSNSerialize_register (replicate 20 0) 20 0 7 \<lparr>ms_cstring = Some [65, 66, 0], ms_len = 0, ms_data = None\<rparr>
      = Some (rc, out)
    \<and> rc = 8 \<and> (\<exists>s'. MQTTSNDeserialize_register out rc = Some (1, Some (0, 7, s')) \<and> ms_value s' = [65, 66])"
  using register_packet_roundtrip
    [of "\<lparr>ms_cstring = Some [65, 66, 0], ms_len = 0, ms_data = None\<rparr>" "[65, 66]" 20 "replicate 20 0" 0 7]
  by (auto simp: ms_holds_def)

text \<open>
  A packet of another type is reported as success. After the length byte the return code is
  the number of length bytes, 1, and the exits for a wrong type return it (the comments promise 1
  only for success); the outputs are not assigned.
\<close>

theorem wrong_type_returns_success:
  assumes "k \<noteq> 1" and "uint k - 1 \<le> n" and "0 < n"
  shows "(t \<noteq> msg_code PUBLISH \<longrightarrow> MQTTSNDeserialize_publish (k # t # rest) n = Some (1, None))
    \<and> (t \<noteq> msg_code PUBACK \<longrightarrow> MQTTSNDeserialize_puback (k # t # rest) n = Some (1, None))
    \<and> (t \<noteq> msg_code REGISTER \<longrightarrow> MQTTSNDeserialize_register (k # t # rest) n = Some (1, None))
    \<and> (t \<noteq> msg_code REGACK \<longrightarrow> MQTTSNDeserialize_regack (k # t # rest) n = Some (1, None))"
  using assms
  by (simp add: MQTTSNDeserialize_publish_def MQTTSNDeserialize_puback_def MQTTSNDeserialize_register_def
      MQTTSNDeserialize_regack_def decode_length_lit readChar_def load_def)

lemma wrong_type_returns_success_witness:
  "MQTTSNDeserialize_puback [7, 12, 0, 0, 0, 0, 0] 7 = Some (1, None)"
  using wrong_type_returns_success [of 7 7 12 "[0, 0, 0, 0, 0]"] by simp

text \<open>
  A received PUBLISH whose length byte is shorter than the fixed header (2 to 6) is accepted:
  the return code is 1 and the payload length is negative.
\<close>

theorem short_publish_negative_payload:
  assumes "2 \<le> uint k" and "uint k \<le> 6" and "uint k - 1 \<le> n" and "0 < n"
    and "topic_type_of (get_topicIdType f) \<noteq> TNormal \<or> get_QoS f \<noteq> 3"
  shows "\<exists>r. MQTTSNDeserialize_publish (k # msg_code PUBLISH # f # a # b # c # d # rest) n = Some (1, Some r)
    \<and> po_payloadlen r = uint k - 7 \<and> po_payloadlen r < 0"
proof -
  have k: "k \<noteq> 1" using assms(1) by auto
  have q: "uint (get_QoS f) = 3 \<longleftrightarrow> get_QoS f = 3" by (auto simp: word_uint_eq_iff)
  let ?buf = "k # msg_code PUBLISH # f # a # b # c # d # rest"
  have rd: "readInt ?buf 3 = Some (256 * uint a + uint b, 5)" "readChar ?buf 3 = Some (a, 4)"
    "readChar ?buf 4 = Some (b, 5)"
    by (simp_all add: rd_simps)
  have "\<exists>u. read_publish_topic ?buf 3 (topic_type_of (get_topicIdType f)) (uint (get_QoS f)) = Some (u, 5)
      \<and> (\<forall>p l. u \<noteq> ULong p l)"
    using assms(5) q
    by (cases "topic_type_of (get_topicIdType f)") (simp_all add: read_publish_topic_def rd del: msg_code.simps)
  then obtain u where
    u: "read_publish_topic ?buf 3 (topic_type_of (get_topicIdType f)) (uint (get_QoS f)) = Some (u, 5)"
    "\<forall>p l. u \<noteq> ULong p l"
    by blast
  have "readInt ?buf 5 = Some (256 * uint c + uint d, 7)" "readChar ?buf 1 = Some (msg_code PUBLISH, 2)"
    "readChar ?buf 2 = Some (f, 3)"
    by (simp_all add: rd_simps)
  with u assms(2-4) k show ?thesis
    by (cases u) (auto simp: MQTTSNDeserialize_publish_def decode_length_lit Let_def simp del: msg_code.simps)
qed

lemma short_publish_negative_payload_witness:
  "\<exists>r. MQTTSNDeserialize_publish [2, 12, 1, 0, 1, 0, 0] 2 = Some (1, Some r) \<and> po_payloadlen r = - 5"
  using short_publish_negative_payload [of 2 2 1 0 1 0 0 "[]"]
  by (auto simp: get_topicIdType_def topic_type_of_def)

end
