(* ===== verification/Packet_Connect.thy ===== *)
theory Packet_Connect
  imports Packet
begin

text \<open>
  Connecting, will handling, disconnecting and pinging: \<open>MQTTSNConnectClient.c\<close>,
  \<open>MQTTSNConnectServer.c\<close> and \<open>MQTTSNConnect.h\<close>. A variable that C leaves uninitialised
  (\<open>int mylen;\<close> in several deserializers) starts as \<open>None\<close>, and using it is \<open>None\<close>.
\<close>

record connectData =
  cd_struct_id :: "byte list"
  cd_struct_version :: int
  cd_clientID :: mstring
  cd_duration :: u16
  cd_cleansession :: byte
  cd_willFlag :: byte

definition connectData_initializer :: connectData where
  "connectData_initializer = \<lparr>cd_struct_id = [77, 81, 83, 67], cd_struct_version = 0,
     cd_clientID = \<lparr>ms_cstring = None, ms_len = 0, ms_data = None\<rparr>, cd_duration = 10,
     cd_cleansession = 1, cd_willFlag = 0\<rparr>"

subsection \<open>Client: serializers\<close>

definition MQTTSNSerialize_connectLength :: "connectData \<Rightarrow> int option" where
  "MQTTSNSerialize_connectLength options = map_option (\<lambda>l. 5 + l) (MQTTSNstrlen (cd_clientID options))"

definition MQTTSNSerialize_connect :: "byte list \<Rightarrow> int \<Rightarrow> connectData \<Rightarrow> (int \<times> byte list) option" where
  "MQTTSNSerialize_connect buf buflen options = do {
     n \<leftarrow> MQTTSNSerialize_connectLength options;
     let len = MQTTSNPacket_len n;
     if len > buflen then Some (BUFFER_TOO_SHORT, buf)
     else finish (do {
       w1 \<leftarrow> MQTTSNPacket_encode len (buf, 0);
       w2 \<leftarrow> writeChar (msg_code CONNECT) w1;
       w3 \<leftarrow> writeChar (flags_all (flags_zero\<lparr>fl_cleanSession := cd_cleansession options,
                fl_will := cd_willFlag options\<rparr>)) w2;
       w4 \<leftarrow> writeChar 1 w3;
       w5 \<leftarrow> writeInt (uint (cd_duration options)) w4;
       writeMQTTSNString (cd_clientID options) w5
     })
   }"

definition MQTTSNSerialize_disconnectLength :: "int \<Rightarrow> int" where
  "MQTTSNSerialize_disconnectLength duration = (if 0 \<le> duration then 3 else 1)"

definition MQTTSNSerialize_disconnect :: "byte list \<Rightarrow> int \<Rightarrow> int \<Rightarrow> (int \<times> byte list) option" where
  "MQTTSNSerialize_disconnect buf buflen duration =
     (let len = MQTTSNPacket_len (MQTTSNSerialize_disconnectLength duration)
      in if len > buflen then Some (BUFFER_TOO_SHORT, buf)
         else finish (do {
           w1 \<leftarrow> MQTTSNPacket_encode len (buf, 0);
           w2 \<leftarrow> writeChar (msg_code DISCONNECT) w1;
           if 0 \<le> duration then writeInt duration w2 else Some w2
         }))"

definition MQTTSNSerialize_pingreq :: "byte list \<Rightarrow> int \<Rightarrow> mstring \<Rightarrow> (int \<times> byte list) option" where
  "MQTTSNSerialize_pingreq buf buflen clientid = do {
     n \<leftarrow> MQTTSNstrlen clientid;
     let len = MQTTSNPacket_len (n + 1);
     if len > buflen then Some (BUFFER_TOO_SHORT, buf)
     else finish (do {
       w1 \<leftarrow> MQTTSNPacket_encode len (buf, 0);
       w2 \<leftarrow> writeChar (msg_code PINGREQ) w1;
       writeMQTTSNString clientid w2
     })
   }"

definition MQTTSNSerialize_willtopic1 ::
  "byte list \<Rightarrow> int \<Rightarrow> int \<Rightarrow> byte \<Rightarrow> mstring \<Rightarrow> msg_type \<Rightarrow> (int \<times> byte list) option" where
  "MQTTSNSerialize_willtopic1 buf buflen willQoS willRetain willTopic packet_type = do {
     n \<leftarrow> MQTTSNstrlen willTopic;
     let len = MQTTSNPacket_len (n + 2);
     if len > buflen then Some (BUFFER_TOO_SHORT, buf)
     else finish (do {
       w1 \<leftarrow> MQTTSNPacket_encode len (buf, 0);
       w2 \<leftarrow> writeChar (msg_code packet_type) w1;
       w3 \<leftarrow> writeChar (flags_all (flags_zero\<lparr>fl_QoS := word_of_int willQoS, fl_retain := willRetain\<rparr>)) w2;
       writeMQTTSNString willTopic w3
     })
   }"

definition MQTTSNSerialize_willtopicupd :: "byte list \<Rightarrow> int \<Rightarrow> int \<Rightarrow> byte \<Rightarrow> mstring \<Rightarrow> (int \<times> byte list) option" where
  "MQTTSNSerialize_willtopicupd buf buflen willQoS willRetain willTopic =
     MQTTSNSerialize_willtopic1 buf buflen willQoS willRetain willTopic WILLTOPICUPD"

definition MQTTSNSerialize_willtopic :: "byte list \<Rightarrow> int \<Rightarrow> int \<Rightarrow> byte \<Rightarrow> mstring \<Rightarrow> (int \<times> byte list) option" where
  "MQTTSNSerialize_willtopic buf buflen willQoS willRetain willTopic =
     MQTTSNSerialize_willtopic1 buf buflen willQoS willRetain willTopic WILLTOPIC"

definition MQTTSNSerialize_willmsg1 :: "byte list \<Rightarrow> int \<Rightarrow> mstring \<Rightarrow> msg_type \<Rightarrow> (int \<times> byte list) option" where
  "MQTTSNSerialize_willmsg1 buf buflen willMsg packet_type = do {
     n \<leftarrow> MQTTSNstrlen willMsg;
     let len = MQTTSNPacket_len (n + 1);
     if len > buflen then Some (BUFFER_TOO_SHORT, buf)
     else finish (do {
       w1 \<leftarrow> MQTTSNPacket_encode len (buf, 0);
       w2 \<leftarrow> writeChar (msg_code packet_type) w1;
       writeMQTTSNString willMsg w2
     })
   }"

definition MQTTSNSerialize_willmsg :: "byte list \<Rightarrow> int \<Rightarrow> mstring \<Rightarrow> (int \<times> byte list) option" where
  "MQTTSNSerialize_willmsg buf buflen willMsg = MQTTSNSerialize_willmsg1 buf buflen willMsg WILLMSG"

definition MQTTSNSerialize_willmsgupd :: "byte list \<Rightarrow> int \<Rightarrow> mstring \<Rightarrow> (int \<times> byte list) option" where
  "MQTTSNSerialize_willmsgupd buf buflen willMsg = MQTTSNSerialize_willmsg1 buf buflen willMsg WILLMSGUPD"

subsection \<open>Client: deserializers\<close>

text \<open>
  CONNACK, WILLTOPICRESP and WILLMSGRESP have the same shape, a return code; a \<open>char\<close> is sign
  extended into the \<open>int\<close>.
\<close>

definition MQTTSNDeserialize_connack :: "byte list \<Rightarrow> int \<Rightarrow> (int \<times> int option) option" where
  "MQTTSNDeserialize_connack buf buflen = do {
     (rc, mylen) \<leftarrow> MQTTSNPacket_decode buf buflen None;
     enddata \<leftarrow> mylen;
     if enddata < 3 then Some (rc, None)
     else do {
       (t, p) \<leftarrow> readChar buf rc;
       if t \<noteq> msg_code CONNACK then Some (rc, None)
       else do { (c, p) \<leftarrow> readChar buf p; Some (1, Some (sint c)) }
     }
   }"

definition MQTTSNDeserialize_pingresp :: "byte list \<Rightarrow> int \<Rightarrow> int option" where
  "MQTTSNDeserialize_pingresp buf buflen = do {
     (rc, mylen) \<leftarrow> MQTTSNPacket_decode buf buflen None;
     enddata \<leftarrow> mylen;
     if enddata - rc < 2 then Some rc
     else do {
       (t, p) \<leftarrow> readChar buf rc;
       if t \<noteq> msg_code PINGRESP then Some rc else Some 1
     }
   }"

definition MQTTSNDeserialize_willtopicreq :: "byte list \<Rightarrow> int \<Rightarrow> int option" where
  "MQTTSNDeserialize_willtopicreq buf buflen = do {
     (rc, mylen) \<leftarrow> MQTTSNPacket_decode buf buflen None;
     if rc \<noteq> 1 then Some (- 1)
     else do {
       n \<leftarrow> mylen;
       if n > buflen then Some BUFFER_TOO_SHORT
       else if n - 1 < 1 then Some (- 1)
       else do {
         (t, p) \<leftarrow> readChar buf 1;
         if t \<noteq> msg_code WILLTOPICREQ then Some (- 1) else Some 1
       }
     }
   }"

definition MQTTSNDeserialize_willmsgreq :: "byte list \<Rightarrow> int \<Rightarrow> int option" where
  "MQTTSNDeserialize_willmsgreq buf buflen = do {
     (rc, mylen) \<leftarrow> MQTTSNPacket_decode buf buflen None;
     if rc \<noteq> 1 then Some (- 1)
     else do {
       n \<leftarrow> mylen;
       if n > buflen then Some BUFFER_TOO_SHORT
       else if n - 1 < 1 then Some (- 1)
       else do {
         (t, p) \<leftarrow> readChar buf 1;
         if t \<noteq> msg_code WILLMSGREQ then Some (- 1) else Some 1
       }
     }
   }"

definition MQTTSNDeserialize_willtopicresp :: "byte list \<Rightarrow> int \<Rightarrow> (int \<times> int option) option" where
  "MQTTSNDeserialize_willtopicresp buf buflen = do {
     (rc, mylen) \<leftarrow> MQTTSNPacket_decode buf buflen None;
     enddata \<leftarrow> mylen;
     if enddata < 3 then Some (rc, None)
     else do {
       (t, p) \<leftarrow> readChar buf rc;
       if t \<noteq> msg_code WILLTOPICRESP then Some (rc, None)
       else do { (c, p) \<leftarrow> readChar buf p; Some (1, Some (sint c)) }
     }
   }"

definition MQTTSNDeserialize_willmsgresp :: "byte list \<Rightarrow> int \<Rightarrow> (int \<times> int option) option" where
  "MQTTSNDeserialize_willmsgresp buf buflen = do {
     (rc, mylen) \<leftarrow> MQTTSNPacket_decode buf buflen None;
     enddata \<leftarrow> mylen;
     if enddata < 3 then Some (rc, None)
     else do {
       (t, p) \<leftarrow> readChar buf rc;
       if t \<noteq> msg_code WILLMSGRESP then Some (rc, None)
       else do { (c, p) \<leftarrow> readChar buf p; Some (1, Some (sint c)) }
     }
   }"

subsection \<open>Gateway: serializers\<close>

definition MQTTSNSerialize_connack :: "byte list \<Rightarrow> int \<Rightarrow> int \<Rightarrow> (int \<times> byte list) option" where
  "MQTTSNSerialize_connack buf buflen connack_rc =
     (if buflen < 3 then Some (BUFFER_TOO_SHORT, buf)
      else finish (do {
        w1 \<leftarrow> MQTTSNPacket_encode 3 (buf, 0);
        w2 \<leftarrow> writeChar (msg_code CONNACK) w1;
        writeChar (word_of_int connack_rc) w2
      }))"

definition MQTTSNSerialize_willtopicreq :: "byte list \<Rightarrow> int \<Rightarrow> (int \<times> byte list) option" where
  "MQTTSNSerialize_willtopicreq buf buflen =
     (if buflen < 2 then Some (BUFFER_TOO_SHORT, buf)
      else finish (do {
        w1 \<leftarrow> MQTTSNPacket_encode 2 (buf, 0);
        writeChar (msg_code WILLTOPICREQ) w1
      }))"

definition MQTTSNSerialize_willmsgreq :: "byte list \<Rightarrow> int \<Rightarrow> (int \<times> byte list) option" where
  "MQTTSNSerialize_willmsgreq buf buflen =
     (if buflen < 2 then Some (BUFFER_TOO_SHORT, buf)
      else finish (do {
        w1 \<leftarrow> MQTTSNPacket_encode 2 (buf, 0);
        writeChar (msg_code WILLMSGREQ) w1
      }))"

definition MQTTSNSerialize_pingresp :: "byte list \<Rightarrow> int \<Rightarrow> (int \<times> byte list) option" where
  "MQTTSNSerialize_pingresp buf buflen =
     (if buflen < 2 then Some (BUFFER_TOO_SHORT, buf)
      else finish (do {
        w1 \<leftarrow> MQTTSNPacket_encode 2 (buf, 0);
        writeChar (msg_code PINGRESP) w1
      }))"

definition MQTTSNSerialize_willtopicresp :: "byte list \<Rightarrow> int \<Rightarrow> int \<Rightarrow> (int \<times> byte list) option" where
  "MQTTSNSerialize_willtopicresp buf buflen resp_rc =
     (if buflen < 3 then Some (BUFFER_TOO_SHORT, buf)
      else finish (do {
        w1 \<leftarrow> MQTTSNPacket_encode 3 (buf, 0);
        w2 \<leftarrow> writeChar (msg_code WILLTOPICRESP) w1;
        writeChar (word_of_int resp_rc) w2
      }))"

definition MQTTSNSerialize_willmsgresp :: "byte list \<Rightarrow> int \<Rightarrow> int \<Rightarrow> (int \<times> byte list) option" where
  "MQTTSNSerialize_willmsgresp buf buflen resp_rc =
     (if buflen < 3 then Some (BUFFER_TOO_SHORT, buf)
      else finish (do {
        w1 \<leftarrow> MQTTSNPacket_encode 3 (buf, 0);
        w2 \<leftarrow> writeChar (msg_code WILLMSGRESP) w1;
        writeChar (word_of_int resp_rc) w2
      }))"

subsection \<open>Gateway: deserializers\<close>

text \<open>\<open>MQTTSNDeserialize_connect\<close> fills in the structure it is given, field by field.\<close>

definition MQTTSNDeserialize_connect :: "connectData \<Rightarrow> byte list \<Rightarrow> int \<Rightarrow> (int \<times> connectData) option" where
  "MQTTSNDeserialize_connect data buf len = do {
     (rc, mylen) \<leftarrow> MQTTSNPacket_decode buf len (Some 0);
     enddata \<leftarrow> mylen;
     if enddata - rc < 2 then Some (rc, data)
     else do {
       (t, p) \<leftarrow> readChar buf rc;
       if t \<noteq> msg_code CONNECT then Some (rc, data)
       else do {
         (fl, p) \<leftarrow> readChar buf p;
         let data1 = data\<lparr>cd_cleansession := get_cleanSession fl, cd_willFlag := get_will fl\<rparr>;
         (version, p) \<leftarrow> readChar buf p;
         if version \<noteq> 1 then Some (rc, data1)
         else do {
           (d, p) \<leftarrow> readInt buf p;
           let data2 = data1\<lparr>cd_duration := word_of_int d\<rparr>;
           Some (1, data2\<lparr>cd_clientID := fst (readMQTTSNString buf p enddata)\<rparr>)
         }
       }
     }
   }"

definition MQTTSNDeserialize_disconnect :: "byte list \<Rightarrow> int \<Rightarrow> (int \<times> int option) option" where
  "MQTTSNDeserialize_disconnect buf buflen = do {
     (rc, mylen) \<leftarrow> MQTTSNPacket_decode buf buflen None;
     enddata \<leftarrow> mylen;
     if enddata - rc < 1 then Some (rc, None)
     else do {
       (t, p) \<leftarrow> readChar buf rc;
       if t \<noteq> msg_code DISCONNECT then Some (rc, None)
       else if enddata - p = 2 then do { (d, p) \<leftarrow> readInt buf p; Some (1, Some d) }
       else if enddata \<noteq> p then Some (rc, None)
       else Some (1, None)
     }
   }"

definition MQTTSNDeserialize_pingreq :: "byte list \<Rightarrow> int \<Rightarrow> (int \<times> mstring option) option" where
  "MQTTSNDeserialize_pingreq buf len = do {
     (rc, mylen) \<leftarrow> MQTTSNPacket_decode buf len (Some 0);
     enddata \<leftarrow> mylen;
     if enddata - rc < 1 then Some (rc, None)
     else do {
       (t, p) \<leftarrow> readChar buf rc;
       if t \<noteq> msg_code PINGREQ then Some (rc, None)
       else Some (1, Some (fst (readMQTTSNString buf p enddata)))
     }
   }"

definition MQTTSNDeserialize_willtopic1 ::
  "byte list \<Rightarrow> int \<Rightarrow> msg_type \<Rightarrow> (int \<times> (int \<times> byte \<times> mstring) option) option" where
  "MQTTSNDeserialize_willtopic1 buf len packet_type = do {
     (rc, mylen) \<leftarrow> MQTTSNPacket_decode buf len (Some 0);
     enddata \<leftarrow> mylen;
     if enddata > len then Some (rc, None)
     else do {
       (t, p) \<leftarrow> readChar buf rc;
       if t \<noteq> msg_code packet_type then Some (rc, None)
       else do {
         (fl, p) \<leftarrow> readChar buf p;
         Some (1, Some (uint (get_QoS fl), get_retain fl, fst (readMQTTSNString buf p enddata)))
       }
     }
   }"

definition MQTTSNDeserialize_willtopic :: "byte list \<Rightarrow> int \<Rightarrow> (int \<times> (int \<times> byte \<times> mstring) option) option" where
  "MQTTSNDeserialize_willtopic buf len = MQTTSNDeserialize_willtopic1 buf len WILLTOPIC"

definition MQTTSNDeserialize_willtopicupd :: "byte list \<Rightarrow> int \<Rightarrow> (int \<times> (int \<times> byte \<times> mstring) option) option" where
  "MQTTSNDeserialize_willtopicupd buf len = MQTTSNDeserialize_willtopic1 buf len WILLTOPICUPD"

definition MQTTSNDeserialize_willmsg1 :: "byte list \<Rightarrow> int \<Rightarrow> msg_type \<Rightarrow> (int \<times> mstring option) option" where
  "MQTTSNDeserialize_willmsg1 buf len packet_type = do {
     (rc, mylen) \<leftarrow> MQTTSNPacket_decode buf len (Some 0);
     enddata \<leftarrow> mylen;
     if enddata > len then Some (rc, None)
     else do {
       (t, p) \<leftarrow> readChar buf rc;
       if t \<noteq> msg_code packet_type then Some (rc, None)
       else Some (1, Some (fst (readMQTTSNString buf p enddata)))
     }
   }"

definition MQTTSNDeserialize_willmsg :: "byte list \<Rightarrow> int \<Rightarrow> (int \<times> mstring option) option" where
  "MQTTSNDeserialize_willmsg buf len = MQTTSNDeserialize_willmsg1 buf len WILLMSG"

definition MQTTSNDeserialize_willmsgupd :: "byte list \<Rightarrow> int \<Rightarrow> (int \<times> mstring option) option" where
  "MQTTSNDeserialize_willmsgupd buf len = MQTTSNDeserialize_willmsg1 buf len WILLMSGUPD"

subsection \<open>Disconnect and return codes\<close>

definition disconnect_wire :: "int option \<Rightarrow> byte list" where
  "disconnect_wire d = (case d of None \<Rightarrow> [2, msg_code DISCONNECT] | Some n \<Rightarrow> [4, msg_code DISCONNECT] @ be16 n)"

definition disconnect_ok :: "int option \<Rightarrow> bool" where
  "disconnect_ok d = (case d of None \<Rightarrow> True | Some n \<Rightarrow> 0 \<le> n \<and> n < 65536)"

text \<open>No duration is the argument \<open>-1\<close>.\<close>

definition duration_arg :: "int option \<Rightarrow> int" where
  "duration_arg d = (case d of None \<Rightarrow> - 1 | Some n \<Rightarrow> n)"

interpretation disconnect: packet_codec
  "\<lambda>buf n d. MQTTSNSerialize_disconnect buf n (duration_arg d)"
  "\<lambda>buf n. map_option (\<lambda>(rc, d). (rc, Some d)) (MQTTSNDeserialize_disconnect buf n)"
  disconnect_wire disconnect_ok
proof (unfold_locales, goal_cases)
  case (1 m n buf)
  then have "buf \<noteq> []" by (cases m) (auto simp: disconnect_wire_def)
  with 1 show ?case
    by (cases m) (simp_all add: MQTTSNSerialize_disconnect_def MQTTSNSerialize_disconnectLength_def duration_arg_def
        MQTTSNPacket_len_def disconnect_wire_def disconnect_ok_def wst_simps wst_start numeral_2_eq_2)
next
  case (2 m n buf)
  then show ?case
    by (cases m) (simp_all add: MQTTSNSerialize_disconnect_def MQTTSNSerialize_disconnectLength_def duration_arg_def
        MQTTSNPacket_len_def disconnect_wire_def disconnect_ok_def)
next
  case (3 m n rest)
  then show ?case
    by (cases m) (simp_all add: MQTTSNDeserialize_disconnect_def disconnect_wire_def disconnect_ok_def
        decode_length_lit rd_simps be16_def be16_value)
qed

definition rc_wire :: "byte \<Rightarrow> int \<Rightarrow> byte list" where
  "rc_wire t c = [3, t, word_of_int c]"

lemma sint_byte: "- 128 \<le> c \<Longrightarrow> c \<le> 127 \<Longrightarrow> sint (word_of_int c :: byte) = c"
  by (simp add: sint_sbintrunc' signed_take_bit_int_eq_self)

interpretation connack: packet_codec MQTTSNSerialize_connack MQTTSNDeserialize_connack
  "rc_wire (msg_code CONNACK)" "\<lambda>c. - 128 \<le> c \<and> c \<le> 127"
proof (unfold_locales, goal_cases)
  case (1 m n buf)
  then have "buf \<noteq> []" by (auto simp: rc_wire_def)
  with 1 show ?case
    by (simp add: MQTTSNSerialize_connack_def rc_wire_def wst_simps wst_start numeral_3_eq_3)
next
  case (2 m n buf)
  then show ?case by (simp add: MQTTSNSerialize_connack_def rc_wire_def)
next
  case (3 m n rest)
  then show ?case
    by (simp add: MQTTSNDeserialize_connack_def rc_wire_def decode_length_lit rd_simps sint_byte)
qed

subsection \<open>Packets that end in a string\<close>

text \<open>
  A header \<open>h\<close> after the length byte, and the string as the rest of the packet. The writers of
  CONNECT, PINGREQ, WILLTOPIC and WILLMSG all have this shape.
\<close>

definition string_wire :: "byte list \<Rightarrow> byte list \<Rightarrow> byte list" where
  "string_wire h xs = word_of_int (1 + int (length h) + int (length xs)) # h @ xs"

lemma length_string_wire: "int (length (string_wire h xs)) = 1 + int (length h) + int (length xs)"
  by (simp add: string_wire_def)

lemma string_wire_decode:
  assumes "h \<noteq> []" and "length h + length xs \<le> 254" and "0 < n"
  shows "MQTTSNPacket_decode (string_wire h xs @ rest) n v = Some (1, Some (1 + int (length h) + int (length xs)))"
proof -
  have "0 < length h" using assms(1) by simp
  then have b: "2 \<le> 1 + int (length h) + int (length xs)" "1 + int (length h) + int (length xs) \<le> 255"
    using assms(2) by linarith+
  from decode_length [OF b assms(3)] show ?thesis by (simp add: string_wire_def)
qed

lemma string_wire_char:
  "i < length h \<Longrightarrow> readChar (string_wire h xs @ rest) (1 + int i) = Some (h ! i, 2 + int i)"
  by (simp add: string_wire_def rd_simps nat_add_distrib nth_append)

lemma string_wire_value:
  "ms_value (fst (readMQTTSNString (string_wire h xs @ rest) (1 + int (length h)) (1 + int (length h) + int (length xs)))) = xs"
  by (rule readMQTTSNString_value [where rest = rest]) (simp_all add: string_wire_def nat_add_distrib)

lemma string_wire_finish:
  assumes "length h + length xs + 1 \<le> length buf"
  shows "finish (Some (wst buf (string_wire h xs))) =
    Some (1 + int (length h) + int (length xs), string_wire h xs @ drop (length (string_wire h xs)) buf)"
  by (simp only: finish_wst length_string_wire)

lemma will_topic_fits:
  assumes s: "ms_holds s xs" and "length xs \<le> 252" and n: "n \<le> int (length buf)"
  shows "MQTTSNSerialize_willtopic1 buf n q r s t =
    (let h = [msg_code t, flags_all (flags_zero\<lparr>fl_QoS := word_of_int q, fl_retain := r\<rparr>)]
     in if int (length xs) + 3 > n then Some (BUFFER_TOO_SHORT, buf)
        else Some (int (length xs) + 3, string_wire h xs @ drop (length (string_wire h xs)) buf))"
proof (cases "int (length xs) + 3 > n")
  case True
  with assms show ?thesis by (simp add: MQTTSNSerialize_willtopic1_def MQTTSNstrlen_holds [OF s] MQTTSNPacket_len_def)
next
  case False
  then have l: "length xs + 3 \<le> length buf" using n by linarith
  then have "buf \<noteq> []" by auto
  with l False assms(2) show ?thesis
    unfolding MQTTSNSerialize_willtopic1_def MQTTSNstrlen_holds [OF s] bind.simps
    by (simp add: MQTTSNPacket_len_def wst_start wst_simps writeMQTTSNString_wst [OF s] string_wire_def Let_def
        add.commute del: msg_code.simps)
qed

lemma will_msg_fits:
  assumes s: "ms_holds s xs" and "length xs \<le> 253" and n: "n \<le> int (length buf)"
  shows "MQTTSNSerialize_willmsg1 buf n s t =
    (if int (length xs) + 2 > n then Some (BUFFER_TOO_SHORT, buf)
     else Some (int (length xs) + 2, string_wire [msg_code t] xs @ drop (length (string_wire [msg_code t] xs)) buf))"
proof (cases "int (length xs) + 2 > n")
  case True
  with assms show ?thesis by (simp add: MQTTSNSerialize_willmsg1_def MQTTSNstrlen_holds [OF s] MQTTSNPacket_len_def)
next
  case False
  then have l: "length xs + 2 \<le> length buf" using n by linarith
  then have "buf \<noteq> []" by auto
  with l False assms(2) show ?thesis
    unfolding MQTTSNSerialize_willmsg1_def MQTTSNstrlen_holds [OF s] bind.simps
    by (simp add: MQTTSNPacket_len_def wst_start wst_simps writeMQTTSNString_wst [OF s] string_wire_def
        add.commute del: msg_code.simps)
qed

lemma connect_fits:
  assumes s: "ms_holds (cd_clientID d) xs" and "length xs \<le> 249" and n: "n \<le> int (length buf)"
  defines "h \<equiv> [msg_code CONNECT, flags_all (flags_zero\<lparr>fl_cleanSession := cd_cleansession d,
      fl_will := cd_willFlag d\<rparr>), 1] @ be16 (uint (cd_duration d))"
  shows "MQTTSNSerialize_connect buf n d =
    (if int (length xs) + 6 > n then Some (BUFFER_TOO_SHORT, buf)
     else Some (int (length xs) + 6, string_wire h xs @ drop (length (string_wire h xs)) buf))"
proof (cases "int (length xs) + 6 > n")
  case True
  with assms(1-3) show ?thesis
    by (simp add: MQTTSNSerialize_connect_def MQTTSNSerialize_connectLength_def MQTTSNstrlen_holds [OF s] MQTTSNPacket_len_def)
next
  case False
  then have l: "length xs + 6 \<le> length buf" using n by linarith
  then have "buf \<noteq> []" by auto
  with l False assms(2) show ?thesis
    unfolding MQTTSNSerialize_connect_def MQTTSNSerialize_connectLength_def MQTTSNstrlen_holds [OF s]
    by (simp add: MQTTSNPacket_len_def wst_start wst_simps writeMQTTSNString_wst [OF s] string_wire_def h_def
        add.commute del: msg_code.simps)
qed

subsection \<open>Properties\<close>



text \<open>
  DISCONNECT, with a sleep duration of 0 to 65535 seconds or without one, round-trips; the
  deserializer reports the duration exactly when the packet has one.
\<close>

theorem disconnect_packet_roundtrip:
  assumes "case d of None \<Rightarrow> True | Some t \<Rightarrow> 0 \<le> t \<and> t < 65536" and "4 \<le> n" and "n \<le> int (length buf)"
  shows "\<exists>rc out. MQTTSNSerialize_disconnect buf n (case d of None \<Rightarrow> - 1 | Some t \<Rightarrow> t) = Some (rc, out)
    \<and> rc = (case d of None \<Rightarrow> 2 | Some _ \<Rightarrow> 4) \<and> drop (nat n) out = drop (nat n) buf
    \<and> MQTTSNDeserialize_disconnect out rc = Some (1, d)"
proof -
  have len: "int (length (disconnect_wire d)) = (case d of None \<Rightarrow> 2 | Some _ \<Rightarrow> 4)"
    by (cases d) (simp_all add: disconnect_wire_def)
  then have le: "int (length (disconnect_wire d)) \<le> n" using assms(2) by (cases d) simp_all
  have ok: "disconnect_ok d" using assms(1) by (simp add: disconnect_ok_def)
  from disconnect.contract [OF ok _ assms(3)] assms(2) le obtain rc out where
    "MQTTSNSerialize_disconnect buf n (duration_arg d) = Some (rc, out)" "drop (nat n) out = drop (nat n) buf"
    "rc = int (length (disconnect_wire d))"
    "map_option (\<lambda>(rc, d). (rc, Some d)) (MQTTSNDeserialize_disconnect out rc) = Some (1, Some d)"
    by auto
  then show ?thesis by (auto simp: duration_arg_def len)
qed

lemma disconnect_packet_roundtrip_witness:
  "\<exists>rc out. MQTTSNSerialize_disconnect (replicate 4 0) 4 600 = Some (rc, out) \<and> rc = 4
    \<and> MQTTSNDeserialize_disconnect out rc = Some (1, Some 600)"
  using disconnect_packet_roundtrip [of "Some 600" 4 "replicate 4 0"] by auto

text \<open>
  WILLTOPIC and WILLMSG (and their update forms) round-trip: the gateway reads the QoS, the
  retain flag, the topic and the message that the client wrote.
\<close>

theorem will_packets_roundtrip:
  assumes "ms_holds s topic" and "length topic \<le> 252" and "ms_holds s' msg" and "length msg \<le> 253"
    and "q \<in> {0, 1, 2, 3}" and "r \<in> {0, 1}"
    and "int (length topic) + 3 \<le> n" and "int (length msg) + 2 \<le> n" and "n \<le> int (length buf)"
  shows "(\<exists>rc out v. MQTTSNSerialize_willtopic1 buf n q r s t = Some (rc, out)
      \<and> MQTTSNDeserialize_willtopic1 out rc t = Some (1, Some (q, r, v)) \<and> ms_value v = topic)
    \<and> (\<exists>rc out v. MQTTSNSerialize_willmsg1 buf n s' t = Some (rc, out)
      \<and> MQTTSNDeserialize_willmsg1 out rc t = Some (1, Some v) \<and> ms_value v = msg)"
proof
  define fl where "fl = flags_all (flags_zero\<lparr>fl_QoS := word_of_int q, fl_retain := r\<rparr>)"
  let ?w = "string_wire [msg_code t, fl] topic" let ?out = "?w @ drop (length ?w) buf"
  let ?n = "int (length topic) + 3"
  have "MQTTSNPacket_decode ?out ?n (Some 0) = Some (1, Some ?n)"
    using string_wire_decode [of "[msg_code t, fl]" topic ?n] assms(2) by (simp add: add.commute)
  moreover have "readChar ?out 1 = Some (msg_code t, 2)" "readChar ?out 2 = Some (fl, 3)"
    by (simp_all add: string_wire_def rd_simps)
  moreover have "ms_value (fst (readMQTTSNString ?out 3 ?n)) = topic"
    using string_wire_value [of "[msg_code t, fl]" topic "drop (length ?w) buf"] by (simp add: add.commute)
  moreover have "uint (get_QoS fl) = q" "get_retain fl = r"
    using assms(5,6) by (auto simp: fl_def flags_fields)
  moreover have "MQTTSNSerialize_willtopic1 buf n q r s t = Some (?n, ?out)"
    using will_topic_fits [OF assms(1,2,9), of q r t] assms(7) by (simp add: Let_def fl_def)
  ultimately show "\<exists>rc out v. MQTTSNSerialize_willtopic1 buf n q r s t = Some (rc, out)
      \<and> MQTTSNDeserialize_willtopic1 out rc t = Some (1, Some (q, r, v)) \<and> ms_value v = topic"
    by (simp add: MQTTSNDeserialize_willtopic1_def)
next
  let ?w = "string_wire [msg_code t] msg" let ?out = "?w @ drop (length ?w) buf"
  let ?n = "int (length msg) + 2"
  have "MQTTSNPacket_decode ?out ?n (Some 0) = Some (1, Some ?n)"
    using string_wire_decode [of "[msg_code t]" msg ?n] assms(4) by (simp add: add.commute)
  moreover have "readChar ?out 1 = Some (msg_code t, 2)" by (simp add: string_wire_def rd_simps)
  moreover have "ms_value (fst (readMQTTSNString ?out 2 ?n)) = msg"
    using string_wire_value [of "[msg_code t]" msg "drop (length ?w) buf"] by (simp add: add.commute)
  moreover have "MQTTSNSerialize_willmsg1 buf n s' t = Some (?n, ?out)"
    using will_msg_fits [OF assms(3,4,9), of t] assms(8) by simp
  ultimately show "\<exists>rc out v. MQTTSNSerialize_willmsg1 buf n s' t = Some (rc, out)
      \<and> MQTTSNDeserialize_willmsg1 out rc t = Some (1, Some v) \<and> ms_value v = msg"
    by (simp add: MQTTSNDeserialize_willmsg1_def)
qed

lemma will_packets_roundtrip_witness:
  "(\<exists>rc out v. MQTTSNSerialize_willtopic1 (replicate 9 0) 9 2 1 (ms_of [65]) WILLTOPIC = Some (rc, out)
      \<and> MQTTSNDeserialize_willtopic1 out rc WILLTOPIC = Some (1, Some (2, 1, v)) \<and> ms_value v = [65])
    \<and> (\<exists>rc out v. MQTTSNSerialize_willmsg1 (replicate 9 0) 9 (ms_of [66, 67]) WILLTOPIC = Some (rc, out)
      \<and> MQTTSNDeserialize_willmsg1 out rc WILLTOPIC = Some (1, Some v) \<and> ms_value v = [66, 67])"
  by (rule will_packets_roundtrip) (simp_all add: ms_holds_of)

end
