(* ===== verification/Packet_Subscribe.thy ===== *)
theory Packet_Subscribe
  imports Packet
begin

text \<open>
  Subscribing, unsubscribing and gateway discovery: \<open>MQTTSNSubscribeClient.c\<close>,
  \<open>MQTTSNSubscribeServer.c\<close>, \<open>MQTTSNUnsubscribeClient.c\<close>, \<open>MQTTSNUnsubscribeServer.c\<close>,
  \<open>MQTTSNSearchClient.c\<close> and \<open>MQTTSNSearchServer.c\<close>.
\<close>

subsection \<open>Subscribe and unsubscribe: serializers\<close>

definition MQTTSNSerialize_subscribeLength :: "topicid \<Rightarrow> int option" where
  "MQTTSNSerialize_subscribeLength topicFilter =
     (if tp_type topicFilter = TNormal
      then do { (_, len) \<leftarrow> union_long (tp_data topicFilter); Some (4 + len) }
      else if tp_type topicFilter = TShort \<or> tp_type topicFilter = TPredefined
      then Some (4 + 2) else Some 4)"

definition write_topic_filter :: "topicid \<Rightarrow> writer \<Rightarrow> writer option" where
  "write_topic_filter topicFilter w =
     (if tp_type topicFilter = TNormal
      then do { (name, len) \<leftarrow> union_long (tp_data topicFilter); writeMem name len w }
      else if tp_type topicFilter = TPredefined
      then do { i \<leftarrow> union_id (tp_data topicFilter); writeInt (uint i) w }
      else if tp_type topicFilter = TShort
      then do { (a, b) \<leftarrow> union_short (tp_data topicFilter); w1 \<leftarrow> writeChar a w; writeChar b w1 }
      else Some w)"

definition MQTTSNSerialize_subscribe ::
  "byte list \<Rightarrow> int \<Rightarrow> byte \<Rightarrow> int \<Rightarrow> u16 \<Rightarrow> topicid \<Rightarrow> (int \<times> byte list) option" where
  "MQTTSNSerialize_subscribe buf buflen dup qos packetid topicFilter = do {
     n \<leftarrow> MQTTSNSerialize_subscribeLength topicFilter;
     let len = MQTTSNPacket_len n;
     if len > buflen then Some (BUFFER_TOO_SHORT, buf)
     else finish (do {
       w1 \<leftarrow> MQTTSNPacket_encode len (buf, 0);
       w2 \<leftarrow> writeChar (msg_code SUBSCRIBE) w1;
       w3 \<leftarrow> writeChar (flags_all (flags_zero\<lparr>fl_dup := dup, fl_QoS := word_of_int qos,
                fl_topicIdType := topic_type_code (tp_type topicFilter)\<rparr>)) w2;
       w4 \<leftarrow> writeInt (uint packetid) w3;
       write_topic_filter topicFilter w4
     })
   }"

definition MQTTSNSerialize_suback ::
  "byte list \<Rightarrow> int \<Rightarrow> int \<Rightarrow> u16 \<Rightarrow> u16 \<Rightarrow> byte \<Rightarrow> (int \<times> byte list) option" where
  "MQTTSNSerialize_suback buf buflen qos topicid packetid returncode =
     (let len = MQTTSNPacket_len 7
      in if len > buflen then Some (BUFFER_TOO_SHORT, buf)
         else finish (do {
           w1 \<leftarrow> MQTTSNPacket_encode len (buf, 0);
           w2 \<leftarrow> writeChar (msg_code SUBACK) w1;
           w3 \<leftarrow> writeChar (flags_all (flags_zero\<lparr>fl_QoS := word_of_int qos\<rparr>)) w2;
           w4 \<leftarrow> writeInt (uint topicid) w3;
           w5 \<leftarrow> writeInt (uint packetid) w4;
           writeChar returncode w5
         }))"

definition MQTTSNSerialize_unsubscribeLength :: "topicid \<Rightarrow> int option" where
  "MQTTSNSerialize_unsubscribeLength topicFilter =
     (if tp_type topicFilter = TNormal
      then do { (_, len) \<leftarrow> union_long (tp_data topicFilter); Some (4 + len) }
      else if tp_type topicFilter = TShort \<or> tp_type topicFilter = TPredefined
      then Some (4 + 2) else Some 4)"

definition MQTTSNSerialize_unsubscribe :: "byte list \<Rightarrow> int \<Rightarrow> u16 \<Rightarrow> topicid \<Rightarrow> (int \<times> byte list) option" where
  "MQTTSNSerialize_unsubscribe buf buflen packetid topicFilter = do {
     n \<leftarrow> MQTTSNSerialize_unsubscribeLength topicFilter;
     let len = MQTTSNPacket_len n;
     if len > buflen then Some (BUFFER_TOO_SHORT, buf)
     else finish (do {
       w1 \<leftarrow> MQTTSNPacket_encode len (buf, 0);
       w2 \<leftarrow> writeChar (msg_code UNSUBSCRIBE) w1;
       w3 \<leftarrow> writeChar (flags_all (flags_zero\<lparr>fl_topicIdType := topic_type_code (tp_type topicFilter)\<rparr>)) w2;
       w4 \<leftarrow> writeInt (uint packetid) w3;
       write_topic_filter topicFilter w4
     })
   }"

text \<open>\<open>MQTTSNSerialize_unsuback\<close> declares a packet of 8 bytes and writes 4 of them.\<close>

definition MQTTSNSerialize_unsuback :: "byte list \<Rightarrow> int \<Rightarrow> u16 \<Rightarrow> (int \<times> byte list) option" where
  "MQTTSNSerialize_unsuback buf buflen packetid =
     (let len = MQTTSNPacket_len 7
      in if len > buflen then Some (BUFFER_TOO_SHORT, buf)
         else finish (do {
           w1 \<leftarrow> MQTTSNPacket_encode len (buf, 0);
           w2 \<leftarrow> writeChar (msg_code UNSUBACK) w1;
           writeInt (uint packetid) w2
         }))"

subsection \<open>Subscribe and unsubscribe: deserializers\<close>

definition read_topic_filter :: "byte list \<Rightarrow> int \<Rightarrow> int \<Rightarrow> topic_type \<Rightarrow> topicid option" where
  "read_topic_filter buf p enddata ty =
     (if ty = TNormal
      then Some \<lparr>tp_type = ty, tp_data = ULong (ptr_at buf p) (enddata - p)\<rparr>
      else if ty = TPredefined
      then do { (i, p) \<leftarrow> readInt buf p; Some \<lparr>tp_type = ty, tp_data = UId (word_of_int i)\<rparr> }
      else do { (a, p) \<leftarrow> readChar buf p; (b, p) \<leftarrow> readChar buf p;
                Some \<lparr>tp_type = ty, tp_data = UShort a b\<rparr> })"

definition MQTTSNDeserialize_suback :: "byte list \<Rightarrow> int \<Rightarrow> (int \<times> (int \<times> u16 \<times> u16 \<times> byte) option) option" where
  "MQTTSNDeserialize_suback buf buflen = do {
     (rc, mylen) \<leftarrow> MQTTSNPacket_decode buf buflen (Some 0);
     enddata \<leftarrow> mylen;
     if enddata - rc > buflen then Some (rc, None)
     else do {
       (t, p) \<leftarrow> readChar buf rc;
       if t \<noteq> msg_code SUBACK then Some (rc, None)
       else do {
         (fl, p) \<leftarrow> readChar buf p;
         (topicid, p) \<leftarrow> readInt buf p;
         (packetid, p) \<leftarrow> readInt buf p;
         (returncode, p) \<leftarrow> readChar buf p;
         Some (1, Some (uint (get_QoS fl), word_of_int topicid, word_of_int packetid, returncode))
       }
     }
   }"

definition MQTTSNDeserialize_subscribe ::
  "byte list \<Rightarrow> int \<Rightarrow> (int \<times> (byte \<times> int \<times> u16 \<times> topicid) option) option" where
  "MQTTSNDeserialize_subscribe buf buflen = do {
     (rc, mylen) \<leftarrow> MQTTSNPacket_decode buf buflen (Some 0);
     enddata \<leftarrow> mylen;
     if enddata - rc > buflen then Some (rc, None)
     else do {
       (t, p) \<leftarrow> readChar buf rc;
       if t \<noteq> msg_code SUBSCRIBE then Some (rc, None)
       else do {
         (fl, p) \<leftarrow> readChar buf p;
         (packetid, p) \<leftarrow> readInt buf p;
         topicFilter \<leftarrow> read_topic_filter buf p enddata (topic_type_of (get_topicIdType fl));
         Some (1, Some (get_dup fl, uint (get_QoS fl), word_of_int packetid, topicFilter))
       }
     }
   }"

definition MQTTSNDeserialize_unsuback :: "byte list \<Rightarrow> int \<Rightarrow> (int \<times> u16 option) option" where
  "MQTTSNDeserialize_unsuback buf buflen = do {
     (rc, mylen) \<leftarrow> MQTTSNPacket_decode buf buflen (Some 0);
     enddata \<leftarrow> mylen;
     if enddata - rc > buflen then Some (rc, None)
     else do {
       (t, p) \<leftarrow> readChar buf rc;
       if t \<noteq> msg_code UNSUBACK then Some (rc, None)
       else do { (packetid, p) \<leftarrow> readInt buf p; Some (1, Some (word_of_int packetid)) }
     }
   }"

definition MQTTSNDeserialize_unsubscribe :: "byte list \<Rightarrow> int \<Rightarrow> (int \<times> (u16 \<times> topicid) option) option" where
  "MQTTSNDeserialize_unsubscribe buf buflen = do {
     (rc, mylen) \<leftarrow> MQTTSNPacket_decode buf buflen (Some 0);
     enddata \<leftarrow> mylen;
     if enddata - rc > buflen then Some (rc, None)
     else do {
       (t, p) \<leftarrow> readChar buf rc;
       if t \<noteq> msg_code UNSUBSCRIBE then Some (rc, None)
       else do {
         (fl, p) \<leftarrow> readChar buf p;
         (packetid, p) \<leftarrow> readInt buf p;
         topicFilter \<leftarrow> read_topic_filter buf p enddata (topic_type_of (get_topicIdType fl));
         Some (1, Some (word_of_int packetid, topicFilter))
       }
     }
   }"

subsection \<open>Gateway discovery\<close>

definition MQTTSNSerialize_advertise :: "byte list \<Rightarrow> int \<Rightarrow> byte \<Rightarrow> u16 \<Rightarrow> (int \<times> byte list) option" where
  "MQTTSNSerialize_advertise buf buflen gatewayid duration =
     (let len = MQTTSNPacket_len 4
      in if len > buflen then Some (BUFFER_TOO_SHORT, buf)
         else finish (do {
           w1 \<leftarrow> MQTTSNPacket_encode len (buf, 0);
           w2 \<leftarrow> writeChar (msg_code ADVERTISE) w1;
           w3 \<leftarrow> writeChar gatewayid w2;
           writeInt (uint duration) w3
         }))"

definition MQTTSNSerialize_searchgw :: "byte list \<Rightarrow> int \<Rightarrow> byte \<Rightarrow> (int \<times> byte list) option" where
  "MQTTSNSerialize_searchgw buf buflen radius =
     (let len = MQTTSNPacket_len 2
      in if len > buflen then Some (BUFFER_TOO_SHORT, buf)
         else finish (do {
           w1 \<leftarrow> MQTTSNPacket_encode len (buf, 0);
           w2 \<leftarrow> writeChar (msg_code SEARCHGW) w1;
           writeChar radius w2
         }))"

definition MQTTSNSerialize_gwinfo ::
  "byte list \<Rightarrow> int \<Rightarrow> byte \<Rightarrow> u16 \<Rightarrow> byte list option \<Rightarrow> (int \<times> byte list) option" where
  "MQTTSNSerialize_gwinfo buf buflen gatewayid gatewayaddress_len gatewayaddress =
     (let len = MQTTSNPacket_len (2 + uint gatewayaddress_len)
      in if len > buflen then Some (BUFFER_TOO_SHORT, buf)
         else finish (do {
           w1 \<leftarrow> MQTTSNPacket_encode len (buf, 0);
           w2 \<leftarrow> writeChar (msg_code GWINFO) w1;
           w3 \<leftarrow> writeChar gatewayid w2;
           if 0 < gatewayaddress_len \<and> gatewayaddress \<noteq> None
           then writeMem gatewayaddress (uint gatewayaddress_len) w3 else Some w3
         }))"

definition MQTTSNDeserialize_advertise :: "byte list \<Rightarrow> int \<Rightarrow> (int \<times> (byte \<times> u16) option) option" where
  "MQTTSNDeserialize_advertise buf buflen = do {
     (rc, mylen) \<leftarrow> MQTTSNPacket_decode buf buflen (Some 0);
     enddata \<leftarrow> mylen;
     if enddata - rc > buflen then Some (rc, None)
     else do {
       (t, p) \<leftarrow> readChar buf rc;
       if t \<noteq> msg_code ADVERTISE then Some (rc, None)
       else do {
         (gatewayid, p) \<leftarrow> readChar buf p;
         (duration, p) \<leftarrow> readInt buf p;
         Some (1, Some (gatewayid, word_of_int duration))
       }
     }
   }"

definition MQTTSNDeserialize_searchgw :: "byte list \<Rightarrow> int \<Rightarrow> (int \<times> byte option) option" where
  "MQTTSNDeserialize_searchgw buf buflen = do {
     (rc, mylen) \<leftarrow> MQTTSNPacket_decode buf buflen (Some 0);
     enddata \<leftarrow> mylen;
     if enddata - rc > buflen then Some (rc, None)
     else do {
       (t, p) \<leftarrow> readChar buf rc;
       if t \<noteq> msg_code SEARCHGW then Some (rc, None)
       else do { (radius, p) \<leftarrow> readChar buf p; Some (1, Some radius) }
     }
   }"

definition MQTTSNDeserialize_gwinfo ::
  "byte list \<Rightarrow> int \<Rightarrow> (int \<times> (byte \<times> u16 \<times> byte list option) option) option" where
  "MQTTSNDeserialize_gwinfo buf buflen = do {
     (rc, mylen) \<leftarrow> MQTTSNPacket_decode buf buflen (Some 0);
     enddata \<leftarrow> mylen;
     if enddata - rc > buflen then Some (rc, None)
     else do {
       (t, p) \<leftarrow> readChar buf rc;
       if t \<noteq> msg_code GWINFO then Some (rc, None)
       else do {
         (gatewayid, p) \<leftarrow> readChar buf p;
         let len = (word_of_int (enddata - p) :: u16);
         Some (1, Some (gatewayid, len, if 0 < len then ptr_at buf p else None))
       }
     }
   }"

subsection \<open>Subscribe and unsubscribe as codecs\<close>

text \<open>A topic filter is a name, a predefined id or a short name; a normal topic has a name.\<close>

fun filter_bytes :: "vtopic \<Rightarrow> byte list" where
  "filter_bytes (VLong name) = name"
| "filter_bytes (VNormal i) = []"
| "filter_bytes (VPredefined i) = be16 (uint i)"
| "filter_bytes (VShort a b) = [a, b]"

definition filter_ok :: "vtopic \<Rightarrow> bool" where
  "filter_ok t = (case t of VNormal _ \<Rightarrow> False | VLong name \<Rightarrow> length name \<le> 250 | _ \<Rightarrow> True)"

definition filter_wire :: "byte \<Rightarrow> byte \<Rightarrow> u16 \<Rightarrow> vtopic \<Rightarrow> byte list" where
  "filter_wire t fl pid f = [word_of_int (5 + int (length (filter_bytes f))), t, fl] @ be16 (uint pid) @ filter_bytes f"

lemma length_filter_wire: "int (length (filter_wire t fl pid f)) = 5 + int (length (filter_bytes f))"
  by (simp add: filter_wire_def)

lemma filter_size: "filter_ok f \<Longrightarrow> length (filter_bytes f) \<le> 250"
  by (cases f) (simp_all add: filter_ok_def)

lemma subscribe_length:
  "filter_ok f \<Longrightarrow> MQTTSNSerialize_subscribeLength (to_topicid f) = Some (4 + int (length (filter_bytes f)))"
  by (cases f) (simp_all add: filter_ok_def MQTTSNSerialize_subscribeLength_def)

lemma unsubscribe_length:
  "filter_ok f \<Longrightarrow> MQTTSNSerialize_unsubscribeLength (to_topicid f) = Some (4 + int (length (filter_bytes f)))"
  by (cases f) (simp_all add: filter_ok_def MQTTSNSerialize_unsubscribeLength_def)

lemma write_filter_wst:
  "filter_ok f \<Longrightarrow> length out + length (filter_bytes f) \<le> length orig \<Longrightarrow>
   write_topic_filter (to_topicid f) (wst orig out) = Some (wst orig (out @ filter_bytes f))"
  by (cases f) (simp_all add: filter_ok_def write_topic_filter_def wst_simps)

lemma filter_finish:
  assumes "filter_ok f" and "5 + length (filter_bytes f) \<le> length buf"
  shows "finish (do {
       w1 \<leftarrow> MQTTSNPacket_encode (5 + int (length (filter_bytes f))) (buf, 0);
       w2 \<leftarrow> writeChar t w1;
       w3 \<leftarrow> writeChar fl w2;
       w4 \<leftarrow> writeInt (uint pid) w3;
       write_topic_filter (to_topicid f) w4
     }) = Some (5 + int (length (filter_bytes f)), filter_wire t fl pid f @ drop (length (filter_wire t fl pid f)) buf)"
proof -
  have "buf \<noteq> []" using assms(2) by auto
  then show ?thesis
    using assms filter_size [OF assms(1)]
    by (simp add: wst_start wst_simps write_filter_wst filter_wire_def add.commute)
qed

lemma filter_decode:
  assumes "filter_ok f" and "0 < n"
  shows "MQTTSNPacket_decode (filter_wire t fl pid f @ rest) n v = Some (1, Some (5 + int (length (filter_bytes f))))"
proof -
  have "2 \<le> 5 + int (length (filter_bytes f))" "5 + int (length (filter_bytes f)) \<le> 255"
    using filter_size [OF assms(1)] by linarith+
  from decode_length [OF this assms(2)] show ?thesis by (simp add: filter_wire_def)
qed

lemma filter_fields:
  "readChar (filter_wire t fl pid f @ rest) 1 = Some (t, 2)"
  "readChar (filter_wire t fl pid f @ rest) 2 = Some (fl, 3)"
  "readInt (filter_wire t fl pid f @ rest) 3 = Some (uint pid, 5)"
  by (simp_all add: filter_wire_def be16_def rd_simps)

lemma filter_read:
  assumes "filter_ok f"
  shows "\<exists>tf. read_topic_filter (filter_wire t fl pid f @ rest) 5 (5 + int (length (filter_bytes f)))
      (tp_type (to_topicid f)) = Some tf \<and> of_topicid tf = f"
proof (cases f)
  case (VLong name)
  have w: "filter_wire t fl pid f @ rest = ([word_of_int (5 + int (length (filter_bytes f))), t, fl] @ be16 (uint pid))
      @ name @ rest"
    by (simp add: filter_wire_def VLong)
  have "ptr_at (filter_wire t fl pid f @ rest) 5 = Some (name @ rest)"
    unfolding w by (rule ptr_at_append) simp
  then show ?thesis by (simp add: VLong read_topic_filter_def of_topicid_def deref_bytes_def)
qed (use assms in \<open>simp_all add: filter_ok_def read_topic_filter_def filter_wire_def be16_def rd_simps of_topicid_def\<close>)

text \<open>Messages: the dup flag, QoS, packet id and filter of SUBSCRIBE.\<close>

type_synonym subscribe_msg = "bool \<times> int \<times> u16 \<times> vtopic"

definition subscribe_flags :: "subscribe_msg \<Rightarrow> byte" where
  "subscribe_flags = (\<lambda>(dup, qos, pid, f). flags_all (flags_zero\<lparr>fl_dup := (if dup then 1 else 0),
     fl_QoS := word_of_int qos, fl_topicIdType := topic_type_code (tp_type (to_topicid f))\<rparr>))"

definition subscribe_wire :: "subscribe_msg \<Rightarrow> byte list" where
  "subscribe_wire m = (case m of (dup, qos, pid, f) \<Rightarrow> filter_wire (msg_code SUBSCRIBE) (subscribe_flags m) pid f)"

definition subscribe_ok :: "subscribe_msg \<Rightarrow> bool" where
  "subscribe_ok = (\<lambda>(dup, qos, pid, f). qos \<in> {0, 1, 2, 3} \<and> filter_ok f)"

definition subscribe_send :: "byte list \<Rightarrow> int \<Rightarrow> subscribe_msg \<Rightarrow> (int \<times> byte list) option" where
  "subscribe_send buf n = (\<lambda>(dup, qos, pid, f).
     MQTTSNSerialize_subscribe buf n (if dup then 1 else 0) qos pid (to_topicid f))"

definition subscribe_recv :: "byte list \<Rightarrow> int \<Rightarrow> (int \<times> subscribe_msg option) option" where
  "subscribe_recv buf n = map_option
     (\<lambda>(rc, r). (rc, map_option (\<lambda>(dup, qos, pid, t). (dup \<noteq> 0, qos, pid, of_topicid t)) r))
     (MQTTSNDeserialize_subscribe buf n)"

lemma topic_type_roundtrip: "topic_type_of (take_bit 2 (topic_type_code t)) = t"
  by (cases t) (simp_all add: topic_type_of_def)

lemma qos_roundtrip: "(q :: int) \<in> {0, 1, 2, 3} \<Longrightarrow> uint (take_bit 2 (word_of_int q :: byte)) = q"
  by auto

interpretation subscribe: packet_codec subscribe_send subscribe_recv subscribe_wire subscribe_ok
proof (unfold_locales, goal_cases)
  case (1 m n buf)
  obtain dup qos pid f where m: "m = (dup, qos, pid, f)" by (cases m)
  have f: "filter_ok f" using 1(1) by (simp add: m subscribe_ok_def)
  have n: "5 + int (length (filter_bytes f)) \<le> n"
    using 1(2) by (simp add: m subscribe_wire_def length_filter_wire)
  then have b: "5 + length (filter_bytes f) \<le> length buf" using 1(3) by linarith
  have "MQTTSNPacket_len (4 + int (length (filter_bytes f))) = 5 + int (length (filter_bytes f))"
    using filter_size [OF f] by (simp add: MQTTSNPacket_len_def)
  with n show ?case
    using filter_finish [OF f b, of "msg_code SUBSCRIBE" "subscribe_flags m" pid]
    by (simp add: m subscribe_send_def MQTTSNSerialize_subscribe_def subscribe_length [OF f] subscribe_wire_def
        subscribe_flags_def length_filter_wire del: msg_code.simps)
next
  case (2 m n buf)
  obtain dup qos pid f where m: "m = (dup, qos, pid, f)" by (cases m)
  have f: "filter_ok f" using 2(1) by (simp add: m subscribe_ok_def)
  have "n < 5 + int (length (filter_bytes f))"
    using 2(2) by (simp add: m subscribe_wire_def length_filter_wire)
  then show ?case
    using filter_size [OF f]
    by (simp add: m subscribe_send_def MQTTSNSerialize_subscribe_def subscribe_length [OF f] MQTTSNPacket_len_def)
next
  case (3 m n rest)
  obtain dup qos pid f where m: "m = (dup, qos, pid, f)" by (cases m)
  have f: "filter_ok f" "qos \<in> {0, 1, 2, 3}" using 3(1) by (simp_all add: m subscribe_ok_def)
  have n: "0 < n" "5 + int (length (filter_bytes f)) \<le> n"
    using 3(2) by (simp_all add: m subscribe_wire_def length_filter_wire)
  let ?w = "filter_wire (msg_code SUBSCRIBE) (subscribe_flags m) pid f"
  have fl: "uint (get_QoS (subscribe_flags m)) = qos" "(get_dup (subscribe_flags m) \<noteq> 0) = dup"
    "topic_type_of (get_topicIdType (subscribe_flags m)) = tp_type (to_topicid f)"
    using qos_roundtrip [OF f(2)]
    by (simp_all add: m subscribe_flags_def flags_fields flags_dup topic_type_roundtrip)
  obtain tf where tf: "read_topic_filter (?w @ rest) 5 (5 + int (length (filter_bytes f))) (tp_type (to_topicid f)) = Some tf"
      "of_topicid tf = f"
    using filter_read [OF f(1), of "msg_code SUBSCRIBE" "subscribe_flags m" pid rest] by blast
  have "MQTTSNDeserialize_subscribe (?w @ rest) n = Some (1, Some (get_dup (subscribe_flags m), qos, pid, tf))"
    using n tf(1)
    by (simp add: MQTTSNDeserialize_subscribe_def filter_decode [OF f(1) n(1)] filter_fields fl del: msg_code.simps)
  then show ?case using fl(2) tf(2) by (simp add: subscribe_recv_def subscribe_wire_def m)
qed
subsection \<open>Properties\<close>

text \<open>
  SUBSCRIBE, for a topic name, a short name or a predefined id, round-trips through the
  buffer, writes nothing beyond the declared length, and is refused when it does not fit.
\<close>

theorem subscribe_packet_roundtrip:
  assumes "subscribe_ok (dup, qos, pid, f)" and "0 \<le> n" and "n \<le> int (length buf)"
  shows "\<exists>rc out. MQTTSNSerialize_subscribe buf n (if dup then 1 else 0) qos pid (to_topicid f) = Some (rc, out)
    \<and> length out = length buf \<and> drop (nat n) out = drop (nat n) buf
    \<and> (if 5 + int (length (filter_bytes f)) \<le> n
       then rc = 5 + int (length (filter_bytes f)) \<and> subscribe_recv out rc = Some (1, Some (dup, qos, pid, f))
       else rc = BUFFER_TOO_SHORT \<and> out = buf)"
  using subscribe.contract [OF assms]
  by (simp only: subscribe_send_def subscribe_wire_def prod.case length_filter_wire)

lemma subscribe_packet_roundtrip_witness:
  "\<exists>rc out. MQTTSNSerialize_subscribe (replicate 20 0) 20 0 1 9 (to_topicid (VLong [97, 47, 98])) = Some (rc, out)
    \<and> rc = 8 \<and> subscribe_recv out rc = Some (1, Some (False, 1, 9, VLong [97, 47, 98]))"
  using subscribe_packet_roundtrip [of False 1 9 "VLong [97, 47, 98]" 20 "replicate 20 0"]
  by (auto simp: subscribe_ok_def filter_ok_def)

text \<open>
  \<open>MQTTSNSerialize_unsuback\<close> returns 4 for a packet whose length byte says 8, and the
  deserializer, given these 4 bytes, does not deliver the packet id (yet returns 1).
\<close>

theorem unsuback_length_mismatch:
  assumes "8 \<le> n" and "n \<le> int (length buf)"
  shows "\<exists>out. MQTTSNSerialize_unsuback buf n pid = Some (4, out) \<and> out ! 0 = 8
    \<and> MQTTSNDeserialize_unsuback (take 4 out) 4 = Some (1, None)"
proof -
  have len: "8 \<le> length buf" using assms by linarith
  then have "buf \<noteq> []" by auto
  with assms len show ?thesis
    by (simp add: MQTTSNSerialize_unsuback_def MQTTSNPacket_len_def wst_simps wst_start
        MQTTSNDeserialize_unsuback_def decode_length_lit)
qed

lemma unsuback_length_mismatch_witness:
  "\<exists>out. MQTTSNSerialize_unsuback (replicate 8 0) 8 5 = Some (4, out) \<and> out ! 0 = 8
    \<and> MQTTSNDeserialize_unsuback (take 4 out) 4 = Some (1, None)"
  by (rule unsuback_length_mismatch) simp_all

end
