(* ===== verification/Topic.thy ===== *)
theory Topic
  imports Packet UtilList
begin

text \<open>
  Topics (\<open>libNbiot/src/nbiottopic.h\<close>) and the topic registry
  (\<open>nbiotregistrylist.h\<close>, \<open>nbiottopicregistry.cpp\<close>). A topic name is the text of its
  \<open>nbiot::string\<close> (names come from C strings, so it has no zero byte); a message handler is an
  identifier, \<open>None\<close> for the null pointer; the registry's list is the sequence that
  \<open>util::list\<close> implements.
\<close>

subsection \<open>Topics\<close>

record topic =
  to_type :: topic_type
  to_id :: u16
  to_shortName :: "byte \<times> byte"
  to_topicName :: "byte list"
  to_returnCode :: byte
  to_mh :: "nat option"
  to_regFlag :: byte

definition topic_new :: topic where
  "topic_new = \<lparr>to_type = TNormal, to_id = 0, to_shortName = (0, 0), to_topicName = [],
     to_returnCode = 0, to_mh = None, to_regFlag = 0\<rparr>"

definition topic_of_short :: "byte \<times> byte \<Rightarrow> topic" where
  "topic_of_short bytes = topic_new\<lparr>to_type := TShort, to_shortName := bytes\<rparr>"

definition topic_of_id :: "u16 \<Rightarrow> topic" where
  "topic_of_id topicId = topic_new\<lparr>to_type := TPredefined, to_id := topicId\<rparr>"

definition topic_of_name :: "byte list \<Rightarrow> topic" where
  "topic_of_name name = topic_new\<lparr>to_topicName := name\<rparr>"

text \<open>\<open>operator=\<close> keeps a message handler that is set.\<close>

definition topic_assign :: "topic \<Rightarrow> topic \<Rightarrow> topic" where
  "topic_assign other t =
     t\<lparr>to_type := to_type other, to_id := to_id other, to_shortName := to_shortName other,
       to_topicName := to_topicName other, to_returnCode := to_returnCode other,
       to_mh := (if to_mh t = None then to_mh other else to_mh t), to_regFlag := to_regFlag other\<rparr>"

definition topic_eq_id :: "u16 \<Rightarrow> topic \<Rightarrow> bool" where
  "topic_eq_id i t \<longleftrightarrow> to_id t = i"

definition topic_eq_short :: "byte \<times> byte \<Rightarrow> topic \<Rightarrow> bool" where
  "topic_eq_short b t \<longleftrightarrow> to_shortName t = b"

definition topic_eq_name :: "byte list \<Rightarrow> topic \<Rightarrow> bool" where
  "topic_eq_name n t \<longleftrightarrow> to_topicName t = n"

text \<open>
  Comparison with a topic id of the protocol. A normal topic reads the union as an id first, and
  as a name when that does not match; \<open>None\<close> where the member read is not determined.
\<close>

definition topic_eq_topicid :: "topicid \<Rightarrow> topic \<Rightarrow> bool option" where
  "topic_eq_topicid tid t =
     (if to_type t = tp_type tid
      then (case tp_type tid of
          TShort \<Rightarrow> map_option (\<lambda>b. to_shortName t = b) (union_short (tp_data tid))
        | TPredefined \<Rightarrow> map_option (\<lambda>i. to_id t = i) (union_id (tp_data tid))
        | TNormal \<Rightarrow>
            (case tp_data tid of
               ULong name len \<Rightarrow>
                 (if to_topicName t = deref_bytes name len then Some True
                  else if to_id t = 0 then Some False else None)
             | u \<Rightarrow> (case union_id u of
                 Some i \<Rightarrow> (if i \<noteq> 0 \<and> to_id t = i then Some True else None)
               | None \<Rightarrow> None)))
      else Some False)"

definition topic_valid :: "topic \<Rightarrow> bool" where
  "topic_valid t =
     (case to_type t of
        TShort \<Rightarrow> to_shortName t \<noteq> (0, 0)
      | TPredefined \<Rightarrow> to_id t \<noteq> 0
      | TNormal \<Rightarrow> to_id t \<noteq> 0 \<or> to_topicName t \<noteq> [])"

text \<open>\<open>RegistrationFlag\<close>: none, publish, subscribe, both.\<close>

datatype reg_flag = REG_NONE | REG_PUB | REG_SUB | REG_BOTH

fun reg_code :: "reg_flag \<Rightarrow> byte" where
  "reg_code REG_NONE = 0" | "reg_code REG_PUB = 1" | "reg_code REG_SUB = 2" | "reg_code REG_BOTH = 3"

definition topic_setReg :: "reg_flag \<Rightarrow> topic \<Rightarrow> topic" where
  "topic_setReg flag t =
     (if flag \<noteq> REG_NONE then t\<lparr>to_regFlag := or (to_regFlag t) (reg_code flag)\<rparr>
      else t\<lparr>to_regFlag := reg_code REG_NONE\<rparr>)"

definition topic_unsetReg :: "reg_flag \<Rightarrow> topic \<Rightarrow> topic" where
  "topic_unsetReg flag t =
     (if flag \<noteq> REG_NONE then t\<lparr>to_regFlag := and (to_regFlag t) (not (reg_code flag))\<rparr>
      else t\<lparr>to_regFlag := reg_code REG_BOTH\<rparr>)"

definition topic_isReg :: "reg_flag \<Rightarrow> topic \<Rightarrow> bool" where
  "topic_isReg flag t =
     (if flag \<noteq> REG_NONE then and (to_regFlag t) (reg_code flag) \<noteq> 0 else reg_code REG_NONE = to_regFlag t)"

definition topic_hasHandler :: "topic \<Rightarrow> bool" where
  "topic_hasHandler t \<longleftrightarrow> to_mh t \<noteq> None"

text \<open>The characters \<open>+\<close>, \<open>#\<close> and \<open>/\<close>.\<close>

definition ch_plus :: byte where "ch_plus = 43"
definition ch_hash :: byte where "ch_hash = 35"
definition ch_slash :: byte where "ch_slash = 47"

lemmas ch_defs = ch_plus_def ch_hash_def ch_slash_def

definition topic_isWildcardTopic :: "topic \<Rightarrow> bool" where
  "topic_isWildcardTopic t \<longleftrightarrow>
     to_topicName t \<noteq> [] \<and> (ch_plus \<in> set (to_topicName t) \<or> ch_hash \<in> set (to_topicName t))"

datatype topic_type_normal = TOPIC_NAME | TOPIC_ID

definition topic_toSNTopic :: "topic_type_normal \<Rightarrow> topic \<Rightarrow> topicid" where
  "topic_toSNTopic ttn t =
     \<lparr>tp_type = to_type t, tp_data =
       (case to_type t of
          TShort \<Rightarrow> UShort (fst (to_shortName t)) (snd (to_shortName t))
        | TPredefined \<Rightarrow> UId (to_id t)
        | TNormal \<Rightarrow>
            (if ttn = TOPIC_NAME then ULong (Some (to_topicName t @ [0])) (int (length (to_topicName t)))
             else UId (to_id t)))\<rparr>"

text \<open>
  The loop of \<open>isTopicMatched\<close>: \<open>f\<close> is the filter from index \<open>i\<close> on, \<open>n\<close> the name from \<open>curn\<close> to
  its end. For \<open>+\<close> the inner loop moves \<open>curn\<close> to the last character before the next separator.
\<close>

fun match_loop :: "byte list \<Rightarrow> byte list \<Rightarrow> byte list \<times> byte list" where
  "match_loop (c # f) (d # n) =
     (if c = 0 then (c # f, d # n)
      else if d = ch_slash \<and> c \<noteq> ch_slash then (c # f, d # n)
      else if c \<noteq> ch_plus \<and> c \<noteq> ch_hash \<and> c \<noteq> d then (c # f, d # n)
      else if c = ch_plus then match_loop f (dropWhile (\<lambda>x. x \<noteq> ch_slash) n)
      else if c = ch_hash then match_loop f []
      else match_loop f n)"
| "match_loop f n = (f, n)"

definition topic_isTopicMatched :: "topic \<Rightarrow> topic \<Rightarrow> bool" where
  "topic_isTopicMatched t name =
     (case match_loop (to_topicName t) (to_topicName name) of
        (f, n) \<Rightarrow> n = [] \<and> (f = [] \<or> hd f = 0))"

subsection \<open>The registry\<close>

record registry =
  rg_list :: "topic useq"
  rg_messageCount :: nat

definition registry_new :: registry where
  "registry_new = \<lparr>rg_list = \<lparr>sq_items = [], sq_invalid = topic_new\<rparr>, rg_messageCount = 0\<rparr>"

text \<open>\<open>NbiotRegistryList::indexOf\<close>, and the registry's \<open>findTopic\<close>, by name, short name and id.\<close>

definition registry_indexOf :: "byte list \<Rightarrow> registry \<Rightarrow> int" where
  "registry_indexOf name r = sq_index (topic_eq_name name) (rg_list r)"

definition registry_findShort :: "byte \<times> byte \<Rightarrow> registry \<Rightarrow> int" where
  "registry_findShort bytes r = sq_index (topic_eq_short bytes) (rg_list r)"

definition registry_findId :: "u16 \<Rightarrow> registry \<Rightarrow> int" where
  "registry_findId topicId r = sq_index (topic_eq_id topicId) (rg_list r)"

definition registry_findTopic :: "byte list \<Rightarrow> registry \<Rightarrow> int" where
  "registry_findTopic name r = (if name \<noteq> [] then registry_indexOf name r else - 1)"

definition registry_at :: "int \<Rightarrow> registry \<Rightarrow> topic" where
  "registry_at index r = sq_at index (rg_list r)"

definition registry_insertTopic :: "topic \<Rightarrow> registry \<Rightarrow> registry" where
  "registry_insertTopic topic r =
     (if to_topicName topic \<noteq> []
      then let index = registry_indexOf (to_topicName topic) r
           in if index = - 1 then r\<lparr>rg_list := sq_append topic (rg_list r)\<rparr>
              else r\<lparr>rg_list := sq_modify index (topic_assign topic) (rg_list r)\<rparr>
      else r)"

text \<open>A message as the dispatcher sees it, and the call of a handler.\<close>

record message =
  me_qos :: int
  me_retained :: bool
  me_dup :: bool
  me_id :: u16
  me_payload :: "byte list"

record handler_call =
  hc_handler :: nat
  hc_message :: message
  hc_topicName :: "byte list"

definition RC_ACCEPTED :: int where "RC_ACCEPTED = 0"
definition RC_REJECTED_INVALID_TOPIC_ID :: int where "RC_REJECTED_INVALID_TOPIC_ID = 2"

text \<open>
  \<open>messageDispatcher\<close>: the return code, the handler called (if any) and the registry, for a
  message with topic id \<open>i\<close> (the \<open>id\<close> member of its topic).
\<close>

fun dispatch_loop :: "u16 \<Rightarrow> message \<Rightarrow> topic list \<Rightarrow> int \<times> handler_call option" where
  "dispatch_loop i m [] = (RC_REJECTED_INVALID_TOPIC_ID, None)"
| "dispatch_loop i m (t # ts) =
     (if topic_valid t \<and> topic_eq_id i t
      then (RC_ACCEPTED, map_option
             (\<lambda>h. \<lparr>hc_handler = h, hc_message = m, hc_topicName = to_topicName t\<rparr>) (to_mh t))
      else dispatch_loop i m ts)"

definition registry_messageDispatcher ::
  "u16 \<Rightarrow> message \<Rightarrow> registry \<Rightarrow> int \<times> handler_call option \<times> registry" where
  "registry_messageDispatcher i m r =
     (let (rc, call) = dispatch_loop i m (sq_items (rg_list r))
      in (rc, call, if call \<noteq> None then r\<lparr>rg_messageCount := rg_messageCount r + 1\<rparr> else r))"

fun wildcard_handler :: "topic \<Rightarrow> topic list \<Rightarrow> nat option option" where
  "wildcard_handler t [] = None"
| "wildcard_handler t (w # ws) =
     (if topic_isWildcardTopic w \<and> topic_isTopicMatched w t then Some (to_mh w) else wildcard_handler t ws)"

definition registry_attachWildcardMessageHandler :: "topic \<Rightarrow> registry \<Rightarrow> bool \<times> topic" where
  "registry_attachWildcardMessageHandler topic r =
     (case wildcard_handler topic (sq_items (rg_list r)) of
        Some mh \<Rightarrow> (True, topic\<lparr>to_mh := mh\<rparr>)
      | None \<Rightarrow> (False, topic))"

text \<open>The loop over the other topics that both update operations share.\<close>

definition wildcard_update :: "topic \<Rightarrow> nat option \<Rightarrow> topic \<Rightarrow> topic" where
  "wildcard_update w mh t =
     (if \<not> topic_eq_name (to_topicName w) t \<and> \<not> topic_isWildcardTopic t \<and> topic_isTopicMatched w t
      then t\<lparr>to_mh := mh\<rparr> else t)"

definition wildcard_hits :: "topic \<Rightarrow> topic \<Rightarrow> bool" where
  "wildcard_hits w t \<longleftrightarrow>
     \<not> topic_eq_name (to_topicName w) t \<and> \<not> topic_isWildcardTopic t \<and> topic_isTopicMatched w t"

definition registry_updateWildcardMessageHandler :: "topic \<Rightarrow> registry \<Rightarrow> bool \<times> registry" where
  "registry_updateWildcardMessageHandler topic r =
     (let index = registry_indexOf (to_topicName topic) r; s = rg_list r
      in if topic_isWildcardTopic topic \<and> 0 \<le> index
         then (list_ex (wildcard_hits (sq_at index s)) (sq_items s),
               r\<lparr>rg_list := s\<lparr>sq_items := map (wildcard_update (sq_at index s) (to_mh topic)) (sq_items s)\<rparr>\<rparr>)
         else (False, r))"

definition registry_attachMessageHandler :: "int \<Rightarrow> nat option \<Rightarrow> registry \<Rightarrow> bool \<times> registry" where
  "registry_attachMessageHandler index mh r =
     (if 0 \<le> index \<and> index < sq_count (rg_list r)
      then let s = sq_modify index (\<lambda>t. t\<lparr>to_mh := mh\<rparr>) (rg_list r); w = sq_at index s
           in (True, r\<lparr>rg_list :=
                (if topic_isWildcardTopic w then s\<lparr>sq_items := map (wildcard_update w mh) (sq_items s)\<rparr> else s)\<rparr>)
      else (False, r))"

definition registry_setTopicFlag :: "int \<Rightarrow> reg_flag \<Rightarrow> registry \<Rightarrow> registry" where
  "registry_setTopicFlag index flag r =
     (if 0 \<le> index \<and> index < sq_count (rg_list r)
      then r\<lparr>rg_list := sq_modify index (topic_setReg flag) (rg_list r)\<rparr> else r)"

definition registry_unsetTopicFlag :: "int \<Rightarrow> reg_flag \<Rightarrow> registry \<Rightarrow> registry" where
  "registry_unsetTopicFlag index flag r =
     (if 0 \<le> index \<and> index < sq_count (rg_list r)
      then r\<lparr>rg_list := sq_modify index (topic_unsetReg flag) (rg_list r)\<rparr> else r)"

definition registry_hasAnyTopic :: "reg_flag \<Rightarrow> registry \<Rightarrow> bool" where
  "registry_hasAnyTopic flag r = list_ex (topic_isReg flag) (sq_items (rg_list r))"

definition registry_hasTopic :: "byte list \<Rightarrow> reg_flag \<Rightarrow> registry \<Rightarrow> bool" where
  "registry_hasTopic topicFilter flag r =
     (let index = registry_findTopic topicFilter r
      in if 0 \<le> index then topic_isReg flag (registry_at index r) else False)"

text \<open>
  \<open>removeTopic\<close>: for a wildcard topic the loop runs from the last index down and removes the
  matched topics; then the topic at the original \<open>index\<close> is removed.
\<close>

fun remove_loop :: "topic \<Rightarrow> int \<Rightarrow> nat \<Rightarrow> topic useq \<Rightarrow> topic useq" where
  "remove_loop w index 0 s = s"
| "remove_loop w index (Suc i) s =
     remove_loop w index i
       (if index \<noteq> int i \<and> topic_isTopicMatched w (sq_at (int i) s) then sq_remove (int i) s else s)"

definition registry_removeTopic :: "int \<Rightarrow> registry \<Rightarrow> registry" where
  "registry_removeTopic index r =
     (let w = sq_at index (rg_list r);
          s = (if topic_isWildcardTopic w
               then remove_loop w index (nat (sq_count (rg_list r))) (rg_list r) else rg_list r)
      in r\<lparr>rg_list := sq_remove index s\<rparr>)"

definition registry_clearRegistry :: "registry \<Rightarrow> registry" where
  "registry_clearRegistry r = r\<lparr>rg_list := sq_clear (rg_list r)\<rparr>"

subsection \<open>Matching by levels\<close>

text \<open>
  The reference: split filter and name at the separators and compare level by level. \<open>+\<close> stands
  for one non-empty level, \<open>#\<close> for all remaining text, which must not be empty or start with a
  separator.
\<close>

fun levels :: "byte list \<Rightarrow> byte list list" where
  "levels [] = [[]]"
| "levels (c # cs) =
     (if c = ch_slash then [] # levels cs else (c # hd (levels cs)) # tl (levels cs))"

fun level_match :: "byte list list \<Rightarrow> byte list list \<Rightarrow> bool" where
  "level_match [] ns = (ns = [])"
| "level_match (f # fs) [] = False"
| "level_match (f # fs) (n # ns) =
     (if f = [ch_hash] then n \<noteq> [] \<and> fs = []
      else if f = [ch_plus] then n \<noteq> [] \<and> level_match fs ns
      else f = n \<and> level_match fs ns)"

text \<open>
  The format the comment in the code asks for: \<open>#\<close> only at the end, \<open>+\<close> and \<open>#\<close> only next to a
  separator. \<open>start\<close> says that the text begins a level.
\<close>

fun filter_wf :: "bool \<Rightarrow> byte list \<Rightarrow> bool" where
  "filter_wf start [] = True"
| "filter_wf start (c # f) = (c \<noteq> 0 \<and>
     (if c = ch_slash then filter_wf True f
      else if c = ch_plus then start \<and> (f = [] \<or> hd f = ch_slash) \<and> filter_wf False f
      else if c = ch_hash then start \<and> f = []
      else filter_wf False f))"

definition matched :: "byte list \<Rightarrow> byte list \<Rightarrow> bool" where
  "matched f n = (case match_loop f n of (f', n') \<Rightarrow> n' = [] \<and> (f' = [] \<or> hd f' = 0))"

lemma topic_matched: "topic_isTopicMatched t name = matched (to_topicName t) (to_topicName name)"
  by (simp add: topic_isTopicMatched_def matched_def)

lemma levels_ne [simp]: "levels xs \<noteq> []"
  by (cases xs) auto

lemma levels_Cons: "c \<noteq> ch_slash \<Longrightarrow> levels cs = l # ls \<Longrightarrow> levels (c # cs) = (c # l) # ls"
  by simp

lemma levels_obtain:
  obtains l ls where "levels xs = l # ls"
  using levels_ne [of xs] by (cases "levels xs") auto

lemma levels_single: "levels xs = [[]] \<longleftrightarrow> xs = []"
  by (cases xs) auto

lemma levels_dropWhile:
  "levels xs = l # ls \<Longrightarrow> levels (dropWhile (\<lambda>x. x \<noteq> ch_slash) xs) = [] # ls
    \<and> (dropWhile (\<lambda>x. x \<noteq> ch_slash) xs = [] \<longleftrightarrow> ls = [])"
proof (induction xs arbitrary: l)
  case (Cons x xs)
  obtain k ks where k: "levels xs = k # ks" by (rule levels_obtain)
  with Cons show ?case by (cases "x = ch_slash") auto
qed simp

lemma ch_distinct [simp]:
  "ch_slash \<noteq> ch_plus" "ch_slash \<noteq> ch_hash" "ch_plus \<noteq> ch_hash" "ch_slash \<noteq> 0" "ch_plus \<noteq> 0" "ch_hash \<noteq> 0"
  "ch_plus \<noteq> ch_slash" "ch_hash \<noteq> ch_slash" "ch_hash \<noteq> ch_plus"
  by (simp_all add: ch_defs)

lemma matched_Nil: "matched [] n \<longleftrightarrow> n = []"
  by (simp add: matched_def)

lemma matched_Cons_Nil: "c \<noteq> 0 \<Longrightarrow> \<not> matched (c # f) []"
  by (simp add: matched_def)

lemma matched_Cons:
  "c \<noteq> 0 \<Longrightarrow> matched (c # f) (d # n) \<longleftrightarrow>
     (if d = ch_slash \<and> c \<noteq> ch_slash then False
      else if c = ch_plus then matched f (dropWhile (\<lambda>x. x \<noteq> ch_slash) n)
      else if c = ch_hash then matched f []
      else c = d \<and> matched f n)"
  by (auto simp: matched_def)

lemma level_match_Nil2: "level_match fs [] \<longleftrightarrow> fs = []"
  by (cases fs) auto

lemma matched_levels:
  "filter_wf b f \<Longrightarrow> matched f n \<longleftrightarrow> level_match (levels f) (levels n)"
proof (induction f arbitrary: b n)
  case Nil
  obtain l ls where l: "levels n = l # ls" by (rule levels_obtain)
  then show ?case using levels_single [of n] by (auto simp: matched_Nil)
next
  case (Cons c f)
  obtain k ks where k: "levels f = k # ks" by (rule levels_obtain)
  have c0: "c \<noteq> 0" using Cons.prems by simp
  show ?case
  proof (cases n)
    case Nil
    then show ?thesis using matched_Cons_Nil [OF c0] k by (auto simp: level_match_Nil2)
  next
    case (Cons d n')
    obtain l ls where l: "levels n' = l # ls" by (rule levels_obtain)
    consider "c = ch_slash" | "c = ch_plus" | "c = ch_hash"
      | "c \<noteq> ch_slash" "c \<noteq> ch_plus" "c \<noteq> ch_hash" by blast
    then show ?thesis
    proof cases
      case 1
      then show ?thesis using Cons c0 Cons.prems Cons.IH [of True n'] k l
        by (auto simp: matched_Cons)
    next
      case 2
      let ?n = "dropWhile (\<lambda>x. x \<noteq> ch_slash) n'"
      note dw = levels_dropWhile [OF l]
      have wf: "filter_wf False f" "f = [] \<or> hd f = ch_slash" using Cons.prems 2 by auto
      then have "levels f = [[]] \<or> (\<exists>g. levels f = [] # g)" by (cases f) auto
      then have k0: "k = []" using k by auto
      show ?thesis
        using 2 Cons c0 Cons.IH [OF wf(1), of ?n] k l dw k0 by (auto simp: matched_Cons)
    next
      case 3
      then show ?thesis using Cons c0 Cons.prems l by (auto simp: matched_Cons matched_Nil)
    next
      case 4
      have wf: "filter_wf False f" using Cons.prems 4 by auto
      have nk: "k \<noteq> [ch_plus] \<and> k \<noteq> [ch_hash]"
        using wf k by (cases f) (auto split: if_splits)
      show ?thesis
        using 4 Cons c0 Cons.IH [OF wf, of n'] k l nk by (auto simp: matched_Cons)
    qed
  qed
qed

text \<open>A filter without wildcard characters matches its own name only.\<close>

lemma matched_literal:
  "ch_plus \<notin> set f \<Longrightarrow> ch_hash \<notin> set f \<Longrightarrow> 0 \<notin> set f \<Longrightarrow> matched f n \<longleftrightarrow> f = n"
proof (induction f arbitrary: n)
  case Nil
  then show ?case by (auto simp: matched_Nil)
next
  case (Cons c f)
  then show ?case by (cases n) (auto simp: matched_Cons matched_Cons_Nil)
qed

subsection \<open>Looking up, inserting and removing\<close>

text \<open>The topic of a name, through \<open>findTopic\<close> and \<open>operator[]\<close> as the callers do it.\<close>

definition registry_lookup :: "byte list \<Rightarrow> registry \<Rightarrow> topic option" where
  "registry_lookup name r =
     (if 0 \<le> registry_findTopic name r then Some (registry_at (registry_findTopic name r) r) else None)"

definition names_of :: "registry \<Rightarrow> byte list list" where
  "names_of r = map to_topicName (sq_items (rg_list r))"

lemma find_first_match:
  "first_match eq n xs = (case List.find eq xs of None \<Rightarrow> None | Some x \<Rightarrow> Some (n + int (length (takeWhile (\<lambda>y. \<not> eq y) xs)), x))"
  by (induction xs arbitrary: n) (auto split: option.splits)

lemma sq_indexOf_find:
  "sq_indexOf eq xs = (if List.find eq xs = None then - 1 else int (length (takeWhile (\<lambda>y. \<not> eq y) xs)))"
  by (auto simp: sq_indexOf_def find_first_match split: option.splits)

lemma find_nth_takeWhile:
  "List.find eq xs = Some x \<Longrightarrow> length (takeWhile (\<lambda>y. \<not> eq y) xs) < length xs
    \<and> xs ! length (takeWhile (\<lambda>y. \<not> eq y) xs) = x \<and> eq x"
  by (induction xs) (auto split: if_splits)

lemma registry_lookup_find:
  "name \<noteq> [] \<Longrightarrow> registry_lookup name r = List.find (topic_eq_name name) (sq_items (rg_list r))"
  by (cases "List.find (topic_eq_name name) (sq_items (rg_list r))")
     (auto simp: registry_lookup_def registry_findTopic_def registry_indexOf_def sq_index_def sq_indexOf_find
       registry_at_def sq_at_def sq_valid_def dest: find_nth_takeWhile)

lemma registry_lookup_empty: "registry_lookup [] r = None"
  by (simp add: registry_lookup_def registry_findTopic_def)

lemma find_update_other:
  "i < length xs \<Longrightarrow> \<not> P (xs ! i) \<Longrightarrow> \<not> P y \<Longrightarrow> List.find P (xs[i := y]) = List.find P xs"
  by (induction xs arbitrary: i) (auto split: nat.splits)

lemma find_update_first:
  "List.find P xs = Some x \<Longrightarrow> P y \<Longrightarrow> List.find P (xs[length (takeWhile (\<lambda>z. \<not> P z) xs) := y]) = Some y"
  by (induction xs) (auto split: if_splits)

lemma find_append_None: "List.find P xs = None \<Longrightarrow> List.find P (xs @ ys) = List.find P ys"
  by (induction xs) (auto split: if_splits)

lemma find_append_Some: "List.find P xs = Some x \<Longrightarrow> List.find P (xs @ ys) = Some x"
  by (induction xs) (auto split: if_splits)

lemma topic_assign_name [simp]: "to_topicName (topic_assign t old) = to_topicName t"
  by (simp add: topic_assign_def)

text \<open>What \<open>insertTopic\<close> does to the list.\<close>

lemma insertTopic_items:
  assumes "to_topicName t \<noteq> []"
  shows "sq_items (rg_list (registry_insertTopic t r)) =
    (let xs = sq_items (rg_list r); P = topic_eq_name (to_topicName t); i = length (takeWhile (\<lambda>y. \<not> P y) xs)
     in case List.find P xs of None \<Rightarrow> xs @ [t] | Some old \<Rightarrow> xs[i := topic_assign t old])"
  using assms
  by (auto simp: registry_insertTopic_def registry_indexOf_def sq_index_def sq_indexOf_find Let_def sq_append_def
      sq_modify_def sq_valid_def split: option.splits dest: find_nth_takeWhile)

lemma insert_lookup_same:
  assumes "to_topicName t \<noteq> []"
  shows "registry_lookup (to_topicName t) (registry_insertTopic t r) =
    Some (case registry_lookup (to_topicName t) r of None \<Rightarrow> t | Some old \<Rightarrow> topic_assign t old)"
proof (cases "List.find (topic_eq_name (to_topicName t)) (sq_items (rg_list r))")
  case None
  then show ?thesis
    by (simp add: registry_lookup_find [OF assms] insertTopic_items [OF assms] find_append_None topic_eq_name_def Let_def)
next
  case (Some old)
  then show ?thesis
    using find_update_first [OF Some, of "topic_assign t old"]
    by (simp add: registry_lookup_find [OF assms] insertTopic_items [OF assms] topic_eq_name_def Let_def)
qed

lemma insert_lookup_other:
  assumes "to_topicName t \<noteq> []" and "name \<noteq> to_topicName t"
  shows "registry_lookup name (registry_insertTopic t r) = registry_lookup name r"
proof (cases "name = []")
  case True
  then show ?thesis by (simp add: registry_lookup_empty)
next
  case False
  let ?P = "topic_eq_name (to_topicName t)" and ?xs = "sq_items (rg_list r)"
  show ?thesis
  proof (cases "List.find ?P ?xs")
    case None
    then show ?thesis using assms(2)
      by (cases "List.find (topic_eq_name name) ?xs")
         (auto simp: registry_lookup_find [OF False] insertTopic_items [OF assms(1)] topic_eq_name_def
           find_append_None find_append_Some)
  next
    case (Some old)
    from find_nth_takeWhile [OF Some] have "List.find (topic_eq_name name)
        (?xs[length (takeWhile (\<lambda>y. \<not> ?P y) ?xs) := topic_assign t old]) = List.find (topic_eq_name name) ?xs"
      using assms(2) by (intro find_update_other) (auto simp: topic_eq_name_def)
    with Some show ?thesis
      by (simp add: registry_lookup_find [OF False] insertTopic_items [OF assms(1)] Let_def)
  qed
qed

subsection \<open>The invariant of the registry\<close>

text \<open>No two topics have the same name, and none has an empty one.\<close>

definition registry_inv :: "registry \<Rightarrow> bool" where
  "registry_inv r \<longleftrightarrow> distinct (names_of r) \<and> [] \<notin> set (names_of r)"

text \<open>The operations that change a registry, with any arguments.\<close>

inductive registry_step :: "registry \<Rightarrow> registry \<Rightarrow> bool" where
  insert: "registry_step r (registry_insertTopic t r)"
| update_wildcard: "registry_step r (snd (registry_updateWildcardMessageHandler t r))"
| attach: "registry_step r (snd (registry_attachMessageHandler i mh r))"
| set_flag: "registry_step r (registry_setTopicFlag i fl r)"
| unset_flag: "registry_step r (registry_unsetTopicFlag i fl r)"
| remove: "registry_step r (registry_removeTopic i r)"
| clear: "registry_step r (registry_clearRegistry r)"
| dispatch: "registry_step r (snd (snd (registry_messageDispatcher i' m r)))"

inductive registry_reachable :: "registry \<Rightarrow> bool" where
  start: "registry_reachable registry_new"
| step: "registry_reachable r \<Longrightarrow> registry_step r r' \<Longrightarrow> registry_reachable r'"

lemma names_modify:
  assumes "\<And>t. to_topicName (f t) = to_topicName t"
  shows "map to_topicName (sq_items (sq_modify i f s)) = map to_topicName (sq_items s)"
  using assms by (auto simp: sq_modify_def sq_valid_def map_update intro!: nth_equalityI simp: nth_list_update)

lemma wildcard_update_name [simp]: "to_topicName (wildcard_update w mh t) = to_topicName t"
  by (simp add: wildcard_update_def)

lemma reg_name [simp]:
  "to_topicName (topic_setReg fl t) = to_topicName t" "to_topicName (topic_unsetReg fl t) = to_topicName t"
  by (simp_all add: topic_setReg_def topic_unsetReg_def)

lemma names_insert:
  assumes "to_topicName t \<noteq> []"
  shows "names_of (registry_insertTopic t r) =
    (if to_topicName t \<in> set (names_of r) then names_of r else names_of r @ [to_topicName t])"
proof (cases "List.find (topic_eq_name (to_topicName t)) (sq_items (rg_list r))")
  case None
  then have "to_topicName t \<notin> set (names_of r)" by (auto simp: find_None_iff topic_eq_name_def names_of_def)
  with None show ?thesis by (simp add: names_of_def insertTopic_items [OF assms])
next
  case (Some old)
  note f = find_nth_takeWhile [OF Some]
  then have "to_topicName old = to_topicName t" "to_topicName t \<in> set (names_of r)"
    by (auto simp: topic_eq_name_def names_of_def) (metis image_eqI nth_mem)
  with Some f show ?thesis
    by (auto simp: names_of_def insertTopic_items [OF assms] Let_def map_update intro!: nth_equalityI
        simp: nth_list_update)
qed

lemma sq_remove_subseq:
  "\<exists>us vs x. sq_items s = us @ x # vs \<and> sq_items (sq_remove i s) = us @ vs \<or> sq_items (sq_remove i s) = sq_items s"
proof (cases "sq_valid i s")
  case True
  then have "sq_items s = take (nat i) (sq_items s) @ sq_items s ! nat i # drop (Suc (nat i)) (sq_items s)"
    by (intro id_take_nth_drop) (auto simp: sq_valid_def)
  with True show ?thesis by (auto simp: sq_remove_def)
next
  case False
  then show ?thesis by (simp add: sq_remove_def)
qed

definition names_ok :: "topic useq \<Rightarrow> bool" where
  "names_ok s \<longleftrightarrow> distinct (map to_topicName (sq_items s)) \<and> [] \<notin> to_topicName ` set (sq_items s)"

lemma registry_inv_names: "registry_inv r \<longleftrightarrow> names_ok (rg_list r)"
  by (simp add: registry_inv_def names_ok_def names_of_def)

lemma names_ok_remove: "names_ok s \<Longrightarrow> names_ok (sq_remove i s)"
  using sq_remove_subseq [of s i] by (auto simp: names_ok_def)

lemma names_ok_remove_loop: "names_ok s \<Longrightarrow> names_ok (remove_loop w index i s)"
  by (induction i arbitrary: s) (auto intro: names_ok_remove)

lemma same_names: "names_of r' = names_of r \<Longrightarrow> registry_inv r \<Longrightarrow> registry_inv r'"
  unfolding registry_inv_def by (rule ssubst)

lemma registry_step_inv: "registry_step r r' \<Longrightarrow> registry_inv r \<Longrightarrow> registry_inv r'"
proof (induction rule: registry_step.induct)
  case (insert r t)
  then show ?case
    by (cases "to_topicName t = []")
       (auto simp: registry_inv_def names_insert, simp_all add: registry_insertTopic_def)
next
  case (update_wildcard r t)
  then show ?case
    by (auto simp: registry_inv_def names_of_def registry_updateWildcardMessageHandler_def Let_def o_def)
next
  case (attach r i mh)
  have "map to_topicName (sq_items (sq_modify i (\<lambda>t. t\<lparr>to_mh := mh\<rparr>) (rg_list r))) = map to_topicName (sq_items (rg_list r))"
    by (rule names_modify) simp
  then have "names_of (snd (registry_attachMessageHandler i mh r)) = names_of r"
    by (simp add: names_of_def registry_attachMessageHandler_def Let_def o_def)
  then show ?case using attach by (rule same_names)
next
  case (set_flag r i fl)
  then show ?case by (rule same_names [rotated]) (simp add: names_of_def registry_setTopicFlag_def names_modify)
next
  case (unset_flag r i fl)
  then show ?case by (rule same_names [rotated]) (simp add: names_of_def registry_unsetTopicFlag_def names_modify)
next
  case (remove r i)
  then show ?case
    by (auto simp: registry_inv_names registry_removeTopic_def Let_def intro: names_ok_remove names_ok_remove_loop)
next
  case (clear r)
  then show ?case by (simp add: registry_inv_def names_of_def registry_clearRegistry_def sq_clear_def)
next
  case (dispatch r i m)
  then show ?case by (simp add: registry_inv_def names_of_def registry_messageDispatcher_def case_prod_beta Let_def)
qed

subsection \<open>Removing a wildcard topic\<close>

lemma remove_loop_items:
  assumes "sq_items s = ys @ zs"
  shows "sq_items (remove_loop w (int k) (length ys) s) =
    (if k < length ys
     then filter (\<lambda>t. \<not> topic_isTopicMatched w t) (take k ys) @ ys ! k
       # filter (\<lambda>t. \<not> topic_isTopicMatched w t) (drop (Suc k) ys)
     else filter (\<lambda>t. \<not> topic_isTopicMatched w t) ys) @ zs"
  using assms
proof (induction ys arbitrary: s zs rule: rev_induct)
  case Nil
  then show ?case by simp
next
  case (snoc u us)
  have at: "sq_at (int (length us)) s = u"
    using snoc.prems by (simp add: sq_at_def sq_valid_def nth_append)
  show ?case
  proof (cases "k \<noteq> length us \<and> topic_isTopicMatched w u")
    case True
    have "sq_items (sq_remove (int (length us)) s) = us @ zs"
      using snoc.prems by (simp add: sq_remove_def sq_valid_def)
    from snoc.IH [OF this] True at show ?thesis by (auto simp: nth_append less_Suc_eq)
  next
    case False
    have "sq_items s = us @ u # zs" using snoc.prems by simp
    from snoc.IH [OF this] False at show ?thesis by (auto simp: nth_append less_Suc_eq)
  qed
qed

lemma removeTopic_wildcard_items:
  assumes "sq_items (rg_list r) = us @ w # vs" and "topic_isWildcardTopic w"
  defines "keep \<equiv> filter (\<lambda>t. \<not> topic_isTopicMatched w t)"
  shows "sq_items (rg_list (registry_removeTopic (int (length us)) r)) =
    (let L = keep us @ w # keep vs in take (length us) L @ drop (Suc (length us)) L)"
proof -
  have at: "sq_at (int (length us)) (rg_list r) = w"
    using assms(1) by (simp add: sq_at_def sq_valid_def)
  let ?s = "remove_loop w (int (length us)) (nat (sq_count (rg_list r))) (rg_list r)"
  have cnt: "nat (sq_count (rg_list r)) = length (us @ w # vs)" using assms(1) by (simp add: sq_count_def)
  have items: "sq_items ?s = keep us @ w # keep vs"
    unfolding cnt using remove_loop_items [of "rg_list r" "us @ w # vs" "[]" w "length us"] assms(1)
    by (simp add: keep_def)
  show ?thesis
    using assms(2) items
    by (auto simp: registry_removeTopic_def at Let_def sq_remove_def sq_valid_def)
qed


subsection \<open>Properties\<close>

text \<open>
  C29: for every filter in the format that the code's comment asks for, and every name, the
  character loop of \<open>isTopicMatched\<close> decides the match level by level: \<open>+\<close> one non-empty level,
  \<open>#\<close> the non-empty rest.
\<close>

theorem topic_match_is_level_match:
  assumes "filter_wf True (to_topicName w)"
  shows "topic_isTopicMatched w t \<longleftrightarrow> level_match (levels (to_topicName w)) (levels (to_topicName t))"
  using matched_levels [OF assms] by (simp add: topic_matched)

lemma topic_match_is_level_match_witness:
  "topic_isTopicMatched (topic_of_name [97, 47, 43, 47, 35]) (topic_of_name [97, 47, 98, 47, 99, 47, 100])
    \<longleftrightarrow> level_match [[97], [43], [35]] [[97], [98], [99], [100]]"
  using topic_match_is_level_match [of "topic_of_name [97, 47, 43, 47, 35]" "topic_of_name [97, 47, 98, 47, 99, 47, 100]"]
  by (simp add: topic_of_name_def topic_new_def ch_defs)



text \<open>
  C33: in every registry that its operations can produce, in any order and with any arguments,
  no two topics share a name and none has an empty name.
\<close>

theorem registry_names_unique:
  assumes "registry_reachable r"
  shows "distinct (map to_topicName (sq_items (rg_list r)))
    \<and> (\<forall>t \<in> set (sq_items (rg_list r)). to_topicName t \<noteq> [])"
proof -
  from assms have "registry_inv r"
  proof (induction rule: registry_reachable.induct)
    case start
    show ?case by (simp add: registry_inv_def names_of_def registry_new_def)
  next
    case (step r r')
    then show ?case by (blast intro: registry_step_inv)
  qed
  then show ?thesis unfolding registry_inv_def names_of_def set_map by (metis imageI)
qed

lemma registry_names_unique_witness:
  "distinct (map to_topicName (sq_items (rg_list (registry_insertTopic (topic_of_name [97]) registry_new))))"
  using registry_names_unique [OF registry_reachable.step [OF registry_reachable.start registry_step.insert]] by blast

text \<open>
  C38: removing a wildcard topic removes the topics that match it as well, but the index is not
  adjusted for the removals before it. When no earlier topic matches, the wildcard topic and the
  matching later ones go; when an earlier topic matches, the wildcard topic itself stays in the
  registry.
\<close>

theorem remove_wildcard_stale_index:
  assumes "sq_items (rg_list r) = us @ w # vs" and "topic_isWildcardTopic w"
  shows "if \<exists>t \<in> set us. topic_isTopicMatched w t
    then w \<in> set (sq_items (rg_list (registry_removeTopic (int (length us)) r)))
    else sq_items (rg_list (registry_removeTopic (int (length us)) r)) =
      us @ filter (\<lambda>t. \<not> topic_isTopicMatched w t) vs"
proof -
  note items = removeTopic_wildcard_items [OF assms]
  let ?keep = "filter (\<lambda>t. \<not> topic_isTopicMatched w t)"
  show ?thesis
  proof (cases "\<exists>t \<in> set us. topic_isTopicMatched w t")
    case True
    then have "length (?keep us) < length us" by (auto intro: length_filter_less)
    then have "w \<in> set (take (length us) (?keep us @ w # ?keep vs))"
      by (simp add: take_Cons' )
    then show ?thesis using True by (simp only: items Let_def if_True set_append) blast
  next
    case False
    then have "?keep us = us" by (simp add: filter_id_conv)
    then show ?thesis using False by (simp add: items Let_def)
  qed
qed

lemma remove_wildcard_stale_index_witness:
  "topic_of_name [97, 47, 43] \<in> set (sq_items (rg_list (registry_removeTopic 1
     \<lparr>rg_list = \<lparr>sq_items = [topic_of_name [97, 47, 98], topic_of_name [97, 47, 43]], sq_invalid = topic_new\<rparr>,
       rg_messageCount = 0\<rparr>)))"
  using remove_wildcard_stale_index
    [of "\<lparr>rg_list = \<lparr>sq_items = [topic_of_name [97, 47, 98], topic_of_name [97, 47, 43]], sq_invalid = topic_new\<rparr>,
       rg_messageCount = 0\<rparr>" "[topic_of_name [97, 47, 98]]" "topic_of_name [97, 47, 43]" "[]"]
  by (simp add: topic_isWildcardTopic_def topic_isTopicMatched_def topic_of_name_def topic_new_def ch_defs)

text \<open>
  The dispatcher calls at most one handler, that of the first valid topic with the message's
  id; it accepts the message exactly when there is such a topic, and counts the calls.
\<close>

theorem dispatch_first_valid:
  "registry_messageDispatcher i m r =
     (case List.find (\<lambda>t. topic_valid t \<and> to_id t = i) (sq_items (rg_list r)) of
        None \<Rightarrow> (RC_REJECTED_INVALID_TOPIC_ID, None, r)
      | Some t \<Rightarrow> (case to_mh t of
          None \<Rightarrow> (RC_ACCEPTED, None, r)
        | Some h \<Rightarrow> (RC_ACCEPTED, Some \<lparr>hc_handler = h, hc_message = m, hc_topicName = to_topicName t\<rparr>,
             r\<lparr>rg_messageCount := rg_messageCount r + 1\<rparr>)))"
proof -
  have "dispatch_loop i m ts = (case List.find (\<lambda>t. topic_valid t \<and> to_id t = i) ts of
      None \<Rightarrow> (RC_REJECTED_INVALID_TOPIC_ID, None)
    | Some t \<Rightarrow> (RC_ACCEPTED, map_option
        (\<lambda>h. \<lparr>hc_handler = h, hc_message = m, hc_topicName = to_topicName t\<rparr>) (to_mh t)))" for ts
    by (induction ts) (auto simp: topic_eq_id_def)
  then show ?thesis
    by (auto simp: registry_messageDispatcher_def split: option.splits)
qed

end
