(* ===== verification/Loop.thy ===== *)
theory Loop
  imports UtilList Clock
begin

text \<open>
  The loop controller (src/libNbiot/src/nbiotloop.h) and its clients
  (src/libNbiot/src/nbiotloopclient.h). The controller runs one long operation at a time, a step
  per call of \<open>nbiotLoop\<close>; operations that are registered meanwhile wait in a list. A client is
  an object with a start, a step and a stop handler.

  The handlers are callbacks that may use every part of the system, the controller included, so
  a handler is a function on the whole state \<open>lsys\<close>: the controller, the client objects and an
  environment; the record can be extended by the state of the components above. The argument \<open>int&\<close> of a handler is the member \<open>m_loopCtrl\<close> of its client; a
  handler of the model reads and writes that field of the client object. \<open>None\<close> is a null
  pointer dereference, or a handler that does not return.
\<close>

subsection \<open>Types of nbiotdef.h\<close>

datatype NbiotResult = LC_Success | LC_Idle | LC_Pending | LC_Fail

datatype NbiotLoopId = LI_Unknown | LI_Cgatt | LI_Yield | LI_Connect | LI_Publish | LI_Register
  | LI_Subscribe | LI_Unsubscribe | LI_Disconnect

record 'c nloop =
  nl_clientList :: "'c option useq"
  nl_loopClient :: "'c option"
  nl_loopValue :: int
  nl_loopId :: NbiotLoopId
  nl_breakFlag :: bool

record lclient =
  lc_result :: NbiotResult
  lc_ctrl :: int
  lc_timer :: ntimer
  lc_id :: NbiotLoopId

record ('c, 'w) lsys =
  ls_loop :: "'c nloop"
  ls_objs :: "'c \<Rightarrow> lclient"
  ls_env :: 'w

text \<open>The virtual methods of \<open>iLoopControlled\<close>, for the client behind a pointer.\<close>

record ('c, 'w, 'm) iloop =
  il_preLoopStep :: "'c \<Rightarrow> ('c, 'w, 'm) lsys_scheme \<Rightarrow> (NbiotResult \<times> ('c, 'w, 'm) lsys_scheme) option"
  il_loopStep :: "'c \<Rightarrow> ('c, 'w, 'm) lsys_scheme \<Rightarrow> (NbiotResult \<times> ('c, 'w, 'm) lsys_scheme) option"
  il_getResult :: "'c \<Rightarrow> ('c, 'w, 'm) lsys_scheme \<Rightarrow> NbiotResult"
  il_getValue :: "'c \<Rightarrow> ('c, 'w, 'm) lsys_scheme \<Rightarrow> int"
  il_getLoopId :: "'c \<Rightarrow> ('c, 'w, 'm) lsys_scheme \<Rightarrow> NbiotLoopId"

type_synonym ('c, 'w, 'm) handler = "('c, 'w, 'm) lsys_scheme \<Rightarrow> (bool \<times> ('c, 'w, 'm) lsys_scheme) option"

record ('c, 'w, 'm) lhandlers =
  lh_start :: "('c, 'w, 'm) handler option"
  lh_step :: "('c, 'w, 'm) handler option"
  lh_stop :: "('c, 'w, 'm) handler option"

abbreviation on_loop :: "('c nloop \<Rightarrow> 'c nloop) \<Rightarrow> ('c, 'w, 'm) lsys_scheme \<Rightarrow> ('c, 'w, 'm) lsys_scheme" where
  "on_loop f s \<equiv> s\<lparr>ls_loop := f (ls_loop s)\<rparr>"

abbreviation on_client :: "'c \<Rightarrow> (lclient \<Rightarrow> lclient) \<Rightarrow> ('c, 'w, 'm) lsys_scheme \<Rightarrow> ('c, 'w, 'm) lsys_scheme" where
  "on_client c f s \<equiv> s\<lparr>ls_objs := (ls_objs s)(c := f (ls_objs s c))\<rparr>"

subsection \<open>The client\<close>

definition lclient_new :: "NbiotLoopId \<Rightarrow> lclient" where
  "lclient_new i = \<lparr>lc_result = LC_Fail, lc_ctrl = 0, lc_timer = tm_new, lc_id = i\<rparr>"

definition preLoopStep ::
  "('c \<Rightarrow> ('c, 'w, 'm) lhandlers) \<Rightarrow> 'c \<Rightarrow> ('c, 'w, 'm) lsys_scheme \<Rightarrow> (NbiotResult \<times> ('c, 'w, 'm) lsys_scheme) option" where
  "preLoopStep H c s =
     (if lc_result (ls_objs s c) \<noteq> LC_Pending
      then (case lh_start (H c) of
              Some h \<Rightarrow> do {
                (b, s) \<leftarrow> h s;
                let r = (if b then LC_Pending else LC_Fail);
                Some (r, on_client c (\<lambda>x. x\<lparr>lc_result := r\<rparr>) s)
              }
            | None \<Rightarrow> Some (LC_Pending, on_client c (\<lambda>x. x\<lparr>lc_result := LC_Pending\<rparr>) s))
      else Some (LC_Pending, s))"

definition postLoopStep ::
  "('c \<Rightarrow> ('c, 'w, 'm) lhandlers) \<Rightarrow> 'c \<Rightarrow> ('c, 'w, 'm) lsys_scheme \<Rightarrow> (NbiotResult \<times> ('c, 'w, 'm) lsys_scheme) option" where
  "postLoopStep H c s =
     (if lc_result (ls_objs s c) = LC_Pending
      then (case lh_stop (H c) of
              Some h \<Rightarrow> do {
                (b, s) \<leftarrow> h s;
                let r = (if b then LC_Success else LC_Fail);
                Some (r, on_client c (\<lambda>x. x\<lparr>lc_result := r\<rparr>) s)
              }
            | None \<Rightarrow> Some (LC_Success, on_client c (\<lambda>x. x\<lparr>lc_result := LC_Success\<rparr>) s))
      else Some (lc_result (ls_objs s c), s))"

definition loopStep ::
  "('c \<Rightarrow> ('c, 'w, 'm) lhandlers) \<Rightarrow> 'c \<Rightarrow> ('c, 'w, 'm) lsys_scheme \<Rightarrow> (NbiotResult \<times> ('c, 'w, 'm) lsys_scheme) option" where
  "loopStep H c s =
     (if lc_result (ls_objs s c) = LC_Pending
      then (case lh_step (H c) of
              Some h \<Rightarrow> do {
                (b, s) \<leftarrow> h s;
                if b then Some (LC_Pending, on_client c (\<lambda>x. x\<lparr>lc_result := LC_Pending\<rparr>) s)
                else do {
                  (p, s) \<leftarrow> postLoopStep H c s;
                  let r = (if p = LC_Success then LC_Idle else LC_Fail);
                  Some (r, on_client c (\<lambda>x. x\<lparr>lc_result := r\<rparr>) s)
                }
              }
            | None \<Rightarrow> Some (LC_Fail, on_client c (\<lambda>x. x\<lparr>lc_result := LC_Fail\<rparr>) s))
      else Some (lc_result (ls_objs s c), s))"

definition lc_setValue :: "'c \<Rightarrow> int \<Rightarrow> ('c, 'w, 'm) lsys_scheme \<Rightarrow> ('c, 'w, 'm) lsys_scheme" where
  "lc_setValue c v s = on_client c (\<lambda>x. x\<lparr>lc_ctrl := v\<rparr>) s"

definition lc_getValue :: "'c \<Rightarrow> ('c, 'w, 'm) lsys_scheme \<Rightarrow> int" where
  "lc_getValue c s = lc_ctrl (ls_objs s c)"

definition lc_getResult :: "'c \<Rightarrow> ('c, 'w, 'm) lsys_scheme \<Rightarrow> NbiotResult" where
  "lc_getResult c s = lc_result (ls_objs s c)"

definition LoopClient :: "('c \<Rightarrow> ('c, 'w, 'm) lhandlers) \<Rightarrow> ('c, 'w, 'm) iloop" where
  "LoopClient H = \<lparr>il_preLoopStep = preLoopStep H, il_loopStep = loopStep H,
     il_getResult = lc_getResult, il_getValue = lc_getValue,
     il_getLoopId = \<lambda>c s. lc_id (ls_objs s c)\<rparr>"

subsection \<open>The controller\<close>

definition nloop_new :: "'c nloop" where
  "nloop_new = \<lparr>nl_clientList = \<lparr>sq_items = [], sq_invalid = None\<rparr>, nl_loopClient = None,
     nl_loopValue = 0, nl_loopId = LI_Unknown, nl_breakFlag = False\<rparr>"

definition nl_clear :: "'c nloop \<Rightarrow> 'c nloop" where
  "nl_clear l = l\<lparr>nl_clientList := sq_clear (nl_clientList l), nl_loopClient := None,
     nl_loopValue := 0, nl_loopId := LI_Unknown\<rparr>"

definition nl_handleBreak :: "'c nloop \<Rightarrow> 'c nloop" where
  "nl_handleBreak l = (if nl_breakFlag l then (nl_clear l)\<lparr>nl_breakFlag := False\<rparr> else l)"

definition nl_runStep ::
  "('c, 'w, 'm) iloop \<Rightarrow> 'c \<Rightarrow> ('c, 'w, 'm) lsys_scheme \<Rightarrow> (NbiotResult \<times> ('c, 'w, 'm) lsys_scheme) option" where
  "nl_runStep I c s = do {
     (ret, s) \<leftarrow> il_loopStep I c s;
     c1 \<leftarrow> nl_loopClient (ls_loop s);
     let s = on_loop (\<lambda>l. l\<lparr>nl_loopValue := il_getValue I c1 s\<rparr>) s;
     if ret \<noteq> LC_Pending
     then Some (il_getResult I c1 s, on_loop (\<lambda>l. l\<lparr>nl_loopClient := None\<rparr>) s)
     else Some (ret, s)
   }"

definition nl_startNext ::
  "('c, 'w, 'm) iloop \<Rightarrow> ('c, 'w, 'm) lsys_scheme \<Rightarrow> (NbiotResult \<times> ('c, 'w, 'm) lsys_scheme) option" where
  "nl_startNext I s = do {
     let (cl, q) = sq_take_front (nl_clientList (ls_loop s));
     c \<leftarrow> cl;
     let s = on_loop (\<lambda>l. l\<lparr>nl_clientList := q, nl_loopClient := cl\<rparr>) s;
     let s = on_loop (\<lambda>l. l\<lparr>nl_loopId := il_getLoopId I c s\<rparr>) s;
     (ret, s) \<leftarrow> il_preLoopStep I c s;
     Some (ret, if ret \<noteq> LC_Pending
                then on_loop (\<lambda>l. l\<lparr>nl_loopClient := None, nl_loopId := LI_Unknown\<rparr>) s else s)
   }"

definition nbiotLoop ::
  "('c, 'w, 'm) iloop \<Rightarrow> ('c, 'w, 'm) lsys_scheme \<Rightarrow> (NbiotResult \<times> ('c, 'w, 'm) lsys_scheme) option" where
  "nbiotLoop I s0 =
     (let s = on_loop nl_handleBreak s0
      in case nl_loopClient (ls_loop s) of
           Some c \<Rightarrow> nl_runStep I c s
         | None \<Rightarrow>
             if sq_count (nl_clientList (ls_loop s)) \<noteq> 0 then nl_startNext I s
             else Some (LC_Idle, on_loop (\<lambda>l. l\<lparr>nl_loopValue := 0, nl_loopId := LI_Unknown\<rparr>) s))"

definition registerLoopClient :: "'c option \<Rightarrow> 'c nloop \<Rightarrow> 'c nloop" where
  "registerLoopClient client l =
     (case client of
        Some c \<Rightarrow> l\<lparr>nl_clientList := sq_append (Some c) (nl_clientList l)\<rparr>
      | None \<Rightarrow> nl_clear l)"

definition loopBreak :: "'c nloop \<Rightarrow> 'c nloop" where
  "loopBreak l = (if 0 < sq_count (nl_clientList l) then l\<lparr>nl_breakFlag := True\<rparr> else l)"

definition isBusy :: "'c nloop \<Rightarrow> bool" where
  "isBusy l \<longleftrightarrow> 0 < sq_count (nl_clientList l) \<or> nl_loopId l \<noteq> LI_Unknown"

subsection \<open>What the controller may rely on\<close>

text \<open>
  The contract of the interface: \<open>getResult\<close> after a step is the result of the step, and a start
  ends pending or failed. The controller then returns the result of the client it ran.
\<close>

locale loop_controlled =
  fixes I :: "('c, 'w, 'm) iloop"
  assumes step_result: "il_loopStep I c s = Some (r, s') \<Longrightarrow> il_getResult I c (s'\<lparr>ls_loop := l\<rparr>) = r"
    and pre_outcome: "il_preLoopStep I c s = Some (r, s') \<Longrightarrow> r = LC_Pending \<or> r = LC_Fail"
begin

lemma runStep_eq:
  assumes "il_loopStep I c s = Some (r, s1)" and "nl_loopClient (ls_loop s1) = Some c"
  shows "nl_runStep I c s = Some (r, s1\<lparr>ls_loop := (ls_loop s1)
    \<lparr>nl_loopValue := il_getValue I c s1, nl_loopClient := if r = LC_Pending then Some c else None\<rparr>\<rparr>)"
  using assms step_result [OF assms(1)] by (simp add: nl_runStep_def)

lemma startNext_pending:
  assumes "nl_startNext I s = Some (r, s')" and "r \<noteq> LC_Pending"
  shows "r = LC_Fail \<and> nl_loopClient (ls_loop s') = None \<and> nl_loopId (ls_loop s') = LI_Unknown"
  using assms
  by (auto simp: nl_startNext_def Let_def split: prod.splits bind_splits if_splits dest: pre_outcome)

end

lemma loopStep_result:
  assumes "loopStep H c s = Some (r, s')"
  shows "lc_result (ls_objs s' c) = r"
  using assms
  by (auto simp: loopStep_def split: if_splits option.splits prod.splits bind_splits)

interpretation lc: loop_controlled "LoopClient H" for H
proof
  show "il_getResult (LoopClient H) c (s'\<lparr>ls_loop := l\<rparr>) = r"
    if "il_loopStep (LoopClient H) c s = Some (r, s')" for c s r s' l
    using loopStep_result [of H c s r s'] that by (simp add: LoopClient_def lc_getResult_def)
  show "r = LC_Pending \<or> r = LC_Fail"
    if "il_preLoopStep (LoopClient H) c s = Some (r, s')" for c s r s'
    using that
    by (auto simp: LoopClient_def preLoopStep_def split: if_splits option.splits bind_splits)
qed

lemma iloop_LoopClient [simp]:
  "il_preLoopStep (LoopClient H) = preLoopStep H"
  "il_loopStep (LoopClient H) = loopStep H"
  "il_getResult (LoopClient H) = lc_getResult"
  "il_getValue (LoopClient H) = lc_getValue"
  "il_getLoopId (LoopClient H) c s = lc_id (ls_objs s c)"
  by (simp_all add: LoopClient_def)

subsection \<open>Handlers\<close>

text \<open>
  What a handler may do with the controller: register clients, clear it and set the break flag; the
  results and ids of the clients are private to them. \<open>confined\<close> handlers do not use the controller at all and touch only
  their own client.
\<close>

inductive loop_use :: "('c \<Rightarrow> bool) \<Rightarrow> 'c nloop \<Rightarrow> 'c nloop \<Rightarrow> bool" for known where
  use_nothing: "loop_use known l l"
| use_register: "loop_use known l l' \<Longrightarrow> known c \<Longrightarrow> loop_use known l (registerLoopClient (Some c) l')"
| use_clear: "loop_use known l l' \<Longrightarrow> loop_use known l (registerLoopClient None l')"
| use_break: "loop_use known l l' \<Longrightarrow> loop_use known l (loopBreak l')"

definition handlers :: "('c \<Rightarrow> ('c, 'w, 'm) lhandlers) \<Rightarrow> ('c, 'w, 'm) handler set" where
  "handlers H = {h. \<exists>c. lh_start (H c) = Some h \<or> lh_step (H c) = Some h \<or> lh_stop (H c) = Some h}"

definition confined :: "'c \<Rightarrow> ('c, 'w, 'm) handler \<Rightarrow> bool" where
  "confined c h \<longleftrightarrow>
     (\<forall>s. \<exists>b s'. h s = Some (b, s') \<and> ls_loop s' = ls_loop s
        \<and> lc_result (ls_objs s' c) = lc_result (ls_objs s c)
        \<and> (\<forall>d. d \<noteq> c \<longrightarrow> ls_objs s' d = ls_objs s d))"

subsection \<open>One client at a time, in order, to the end\<close>

text \<open>\<open>loop_run I n s\<close>: \<open>n\<close> calls of \<open>nbiotLoop\<close>, with the clients that were taken from the list.\<close>

definition loop_takes :: "'c nloop \<Rightarrow> 'c list" where
  "loop_takes l = (case nl_loopClient (nl_handleBreak l) of
     Some _ \<Rightarrow> [] | None \<Rightarrow> (case sq_items (nl_clientList (nl_handleBreak l)) of Some c # _ \<Rightarrow> [c] | _ \<Rightarrow> []))"

fun loop_run :: "('c, 'w, 'm) iloop \<Rightarrow> nat \<Rightarrow> ('c, 'w, 'm) lsys_scheme \<Rightarrow> ('c list \<times> ('c, 'w, 'm) lsys_scheme) option" where
  "loop_run I 0 s = Some ([], s)"
| "loop_run I (Suc n) s = do {
     (r, s1) \<leftarrow> nbiotLoop I s;
     (cs, s2) \<leftarrow> loop_run I n s1;
     Some (loop_takes (ls_loop s) @ cs, s2)
   }"

lemma loop_run_add:
  "loop_run I (m + n) s = do { (cs, s1) \<leftarrow> loop_run I m s; (ds, s2) \<leftarrow> loop_run I n s1; Some (cs @ ds, s2) }"
  by (induction m arbitrary: s) (auto split: bind_splits prod.splits simp: bind_eq_Some_conv)

definition lc_meas :: "('c \<Rightarrow> int \<Rightarrow> ntimer \<Rightarrow> 'w \<Rightarrow> 'm \<Rightarrow> nat) \<Rightarrow> 'c \<Rightarrow> ('c, 'w, 'm) lsys_scheme \<Rightarrow> nat" where
  "lc_meas m c s = m c (lc_ctrl (ls_objs s c)) (lc_timer (ls_objs s c)) (ls_env s) (lsys.more s)"

definition progressing :: "('c \<Rightarrow> ('c, 'w, 'm) lhandlers) \<Rightarrow> ('c \<Rightarrow> int \<Rightarrow> ntimer \<Rightarrow> 'w \<Rightarrow> 'm \<Rightarrow> nat) \<Rightarrow> bool" where
  "progressing H m \<longleftrightarrow>
     (\<forall>c h. lh_start (H c) = Some h \<or> lh_step (H c) = Some h \<or> lh_stop (H c) = Some h \<longrightarrow> confined c h)
     \<and> (\<forall>c h s s'. lh_step (H c) = Some h \<and> h s = Some (True, s') \<longrightarrow> lc_meas m c s' < lc_meas m c s)"

text \<open>The controller between two clients, with the clients \<open>cs\<close> waiting.\<close>

definition loop_waiting :: "'c list \<Rightarrow> ('c, 'w, 'm) lsys_scheme \<Rightarrow> bool" where
  "loop_waiting cs s \<longleftrightarrow> \<not> nl_breakFlag (ls_loop s) \<and> nl_loopClient (ls_loop s) = None
     \<and> sq_items (nl_clientList (ls_loop s)) = map Some cs
     \<and> (\<forall>c \<in> set cs. lc_result (ls_objs s c) \<noteq> LC_Pending)"

definition loop_serving :: "'c \<Rightarrow> 'c list \<Rightarrow> ('c, 'w, 'm) lsys_scheme \<Rightarrow> bool" where
  "loop_serving c cs s \<longleftrightarrow> \<not> nl_breakFlag (ls_loop s) \<and> nl_loopClient (ls_loop s) = Some c
     \<and> sq_items (nl_clientList (ls_loop s)) = map Some cs \<and> lc_result (ls_objs s c) = LC_Pending
     \<and> (\<forall>d \<in> set cs - {c}. lc_result (ls_objs s d) \<noteq> LC_Pending)"

lemma confinedE:
  assumes "confined c h"
  obtains b s' where "h s = Some (b, s')" "ls_loop s' = ls_loop s"
    "lc_result (ls_objs s' c) = lc_result (ls_objs s c)" "\<And>d. d \<noteq> c \<Longrightarrow> ls_objs s' d = ls_objs s d"
  using assms unfolding confined_def by blast

lemma postLoopStep_confined:
  assumes "\<And>h. lh_stop (H c) = Some h \<Longrightarrow> confined c h" and "lc_result (ls_objs s c) = LC_Pending"
  shows "\<exists>p s'. postLoopStep H c s = Some (p, s') \<and> ls_loop s' = ls_loop s
    \<and> (\<forall>d. d \<noteq> c \<longrightarrow> ls_objs s' d = ls_objs s d)"
proof (cases "lh_stop (H c)")
  case None
  then show ?thesis using assms(2) by (simp add: postLoopStep_def)
next
  case (Some h)
  obtain b s' where "h s = Some (b, s')" "ls_loop s' = ls_loop s"
    "\<And>d. d \<noteq> c \<Longrightarrow> ls_objs s' d = ls_objs s d"
    using confinedE [OF assms(1) [OF Some]] by metis
  then show ?thesis using Some assms(2) by (simp add: postLoopStep_def)
qed

lemma loopStep_confined:
  assumes "progressing H m" and "lc_result (ls_objs s c) = LC_Pending"
  shows "\<exists>r s'. loopStep H c s = Some (r, s') \<and> ls_loop s' = ls_loop s \<and> lc_result (ls_objs s' c) = r
    \<and> (\<forall>d. d \<noteq> c \<longrightarrow> ls_objs s' d = ls_objs s d) \<and> (r = LC_Pending \<longrightarrow> lc_meas m c s' < lc_meas m c s)"
proof (cases "lh_step (H c)")
  case None
  then show ?thesis using assms(2) by (simp add: loopStep_def)
next
  case (Some h)
  have c: "\<And>h. lh_step (H c) = Some h \<or> lh_stop (H c) = Some h \<Longrightarrow> confined c h"
    using assms(1) unfolding progressing_def by blast
  obtain b s1 where h: "h s = Some (b, s1)" "ls_loop s1 = ls_loop s"
    "lc_result (ls_objs s1 c) = LC_Pending" "\<And>d. d \<noteq> c \<Longrightarrow> ls_objs s1 d = ls_objs s d"
    using confinedE [OF c] Some assms(2) by metis
  show ?thesis
  proof (cases b)
    case True
    then have "h s = Some (True, s1)" using h(1) by simp
    then have "lc_meas m c s1 < lc_meas m c s"
      using assms(1) Some unfolding progressing_def by blast
    then show ?thesis using Some h True assms(2) by (simp add: loopStep_def lc_meas_def)
  next
    case False
    obtain p s2 where p: "postLoopStep H c s1 = Some (p, s2)" "ls_loop s2 = ls_loop s1"
      "\<And>d. d \<noteq> c \<Longrightarrow> ls_objs s2 d = ls_objs s1 d"
      using postLoopStep_confined [of H c s1] c h(3) by metis
    then show ?thesis using Some h False assms(2) by (simp add: loopStep_def)
  qed
qed

lemma nbiotLoop_serving:
  assumes "progressing H m" and "loop_serving c cs s"
  shows "\<exists>r s'. nbiotLoop (LoopClient H) s = Some (r, s') \<and> loop_takes (ls_loop s) = []
    \<and> (if r = LC_Pending then loop_serving c cs s' \<and> lc_meas m c s' < lc_meas m c s
       else loop_waiting cs s')"
proof -
  have s: "\<not> nl_breakFlag (ls_loop s)" "nl_loopClient (ls_loop s) = Some c"
    "lc_result (ls_objs s c) = LC_Pending" "sq_items (nl_clientList (ls_loop s)) = map Some cs"
    using assms(2) by (simp_all add: loop_serving_def)
  obtain r s1 where r: "loopStep H c s = Some (r, s1)" "ls_loop s1 = ls_loop s"
    "lc_result (ls_objs s1 c) = r" "\<And>d. d \<noteq> c \<Longrightarrow> ls_objs s1 d = ls_objs s d"
    "r = LC_Pending \<Longrightarrow> lc_meas m c s1 < lc_meas m c s"
    using loopStep_confined [OF assms(1) s(3)] by blast
  have "nl_runStep (LoopClient H) c s = Some (r, s1\<lparr>ls_loop := (ls_loop s1)
    \<lparr>nl_loopValue := lc_getValue c s1, nl_loopClient := if r = LC_Pending then Some c else None\<rparr>\<rparr>)"
    using lc.runStep_eq [of H c s r s1] r(1,2) s(2) by simp
  then have "nbiotLoop (LoopClient H) s = Some (r, s1\<lparr>ls_loop := (ls_loop s1)
    \<lparr>nl_loopValue := lc_getValue c s1, nl_loopClient := if r = LC_Pending then Some c else None\<rparr>\<rparr>)"
    using s by (simp add: nbiotLoop_def nl_handleBreak_def)
  moreover have "\<forall>d \<in> set cs - {c}. lc_result (ls_objs s1 d) \<noteq> LC_Pending"
    using assms(2) r(4) by (simp add: loop_serving_def)
  ultimately show ?thesis
    using s r(2,3,5)
    by (auto simp: loop_serving_def loop_waiting_def loop_takes_def nl_handleBreak_def lc_meas_def)
qed

lemma nbiotLoop_waiting:
  assumes "progressing H m" and "loop_waiting (c # cs) s"
  shows "\<exists>r s'. nbiotLoop (LoopClient H) s = Some (r, s') \<and> loop_takes (ls_loop s) = [c]
    \<and> (loop_serving c cs s' \<or> loop_waiting cs s')"
proof -
  have s: "\<not> nl_breakFlag (ls_loop s)" "nl_loopClient (ls_loop s) = None"
    "lc_result (ls_objs s c) \<noteq> LC_Pending" "sq_items (nl_clientList (ls_loop s)) = Some c # map Some cs"
    "\<And>d. d \<in> set cs \<Longrightarrow> lc_result (ls_objs s d) \<noteq> LC_Pending"
    using assms(2) by (simp_all add: loop_waiting_def)
  let ?l = "(ls_loop s)\<lparr>nl_clientList := (nl_clientList (ls_loop s))\<lparr>sq_items := map Some cs\<rparr>,
    nl_loopClient := Some c, nl_loopId := lc_id (ls_objs s c)\<rparr>"
  let ?s = "s\<lparr>ls_loop := ?l\<rparr>"
  have c: "\<And>h. lh_start (H c) = Some h \<Longrightarrow> confined c h"
    using assms(1) unfolding progressing_def by blast
  have "\<exists>r s1. preLoopStep H c ?s = Some (r, s1) \<and> ls_loop s1 = ?l \<and> lc_result (ls_objs s1 c) = r
    \<and> (\<forall>d. d \<noteq> c \<longrightarrow> ls_objs s1 d = ls_objs s d)"
  proof (cases "lh_start (H c)")
    case None
    then show ?thesis using s(3) by (simp add: preLoopStep_def)
  next
    case (Some h)
    obtain b s1 where "h ?s = Some (b, s1)" "ls_loop s1 = ls_loop ?s"
      "\<And>d. d \<noteq> c \<Longrightarrow> ls_objs s1 d = ls_objs ?s d"
      using c [OF Some] unfolding confined_def by blast
    then show ?thesis using Some s(3) by (simp add: preLoopStep_def)
  qed
  then obtain r s1 where r: "preLoopStep H c ?s = Some (r, s1)" "ls_loop s1 = ?l"
    "lc_result (ls_objs s1 c) = r" "\<And>d. d \<noteq> c \<Longrightarrow> ls_objs s1 d = ls_objs s d"
    by blast
  have "nl_startNext (LoopClient H) s = Some (r, if r \<noteq> LC_Pending
      then s1\<lparr>ls_loop := ?l\<lparr>nl_loopClient := None, nl_loopId := LI_Unknown\<rparr>\<rparr> else s1)"
    using r(1,2) s(4) by (simp add: nl_startNext_def sq_take_front_def)
  then have "nbiotLoop (LoopClient H) s = Some (r, if r \<noteq> LC_Pending
      then s1\<lparr>ls_loop := ?l\<lparr>nl_loopClient := None, nl_loopId := LI_Unknown\<rparr>\<rparr> else s1)"
    using s(1,2,4) by (simp add: nbiotLoop_def nl_handleBreak_def sq_count_def)
  moreover have "\<forall>d \<in> set cs - {c}. lc_result (ls_objs s1 d) \<noteq> LC_Pending" using s(5) r(4) by simp
  ultimately show ?thesis
    using s(1,2,4) r(2,3) by (auto simp: loop_serving_def loop_waiting_def loop_takes_def nl_handleBreak_def)
qed

lemma loop_serves_one:
  assumes "progressing H m" and "loop_serving c cs s"
  shows "\<exists>n s'. loop_run (LoopClient H) n s = Some ([], s') \<and> loop_waiting cs s'"
  using assms(2)
proof (induction "lc_meas m c s" arbitrary: s rule: less_induct)
  case less
  obtain r s1 where r: "nbiotLoop (LoopClient H) s = Some (r, s1)" "loop_takes (ls_loop s) = []"
    "if r = LC_Pending then loop_serving c cs s1 \<and> lc_meas m c s1 < lc_meas m c s else loop_waiting cs s1"
    using nbiotLoop_serving [OF assms(1) less.prems] by blast
  show ?case
  proof (cases "r = LC_Pending")
    case True
    then obtain n s' where "loop_run (LoopClient H) n s1 = Some ([], s')" "loop_waiting cs s'"
      using less.hyps [of s1] r(3) by auto
    then show ?thesis using r by (intro exI [of _ "Suc n"] exI [of _ s']) simp
  next
    case False
    then show ?thesis using r by (intro exI [of _ 1] exI [of _ s1]) simp
  qed
qed

lemma loop_serves_list:
  assumes "progressing H m" and "loop_waiting cs s"
  shows "\<exists>n s'. loop_run (LoopClient H) n s = Some (cs, s') \<and> loop_waiting [] s'"
  using assms(2)
proof (induction cs arbitrary: s)
  case Nil
  then show ?case by (intro exI [of _ 0] exI [of _ s]) simp
next
  case (Cons c cs)
  obtain r s1 where r: "nbiotLoop (LoopClient H) s = Some (r, s1)" "loop_takes (ls_loop s) = [c]"
    "loop_serving c cs s1 \<or> loop_waiting cs s1"
    using nbiotLoop_waiting [OF assms(1) Cons.prems] by blast
  have "\<exists>n s2. loop_run (LoopClient H) n s1 = Some ([], s2) \<and> loop_waiting cs s2"
    using r(3)
  proof
    assume "loop_serving c cs s1"
    then show ?thesis by (rule loop_serves_one [OF assms(1)])
  next
    assume "loop_waiting cs s1"
    then show ?thesis by (intro exI [of _ 0] exI [of _ s1]) simp
  qed
  then obtain n s2 where n: "loop_run (LoopClient H) n s1 = Some ([], s2)" "loop_waiting cs s2" by blast
  obtain k s' where "loop_run (LoopClient H) k s2 = Some (cs, s')" "loop_waiting [] s'"
    using Cons.IH [OF n(2)] by blast
  then show ?case
    using r(1,2) n(1) by (intro exI [of _ "Suc (n + k)"] exI [of _ s']) (simp add: loop_run_add)
qed


text \<open>A concrete client: its step counts the environment down to zero.\<close>

definition countdown_handlers :: "NbiotLoopId \<Rightarrow> (NbiotLoopId, nat, unit) lhandlers" where
  "countdown_handlers c = \<lparr>lh_start = None,
     lh_step = Some (\<lambda>s. Some (0 < ls_env s, s\<lparr>ls_env := ls_env s - 1\<rparr>)), lh_stop = None\<rparr>"

definition lsys_new :: "'w \<Rightarrow> (NbiotLoopId, 'w) lsys" where
  "lsys_new w = \<lparr>ls_loop = nloop_new, ls_objs = lclient_new, ls_env = w\<rparr>"

lemma countdown_progressing: "progressing countdown_handlers (\<lambda>_ _ _ w _. w)"
  by (auto simp: progressing_def confined_def countdown_handlers_def lc_meas_def)


subsection \<open>The break of a loop\<close>

text \<open>
  C37: a client that is interrupted is not reset. After a break that finds other clients waiting,
  \<open>nbiotLoop\<close> drops the running client, but the client still calls itself pending; when it is
  registered again, \<open>nbiotLoop\<close> reports it as started without running its start handler: neither
  the environment nor any client object has changed.
\<close>

theorem interrupted_client_skips_start:
  assumes "nl_loopClient (ls_loop s) = Some c" and "lc_result (ls_objs s c) = LC_Pending"
    and "sq_items (nl_clientList (ls_loop s)) \<noteq> []"
    and "nbiotLoop (LoopClient H) (on_loop loopBreak s) = Some (r, s1)"
  shows "r = LC_Idle \<and> \<not> isBusy (ls_loop s1)
    \<and> (\<exists>s2. nbiotLoop (LoopClient H) (on_loop (registerLoopClient (Some c)) s1) = Some (LC_Pending, s2)
        \<and> nl_loopClient (ls_loop s2) = Some c \<and> ls_env s2 = ls_env s \<and> ls_objs s2 = ls_objs s
        \<and> lsys.more s2 = lsys.more s)"
proof -
  have l: "loopBreak (ls_loop s) = (ls_loop s)\<lparr>nl_breakFlag := True\<rparr>"
    using assms(3) by (simp add: loopBreak_def sq_count_def)
  have s1: "r = LC_Idle" "ls_env s1 = ls_env s" "ls_objs s1 = ls_objs s" "lsys.more s1 = lsys.more s"
    "\<not> nl_breakFlag (ls_loop s1)" "nl_loopClient (ls_loop s1) = None" "nl_loopId (ls_loop s1) = LI_Unknown"
    "sq_items (nl_clientList (ls_loop s1)) = []"
    using assms(4) by (auto simp: nbiotLoop_def l nl_handleBreak_def nl_clear_def sq_clear_def sq_count_def)
  then show ?thesis
    using assms(2)
    by (simp add: isBusy_def sq_count_def nbiotLoop_def nl_handleBreak_def registerLoopClient_def
        sq_append_def nl_startNext_def sq_take_front_def preLoopStep_def)
qed

lemma interrupted_client_skips_start_witness:
  "\<exists>s1 s2. nbiotLoop (LoopClient countdown_handlers) (on_loop (registerLoopClient (Some LI_Register)) s1)
     = Some (LC_Pending, s2) \<and> ls_env s2 = 7"
proof -
  let ?s = "\<lparr>ls_loop = \<lparr>nl_clientList = \<lparr>sq_items = [Some LI_Publish], sq_invalid = None\<rparr>,
      nl_loopClient = Some LI_Register, nl_loopValue = 0, nl_loopId = LI_Register, nl_breakFlag = False\<rparr>,
    ls_objs = (\<lambda>i. (lclient_new i)\<lparr>lc_result := if i = LI_Register then LC_Pending else LC_Idle\<rparr>),
    ls_env = 7 :: nat\<rparr>"
  obtain r s1 where "nbiotLoop (LoopClient countdown_handlers) (on_loop loopBreak ?s) = Some (r, s1)"
    by (simp add: nbiotLoop_def loopBreak_def nl_handleBreak_def nl_clear_def sq_clear_def sq_count_def)
  from interrupted_client_skips_start [OF _ _ _ this] show ?thesis by auto
qed

subsection \<open>Reachable controllers\<close>

text \<open>
  What can happen to the controller: a call of \<open>nbiotLoop\<close>, or a use by the application
  (registration of a client whose id is not \<open>LI_Unknown\<close>, clearing, a break), which may change the
  environment, the timers and the values of the clients as it likes.
\<close>

definition client_known :: "('c, 'w, 'm) lsys_scheme \<Rightarrow> 'c \<Rightarrow> bool" where
  "client_known s c \<longleftrightarrow> lc_id (ls_objs s c) \<noteq> LI_Unknown"

inductive loop_sys_step :: "('c \<Rightarrow> ('c, 'w, 'm) lhandlers) \<Rightarrow> ('c, 'w, 'm) lsys_scheme \<Rightarrow> ('c, 'w, 'm) lsys_scheme \<Rightarrow> bool" for H where
  step_call: "nbiotLoop (LoopClient H) s = Some (r, s') \<Longrightarrow> loop_sys_step H s s'"
| step_use: "loop_use (client_known s) (ls_loop s) (ls_loop s') \<Longrightarrow>
    (\<And>c. lc_result (ls_objs s' c) = lc_result (ls_objs s c) \<and> lc_id (ls_objs s' c) = lc_id (ls_objs s c)) \<Longrightarrow>
    loop_sys_step H s s'"

inductive loop_sys_reachable :: "('c \<Rightarrow> ('c, 'w, 'm) lhandlers) \<Rightarrow> ('c, 'w, 'm) lsys_scheme \<Rightarrow> bool" for H where
  sys_start: "ls_loop s = nloop_new \<Longrightarrow> loop_sys_reachable H s"
| sys_step: "loop_sys_reachable H s \<Longrightarrow> loop_sys_step H s s' \<Longrightarrow> loop_sys_reachable H s'"

text \<open>
  \<open>queue_ok\<close> is about the list alone; \<open>loop_inv\<close> adds that the running client is the one that the
  controller names, and that it is pending.
\<close>

definition queue_ok :: "('c \<Rightarrow> bool) \<Rightarrow> 'c nloop \<Rightarrow> bool" where
  "queue_ok known l \<longleftrightarrow> (\<forall>x \<in> set (sq_items (nl_clientList l)). \<exists>c. x = Some c \<and> known c)"

definition loop_inv :: "('c, 'w, 'm) lsys_scheme \<Rightarrow> bool" where
  "loop_inv s \<longleftrightarrow> queue_ok (client_known s) (ls_loop s)
     \<and> (\<forall>c. nl_loopClient (ls_loop s) = Some c \<longrightarrow> client_known s c
          \<and> nl_loopId (ls_loop s) = lc_id (ls_objs s c) \<and> lc_result (ls_objs s c) = LC_Pending)"

lemma loop_use_keeps:
  assumes "loop_use known l l'" and "queue_ok known l"
  shows "queue_ok known l' \<and> (nl_loopClient l' = None
    \<or> nl_loopClient l' = nl_loopClient l \<and> nl_loopId l' = nl_loopId l)"
  using assms
  by (induction rule: loop_use.induct)
    (auto simp: queue_ok_def registerLoopClient_def nl_clear_def sq_clear_def sq_append_def loopBreak_def)

definition handlers_ok :: "('c \<Rightarrow> ('c, 'w, 'm) lhandlers) \<Rightarrow> bool" where
  "handlers_ok H \<longleftrightarrow> (\<forall>h \<in> handlers H. \<forall>s b s'. h s = Some (b, s') \<longrightarrow>
     loop_use (client_known s) (ls_loop s) (ls_loop s')
     \<and> (\<forall>c. lc_result (ls_objs s' c) = lc_result (ls_objs s c) \<and> lc_id (ls_objs s' c) = lc_id (ls_objs s c)))"

text \<open>What a call of a client leaves: \<open>kept c s s'\<close>.\<close>

definition kept :: "'c \<Rightarrow> ('c, 'w, 'm) lsys_scheme \<Rightarrow> ('c, 'w, 'm) lsys_scheme \<Rightarrow> bool" where
  "kept c s s' \<longleftrightarrow> (\<forall>d. lc_id (ls_objs s' d) = lc_id (ls_objs s d))
     \<and> queue_ok (client_known s') (ls_loop s')
     \<and> (nl_loopClient (ls_loop s') = None
        \<or> nl_loopClient (ls_loop s') = nl_loopClient (ls_loop s) \<and> nl_loopId (ls_loop s') = nl_loopId (ls_loop s))"

lemma client_known_cong: "(\<And>d. lc_id (ls_objs s' d) = lc_id (ls_objs s d)) \<Longrightarrow> client_known s' = client_known s"
  by (auto simp: client_known_def)

lemma handler_kept:
  assumes "handlers_ok H" and "h \<in> handlers H" and "h s = Some (b, s')"
    and "queue_ok (client_known s) (ls_loop s)"
  shows "kept c s s' \<and> lc_result (ls_objs s' c) = lc_result (ls_objs s c)"
proof -
  have u: "loop_use (client_known s) (ls_loop s) (ls_loop s')"
    "\<And>c. lc_result (ls_objs s' c) = lc_result (ls_objs s c) \<and> lc_id (ls_objs s' c) = lc_id (ls_objs s c)"
    using assms(1,2,3) unfolding handlers_ok_def by blast+
  then have "client_known s' = client_known s" by (intro client_known_cong) blast
  then show ?thesis using loop_use_keeps [OF u(1) assms(4)] u(2) by (simp add: kept_def)
qed

lemma kept_result: "kept c s (on_client c (\<lambda>x. x\<lparr>lc_result := r\<rparr>) s') \<longleftrightarrow> kept c s s'"
  by (auto simp: kept_def client_known_def queue_ok_def)

lemma kept_trans: "kept c s s1 \<Longrightarrow> kept c s1 s2 \<Longrightarrow> kept c s s2"
  by (auto simp: kept_def)

lemma kept_refl: "queue_ok (client_known s) (ls_loop s) \<Longrightarrow> kept c s s"
  by (simp add: kept_def)

lemma kept_queue: "kept c s s' \<Longrightarrow> queue_ok (client_known s') (ls_loop s')"
  by (simp add: kept_def)

lemma preLoopStep_kept:
  assumes "handlers_ok H" and "queue_ok (client_known s) (ls_loop s)" and "preLoopStep H c s = Some (r, s')"
  shows "kept c s s' \<and> lc_result (ls_objs s' c) = r"
proof (cases "lh_start (H c)")
  case None
  then show ?thesis
    using assms(2,3) by (auto simp: preLoopStep_def kept_result kept_refl split: if_splits)
next
  case (Some h)
  then have "h \<in> handlers H" by (auto simp: handlers_def)
  then show ?thesis
    using assms(2,3) Some handler_kept [OF assms(1), of h s _ _ c]
    by (auto simp: preLoopStep_def kept_result kept_refl split: if_splits bind_splits)
qed

lemma postLoopStep_kept:
  assumes "handlers_ok H" and "queue_ok (client_known s) (ls_loop s)" and "postLoopStep H c s = Some (r, s')"
  shows "kept c s s'"
proof (cases "lh_stop (H c)")
  case None
  then show ?thesis
    using assms(2,3) by (auto simp: postLoopStep_def kept_result kept_refl split: if_splits)
next
  case (Some h)
  then have "h \<in> handlers H" by (auto simp: handlers_def)
  then show ?thesis
    using assms(2,3) Some handler_kept [OF assms(1), of h s _ _ c]
    by (auto simp: postLoopStep_def kept_result kept_refl split: if_splits bind_splits)
qed

lemma loopStep_kept:
  assumes "handlers_ok H" and "queue_ok (client_known s) (ls_loop s)" and "loopStep H c s = Some (r, s')"
  shows "kept c s s'"
proof (cases "lc_result (ls_objs s c) = LC_Pending \<and> lh_step (H c) \<noteq> None")
  case False
  then show ?thesis
    using assms(2,3) by (auto simp: loopStep_def kept_result kept_refl split: if_splits)
next
  case pending: True
  then obtain h where h: "lh_step (H c) = Some h" by blast
  with pending assms(3) obtain b s1 where s1: "h s = Some (b, s1)"
    by (auto simp: loopStep_def split: bind_splits)
  have hh: "h \<in> handlers H" using h by (auto simp: handlers_def)
  have k: "kept c s s1" using handler_kept [where h = h, OF assms(1) hh s1 assms(2)] by blast
  show ?thesis
  proof (cases b)
    case True
    then show ?thesis
      using k h s1 assms(3) pending by (auto simp: loopStep_def kept_result split: if_splits)
  next
    case False
    then obtain p s2 r' where "postLoopStep H c s1 = Some (p, s2)"
      "s' = on_client c (\<lambda>x. x\<lparr>lc_result := r'\<rparr>) s2"
      using h s1 assms(3) pending
      by (auto simp: loopStep_def Let_def split: bind_splits)
    then show ?thesis
      using kept_trans [OF k postLoopStep_kept [OF assms(1) kept_queue [OF k]]] by (simp add: kept_result)
  qed
qed

lemma runStep_inv:
  assumes "handlers_ok H" and "loop_inv s" and "nl_loopClient (ls_loop s) = Some c"
    and "nl_runStep (LoopClient H) c s = Some (r, s')"
  shows "loop_inv s'"
proof -
  obtain r1 s1 where s1: "loopStep H c s = Some (r1, s1)"
    using assms(4) by (auto simp: nl_runStep_def split: bind_splits)
  have k: "kept c s s1"
    using loopStep_kept [OF assms(1) _ s1] assms(2) by (simp add: loop_inv_def)
  have "nl_loopClient (ls_loop s1) = Some c"
    using assms(3,4) s1 k by (auto simp: nl_runStep_def kept_def split: bind_splits)
  then have "s' = s1\<lparr>ls_loop := (ls_loop s1)
      \<lparr>nl_loopValue := lc_getValue c s1, nl_loopClient := if r1 = LC_Pending then Some c else None\<rparr>\<rparr>"
    and "nl_loopId (ls_loop s1) = nl_loopId (ls_loop s)"
    using lc.runStep_eq [of H c s r1 s1] s1 assms(4) k by (simp_all add: kept_def)
  then show ?thesis
    using k assms(2,3) loopStep_result [OF s1]
    by (auto simp: loop_inv_def kept_def queue_ok_def client_known_def)
qed

lemma startNext_inv:
  assumes "handlers_ok H" and "loop_inv s" and "nl_startNext (LoopClient H) s = Some (r, s')"
    and "sq_items (nl_clientList (ls_loop s)) \<noteq> []"
  shows "loop_inv s'"
proof -
  obtain c q where q: "sq_take_front (nl_clientList (ls_loop s)) = (Some c, q)"
    using assms(3) by (auto simp: nl_startNext_def split: prod.splits bind_splits)
  let ?s = "s\<lparr>ls_loop := (ls_loop s)
    \<lparr>nl_clientList := q, nl_loopClient := Some c, nl_loopId := lc_id (ls_objs s c)\<rparr>\<rparr>"
  obtain s1 where s1: "preLoopStep H c ?s = Some (r, s1)"
    "s' = (if r \<noteq> LC_Pending then s1\<lparr>ls_loop := (ls_loop s1)\<lparr>nl_loopClient := None, nl_loopId := LI_Unknown\<rparr>\<rparr>
           else s1)"
    using assms(3) q by (auto simp: nl_startNext_def split: bind_splits)
  have ok: "queue_ok (client_known s) (ls_loop s)" using assms(2) by (simp add: loop_inv_def)
  have c: "client_known s c \<and> queue_ok (client_known s) (ls_loop ?s)"
    using q ok assms(4) by (auto simp: sq_take_front_def queue_ok_def split: list.splits)
  have "client_known ?s = client_known s" by (intro client_known_cong) simp
  then have "kept c ?s s1" "lc_result (ls_objs s1 c) = r"
    using preLoopStep_kept [OF assms(1) _ s1(1)] c by simp_all
  then show ?thesis
    using s1(2) c by (auto simp: loop_inv_def kept_def queue_ok_def client_known_def)
qed

lemma nbiotLoop_inv:
  assumes "handlers_ok H" and "loop_inv s" and "nbiotLoop (LoopClient H) s = Some (r, s')"
  shows "loop_inv s'"
proof -
  let ?s = "s\<lparr>ls_loop := nl_handleBreak (ls_loop s)\<rparr>"
  have "client_known ?s = client_known s" by (intro client_known_cong) simp
  then have inv: "loop_inv ?s"
    using assms(2) by (auto simp: loop_inv_def nl_handleBreak_def nl_clear_def sq_clear_def queue_ok_def)
  show ?thesis
  proof (cases "nl_loopClient (ls_loop ?s)")
    case (Some c)
    then show ?thesis using runStep_inv [OF assms(1) inv Some] assms(3) by (simp add: nbiotLoop_def)
  next
    case None
    show ?thesis
    proof (cases "sq_items (nl_clientList (ls_loop ?s)) = []")
      case True
      then have "s' = ?s\<lparr>ls_loop := (ls_loop ?s)\<lparr>nl_loopValue := 0, nl_loopId := LI_Unknown\<rparr>\<rparr>"
        using None assms(3) by (simp add: nbiotLoop_def sq_count_def)
      then show ?thesis using None True by (simp add: loop_inv_def queue_ok_def)
    next
      case False
      then have "nl_startNext (LoopClient H) ?s = Some (r, s')"
        using None assms(3) by (simp add: nbiotLoop_def sq_count_def)
      then show ?thesis using startNext_inv [OF assms(1) inv _ False] by blast
    qed
  qed
qed

lemma use_inv:
  assumes "loop_use (client_known s) (ls_loop s) (ls_loop s')" and "loop_inv s"
    and "\<And>c. lc_result (ls_objs s' c) = lc_result (ls_objs s c) \<and> lc_id (ls_objs s' c) = lc_id (ls_objs s c)"
  shows "loop_inv s'"
proof -
  have "client_known s' = client_known s" using assms(3) by (intro client_known_cong) blast
  then show ?thesis
    using loop_use_keeps [OF assms(1)] assms(2,3) by (auto simp: loop_inv_def)
qed

text \<open>
  In every reachable state a client that runs is a client that the controller names by its id
  and that is pending; so a controller that says it is not busy has no client running. Start, step
  and stop handlers may themselves register clients, clear the controller or ask for a break.
\<close>

theorem idle_loop_has_no_client:
  assumes "loop_sys_reachable H s" and "handlers_ok H"
  shows "(\<not> isBusy (ls_loop s) \<longrightarrow> nl_loopClient (ls_loop s) = None)
    \<and> (\<forall>c. nl_loopClient (ls_loop s) = Some c \<longrightarrow>
          nl_loopId (ls_loop s) = lc_id (ls_objs s c) \<and> lc_result (ls_objs s c) = LC_Pending)"
proof -
  from assms(1) have "loop_inv s"
  proof (induction rule: loop_sys_reachable.induct)
    case (sys_start s)
    then show ?case by (simp add: loop_inv_def nloop_new_def queue_ok_def)
  next
    case (sys_step s s')
    from sys_step.hyps(2) show ?case
    proof cases
      case (step_call r)
      then show ?thesis using nbiotLoop_inv [OF assms(2) sys_step.IH] by blast
    next
      case step_use
      then show ?thesis using use_inv [OF _ sys_step.IH] by blast
    qed
  qed
  then show ?thesis by (cases "nl_loopClient (ls_loop s)") (auto simp: loop_inv_def client_known_def isBusy_def)
qed

lemma countdown_handlers_ok: "handlers_ok countdown_handlers"
  by (auto simp: handlers_ok_def handlers_def countdown_handlers_def intro: loop_use.intros)

lemma idle_loop_has_no_client_witness:
  "\<exists>s. loop_sys_reachable countdown_handlers s \<and> nl_loopClient (ls_loop s) = Some LI_Publish
     \<and> nl_loopId (ls_loop s) = lc_id (ls_objs s LI_Publish) \<and> lc_result (ls_objs s LI_Publish) = LC_Pending"
proof -
  let ?s = "on_loop (registerLoopClient (Some LI_Publish)) (lsys_new (3::nat))"
  have "loop_use (client_known (lsys_new (3::nat))) (ls_loop (lsys_new (3::nat))) (ls_loop ?s)"
    by (simp add: use_register use_nothing client_known_def lsys_new_def lclient_new_def)
  then have "loop_sys_step countdown_handlers (lsys_new 3) ?s" by (rule step_use) simp
  moreover have "loop_sys_reachable countdown_handlers (lsys_new (3::nat))"
    by (rule sys_start) (simp add: lsys_new_def)
  ultimately have r: "loop_sys_reachable countdown_handlers ?s" by (blast intro: sys_step)
  obtain s' where s': "nbiotLoop (LoopClient countdown_handlers) ?s = Some (LC_Pending, s')"
    "nl_loopClient (ls_loop s') = Some LI_Publish"
    by (simp add: nbiotLoop_def nl_handleBreak_def lsys_new_def nloop_new_def registerLoopClient_def
        sq_append_def sq_count_def nl_startNext_def sq_take_front_def preLoopStep_def
        countdown_handlers_def lclient_new_def)
  have "loop_sys_reachable countdown_handlers s'" using r step_call [OF s'(1)] by (rule sys_step)
  with idle_loop_has_no_client [OF this countdown_handlers_ok] s'(2) show ?thesis by blast
qed

end
