(* ===== verification/SnClient.thy ===== *)
theory SnClient
  imports Loop Topic Packet_Publish Packet_Connect Packet_Subscribe
begin

text \<open>
  The transport of the MQTT-SN client:
  \<open>external/src/paho.mqtt-sn.embedded-c/MQTTSNClient/MQTTSNClient.h\<close>, the template \<open>Client\<close> with
  the parameters that NbiotMqttSnClient gives it (buffers of 200 bytes), as far as it sends, receives
  and answers packets. The operations of the application side are in the theory SnLoops.

  The state extends the state of the loop controller. The network and the clock are the functions
  of a \<open>platform\<close> on the environment: a call of the clock, of \<open>INetwork::read\<close> or of
  \<open>INetwork::write\<close> yields its result and the environment after it. The handlers that the
  application attaches are functions on the whole state. \<open>None\<close> is an access outside a buffer, the
  use of a variable that was never assigned, or a call that does not return.
\<close>

definition MAX_PACKET_SIZE :: int where "MAX_PACKET_SIZE = 200"
definition FAILURE :: int where "FAILURE = - 1"
definition SUCCESS :: int where "SUCCESS = 0"
definition QOS0 :: int where "QOS0 = 0"
definition QOS1 :: int where "QOS1 = 1"
definition QOS2 :: int where "QOS2 = 2"

lemmas sn_consts = MAX_PACKET_SIZE_def FAILURE_def SUCCESS_def QOS0_def QOS1_def QOS2_def

subsection \<open>Packet ids\<close>

definition PacketId_getNext :: "int \<Rightarrow> int \<times> int" where
  "PacketId_getNext nxt =
     (let nxt = (if nxt = 65535 then 0 else nxt);
          nxt = nxt + 1
      in (nxt, nxt))"

fun packet_ids :: "nat \<Rightarrow> int \<Rightarrow> int list" where
  "packet_ids 0 nxt = []"
| "packet_ids (Suc n) nxt = (let (i, nxt) = PacketId_getNext nxt in i # packet_ids n nxt)"

subsection \<open>State\<close>

record 'w platform =
  pf_clock :: "'w \<Rightarrow> ntime \<times> 'w"
  pf_write :: "byte list \<Rightarrow> u16 \<Rightarrow> 'w \<Rightarrow> bool \<times> 'w"
  pf_read :: "int \<Rightarrow> u16 \<Rightarrow> 'w \<Rightarrow> (int \<times> byte list) \<times> 'w"

record 'w snsys = "(NbiotLoopId, 'w) lsys" +
  sn_command_timeout :: int
  sn_sendbuf :: "byte list"
  sn_readbuf :: "byte list"
  sn_last_sent :: ntimer
  sn_last_received :: ntimer
  sn_duration :: u16
  sn_ping_outstanding :: bool
  sn_pmPingResp_outstanding :: bool
  sn_cleansession :: bool
  sn_packetid :: int
  sn_topicName :: topicid
  sn_payload :: "byte list option"
  sn_payloadlen :: int
  sn_retained :: bool
  sn_qos :: int
  sn_isconnected :: bool
  sn_pubbuf :: "byte list"
  sn_inflightLen :: int
  sn_inflightMsgid :: u16
  sn_inflightQoS :: int
  sn_pubRetryTimeout :: int
  sn_pubRetryCount :: u16
  sn_subRetryTimeout :: int
  sn_subRetryCount :: u16
  sn_maxRetry :: u16
  sn_yieldRunning :: bool

type_synonym ('w, 'm) sn = "('w, 'm) snsys_scheme"

text \<open>
  The handlers: the default message handler with the topic and the message it is given, and the
  notifications. A handler that is not attached is \<open>None\<close>.
\<close>

record ('w, 'm) sn_handlers =
  nh_message :: "(publish_out \<Rightarrow> ('w, 'm) sn \<Rightarrow> (int \<times> ('w, 'm) sn) option) option"
  nh_puback :: "(topic \<Rightarrow> ('w, 'm) sn \<Rightarrow> ('w, 'm) sn option) option"
  nh_register :: "(topic \<Rightarrow> ('w, 'm) sn \<Rightarrow> (int \<times> ('w, 'm) sn) option) option"
  nh_disconnect :: "(int \<Rightarrow> ('w, 'm) sn \<Rightarrow> ('w, 'm) sn option) option"
  nh_pingResp :: "(int \<Rightarrow> ('w, 'm) sn \<Rightarrow> ('w, 'm) sn option) option"

subsection \<open>Timers of the client\<close>

definition sn_clock :: "'w platform \<Rightarrow> ('w, 'm) sn \<Rightarrow> ntime \<times> ('w, 'm) sn" where
  "sn_clock P s = (let (clk, w) = pf_clock P (ls_env s) in (clk, s\<lparr>ls_env := w\<rparr>))"

definition sn_remaining :: "'w platform \<Rightarrow> ntimer \<Rightarrow> ('w, 'm) sn \<Rightarrow> int \<times> ('w, 'm) sn" where
  "sn_remaining P t s = (let (clk, s) = sn_clock P s in (tm_remaining clk t, s))"

definition sn_left_ms :: "'w platform \<Rightarrow> ntimer \<Rightarrow> ('w, 'm) sn \<Rightarrow> u16 \<times> ('w, 'm) sn" where
  "sn_left_ms P t s = (let (clk, s) = sn_clock P s in (tm_left_ms clk t, s))"

definition sn_expired :: "'w platform \<Rightarrow> ntimer \<Rightarrow> ('w, 'm) sn \<Rightarrow> bool \<times> ('w, 'm) sn" where
  "sn_expired P t s = (let (clk, s) = sn_clock P s in (tm_has_expired clk t, s))"

definition sn_start_for :: "'w platform \<Rightarrow> int \<Rightarrow> ntimer \<Rightarrow> ('w, 'm) sn \<Rightarrow> ntimer \<times> ('w, 'm) sn" where
  "sn_start_for P ms t s = (let (clk, s) = sn_clock P s in (tm_start_for clk ms t, s))"

definition sn_countdown :: "'w platform \<Rightarrow> int \<Rightarrow> ntimer \<Rightarrow> ('w, 'm) sn \<Rightarrow> ntimer \<times> ('w, 'm) sn" where
  "sn_countdown P sec t s = (let (clk, s) = sn_clock P s in (tm_countdown clk sec t, s))"

text \<open>\<open>Timer(ms)\<close>\<close>

definition sn_Timer :: "'w platform \<Rightarrow> int \<Rightarrow> ('w, 'm) sn \<Rightarrow> ntimer \<times> ('w, 'm) sn" where
  "sn_Timer P ms s = sn_start_for P ms tm_new s"

subsection \<open>Sending\<close>

text \<open>
  The loop of \<open>sendPacket\<close>: \<open>sent\<close> and \<open>rc\<close> are its variables. It hands the network \<open>len\<close> bytes
  from offset \<open>sent\<close> of the buffer.
\<close>

partial_function (option) send_loop ::
  "'w platform \<Rightarrow> int \<Rightarrow> ntimer \<Rightarrow> int \<Rightarrow> int \<Rightarrow> ('w, 'm) sn \<Rightarrow> (int \<times> int \<times> ('w, 'm) sn) option" where
  "send_loop P len timer rc sent s =
     (if sent < len
      then (let (ex, s) = sn_expired P timer s
            in if ex then Some (rc, sent, s)
               else if MAX_PACKET_SIZE < len - sent then Some (rc, sent, s)
               else Option.bind (memread (sn_sendbuf s) (nat sent) (nat len)) (\<lambda>bytes.
                 let (left, s) = sn_left_ms P timer s;
                     (ok, w) = pf_write P bytes left (ls_env s);
                     s = s\<lparr>ls_env := w\<rparr>;
                     rc = (if ok then len else rc)
                 in if rc < 0 then Some (rc, sent, s) else send_loop P len timer rc (sent + rc) s))
      else Some (rc, sent, s))"

definition sendPacket ::
  "'w platform \<Rightarrow> int \<Rightarrow> ntimer \<Rightarrow> ('w, 'm) sn \<Rightarrow> (int \<times> ntimer \<times> ('w, 'm) sn) option" where
  "sendPacket P len timer s =
     (let (left, s) = sn_left_ms P timer s;
          (timer, s) = (if 100 > uint left then sn_start_for P 1000 timer s else (timer, s))
      in do {
        (rc, sent, s) \<leftarrow> send_loop P len timer FAILURE 0 s;
        if sent = len
        then (if 0 < sn_duration s
              then (let (t, s) = sn_countdown P (uint (sn_duration s)) (sn_last_sent s) s
                    in Some (SUCCESS, timer, s\<lparr>sn_last_sent := t\<rparr>))
              else Some (SUCCESS, timer, s))
        else Some (FAILURE, timer, s)
      })"

subsection \<open>Receiving\<close>

text \<open>\<open>ipstack.read(readbuf + off, n, timeout)\<close>: what the network returns and what it stores.\<close>

definition read_into ::
  "'w platform \<Rightarrow> int \<Rightarrow> int \<Rightarrow> u16 \<Rightarrow> ('w, 'm) sn \<Rightarrow> (int \<times> ('w, 'm) sn) option" where
  "read_into P off n timeout s =
     (let ((rb, bs), w) = pf_read P n timeout (ls_env s)
      in if off < 0 then None
         else map_option (\<lambda>buf. (rb, s\<lparr>ls_env := w, sn_readbuf := buf\<rparr>))
           (memcpy (sn_readbuf s) (nat off) bs (length bs)))"

text \<open>The three loops that read while more than \<open>0xffff\<close> ms remain.\<close>

partial_function (option) read_first ::
  "'w platform \<Rightarrow> ntimer \<Rightarrow> int \<Rightarrow> ('w, 'm) sn \<Rightarrow> (int \<times> ('w, 'm) sn) option" where
  "read_first P timer len s =
     (let (rem, s) = sn_remaining P timer s
      in if 0xffff < rem
         then Option.bind (read_into P 0 1 0xffff s) (\<lambda>(len, s).
           if len = 1 then Some (len, s) else read_first P timer len s)
         else Some (len, s))"

partial_function (option) read_length ::
  "'w platform \<Rightarrow> ntimer \<Rightarrow> int \<Rightarrow> ('w, 'm) sn \<Rightarrow> (int \<times> ('w, 'm) sn) option" where
  "read_length P timer len s =
     (let (rem, s) = sn_remaining P timer s
      in if 0xffff < rem
         then Option.bind (read_into P 1 2 0xffff s) (\<lambda>(rb, s).
           let len = (if - 1 < rb then len + rb else len)
           in if len = 3 then Some (len, s) else read_length P timer len s)
         else Some (len, s))"

partial_function (option) read_rest ::
  "'w platform \<Rightarrow> ntimer \<Rightarrow> int \<Rightarrow> int \<Rightarrow> ('w, 'm) sn \<Rightarrow> (int \<times> ('w, 'm) sn) option" where
  "read_rest P timer datalen len s =
     (let (rem, s) = sn_remaining P timer s
      in if 0xffff < rem
         then Option.bind (read_into P len (datalen - len) 0xffff s) (\<lambda>(rb, s).
           let len = (if - 1 < rb then len + rb else len)
           in if datalen \<le> len then Some (len, s) else read_rest P timer datalen len s)
         else Some (len, s))"

text \<open>A last read with the time that is left, \<open>len += read(\<dots>)\<close>.\<close>

definition read_left ::
  "'w platform \<Rightarrow> ntimer \<Rightarrow> int \<Rightarrow> int \<Rightarrow> ('w, 'm) sn \<Rightarrow> (int \<times> ('w, 'm) sn) option" where
  "read_left P timer off n s =
     (let (left, s) = sn_left_ms P timer s in read_into P off n left s)"

definition read_firstByte ::
  "'w platform \<Rightarrow> ntimer \<Rightarrow> ('w, 'm) sn \<Rightarrow> (int \<times> ('w, 'm) sn) option" where
  "read_firstByte P timer s = do {
     (len, s) \<leftarrow> read_first P timer 0 s;
     if 1 > len then read_left P timer 0 1 s else Some (len, s)
   }"

definition read_lengthBytes ::
  "'w platform \<Rightarrow> ntimer \<Rightarrow> int \<Rightarrow> ('w, 'm) sn \<Rightarrow> (int \<times> ('w, 'm) sn) option" where
  "read_lengthBytes P timer len s = do {
     b0 \<leftarrow> load (sn_readbuf s) 0;
     if b0 = 1
     then do {
       (len, s) \<leftarrow> read_length P timer len s;
       if 3 > len then do { (rb, s) \<leftarrow> read_left P timer 1 2 s; Some (len + rb, s) } else Some (len, s)
     }
     else Some (len, s)
   }"

definition read_remaining ::
  "'w platform \<Rightarrow> ntimer \<Rightarrow> int \<Rightarrow> int \<Rightarrow> ('w, 'm) sn \<Rightarrow> (int \<times> ('w, 'm) sn) option" where
  "read_remaining P timer datalen len s = do {
     (len, s) \<leftarrow> read_rest P timer datalen len s;
     if datalen > len
     then do { (rb, s) \<leftarrow> read_left P timer len (datalen - len) s; Some (len + rb, s) }
     else Some (len, s)
   }"

text \<open>Steps 3 and 4 of \<open>readPacket\<close>: decode the length and read the rest of the packet.\<close>

definition readPacket_data ::
  "'w platform \<Rightarrow> ntimer \<Rightarrow> int \<Rightarrow> ('w, 'm) sn \<Rightarrow> (int \<times> ('w, 'm) sn) option" where
  "readPacket_data P timer len s = do {
     (lenlen, v) \<leftarrow> MQTTSNPacket_decode (sn_readbuf s) len (Some 0);
     datalen \<leftarrow> v;
     (len, s) \<leftarrow> read_remaining P timer datalen len s;
     if datalen \<noteq> len then Some (FAILURE, s)
     else do {
       (rc, _) \<leftarrow> readChar (sn_readbuf s) lenlen;
       if 0 < sn_duration s
       then (let (t, s) = sn_countdown P (uint (sn_duration s)) (sn_last_received s) s
             in Some (uint rc, s\<lparr>sn_last_received := t\<rparr>))
       else Some (uint rc, s)
     }
   }"

definition readPacket :: "'w platform \<Rightarrow> ntimer \<Rightarrow> ('w, 'm) sn \<Rightarrow> (int \<times> ('w, 'm) sn) option" where
  "readPacket P timer s = do {
     (len, s) \<leftarrow> read_firstByte P timer s;
     if len < 1 then Some (FAILURE, s)
     else do {
       (len, s) \<leftarrow> read_lengthBytes P timer len s;
       b0 \<leftarrow> load (sn_readbuf s) 0;
       if b0 = 1 \<and> len < 3 then Some (FAILURE, s) else readPacket_data P timer len s
     }
   }"

subsection \<open>Answering\<close>

definition deliverMessage ::
  "('w, 'm) sn_handlers \<Rightarrow> publish_out \<Rightarrow> ('w, 'm) sn \<Rightarrow> (int \<times> ('w, 'm) sn) option" where
  "deliverMessage N msg s =
     (case nh_message N of Some h \<Rightarrow> h msg s | None \<Rightarrow> Some (FAILURE, s))"

text \<open>\<open>nbiot::string(topicName.lenstring.data, topicName.lenstring.len)\<close>\<close>

definition lenstring_text :: "mstring \<Rightarrow> byte list option" where
  "lenstring_text t =
     (if ms_len t = 0 then Some []
      else do { d \<leftarrow> ms_data t; if 0 \<le> ms_len t \<and> nat (ms_len t) \<le> length d then Some (take (nat (ms_len t)) d) else None })"

definition notifyPingResponse :: "('w, 'm) sn_handlers \<Rightarrow> ('w, 'm) sn \<Rightarrow> ('w, 'm) sn option" where
  "notifyPingResponse N s = (case nh_pingResp N of Some h \<Rightarrow> h 0 s | None \<Rightarrow> Some s)"

definition notifyDisconnect :: "('w, 'm) sn_handlers \<Rightarrow> ('w, 'm) sn \<Rightarrow> ('w, 'm) sn option" where
  "notifyDisconnect N s = (case nh_disconnect N of Some h \<Rightarrow> h 0 s | None \<Rightarrow> Some s)"

definition notifyRegister ::
  "('w, 'm) sn_handlers \<Rightarrow> u16 \<Rightarrow> mstring \<Rightarrow> ('w, 'm) sn \<Rightarrow> (byte \<times> ('w, 'm) sn) option" where
  "notifyRegister N topicid topicName s =
     (case nh_register N of
        Some h \<Rightarrow> do {
          name \<leftarrow> lenstring_text topicName;
          (rc, s) \<leftarrow> h ((topic_of_id topicid)\<lparr>to_topicName := name\<rparr>) s;
          Some (word_of_int rc, s)
        }
      | None \<Rightarrow> Some (0, s))"

definition notifyPublish :: "('w, 'm) sn_handlers \<Rightarrow> u16 \<Rightarrow> byte \<Rightarrow> ('w, 'm) sn \<Rightarrow> ('w, 'm) sn option" where
  "notifyPublish N topicid returncode s =
     (case nh_puback N of
        Some h \<Rightarrow> h (topic_new\<lparr>to_id := topicid, to_returnCode := returncode\<rparr>) s
      | None \<Rightarrow> Some s)"

definition keepalive :: "'w platform \<Rightarrow> ('w, 'm) sn \<Rightarrow> (int \<times> ('w, 'm) sn) option" where
  "keepalive P s =
     (if sn_duration s = 0 then Some (SUCCESS, s)
      else let (e1, s) = sn_expired P (sn_last_sent s) s;
               (e, s) = (if e1 then (True, s) else sn_expired P (sn_last_received s) s)
           in if e \<and> \<not> sn_ping_outstanding s
              then let (timer, s) = sn_Timer P 1000 s
                   in do {
                     (len, buf) \<leftarrow> MQTTSNSerialize_pingreq (sn_sendbuf s) MAX_PACKET_SIZE
                       \<lparr>ms_cstring = None, ms_len = 0, ms_data = None\<rparr>;
                     let s = s\<lparr>sn_sendbuf := buf\<rparr>;
                     if 0 < len
                     then do {
                       (rc, _, s) \<leftarrow> sendPacket P len timer s;
                       Some (rc, if rc = SUCCESS then s\<lparr>sn_ping_outstanding := True\<rparr> else s)
                     }
                     else Some (FAILURE, s)
                   }
              else Some (FAILURE, s))"

text \<open>
  \<open>cycle\<close>. The cases of the switch end with \<open>break\<close> or with \<open>goto exit\<close>; a case here returns
  whether \<open>keepalive\<close> is still to be called, and \<open>rc\<close>, an \<open>unsigned char\<close>.
\<close>

definition cycle_puback ::
  "('w, 'm) sn_handlers \<Rightarrow> ('w, 'm) sn \<Rightarrow> (bool \<times> byte \<times> ('w, 'm) sn) option" where
  "cycle_puback N s =
     (if sn_inflightMsgid s = 0
      then do {
        (r, v) \<leftarrow> MQTTSNDeserialize_puback (sn_readbuf s) MAX_PACKET_SIZE;
        if r \<noteq> 1 then Some (True, word_of_int FAILURE, s)
        else do {
          (topicid, _, returncode) \<leftarrow> v;
          s \<leftarrow> notifyPublish N topicid returncode s;
          Some (True, 0, s)
        }
      }
      else Some (True, 0, s))"

definition cycle_register ::
  "'w platform \<Rightarrow> ('w, 'm) sn_handlers \<Rightarrow> ntimer \<Rightarrow> ('w, 'm) sn \<Rightarrow> (bool \<times> byte \<times> ('w, 'm) sn) option" where
  "cycle_register P N timer s = do {
     (r, v) \<leftarrow> MQTTSNDeserialize_register (sn_readbuf s) MAX_PACKET_SIZE;
     if r \<noteq> 1 then Some (False, 0, s)
     else do {
       (topicid, packetid, topicName) \<leftarrow> v;
       (rc, s) \<leftarrow> notifyRegister N topicid topicName s;
       (len, buf) \<leftarrow> MQTTSNSerialize_regack (sn_sendbuf s) MAX_PACKET_SIZE topicid packetid rc;
       let s = s\<lparr>sn_sendbuf := buf\<rparr>;
       if len \<le> 0 then Some (True, word_of_int FAILURE, s)
       else do { (rc, _, s) \<leftarrow> sendPacket P len timer s; Some (True, word_of_int rc, s) }
     }
   }"

definition cycle_disconnect ::
  "('w, 'm) sn_handlers \<Rightarrow> ('w, 'm) sn \<Rightarrow> (bool \<times> byte \<times> ('w, 'm) sn) option" where
  "cycle_disconnect N s = do {
     (r, _) \<leftarrow> MQTTSNDeserialize_disconnect (sn_readbuf s) MAX_PACKET_SIZE;
     if r \<noteq> 1 then Some (True, word_of_int FAILURE, s)
     else do { s \<leftarrow> notifyDisconnect N (s\<lparr>sn_isconnected := False\<rparr>); Some (True, 0, s) }
   }"

definition cycle_publish ::
  "'w platform \<Rightarrow> ('w, 'm) sn_handlers \<Rightarrow> ntimer \<Rightarrow> ('w, 'm) sn \<Rightarrow> (bool \<times> byte \<times> ('w, 'm) sn) option" where
  "cycle_publish P N timer s = do {
     (r, v) \<leftarrow> MQTTSNDeserialize_publish (sn_readbuf s) MAX_PACKET_SIZE;
     if r \<noteq> 1 then Some (False, 0, s)
     else do {
       msg \<leftarrow> v;
       (retCode, s) \<leftarrow> deliverMessage N msg s;
       if po_qos msg \<noteq> QOS0
       then do {
         (len, s) \<leftarrow>
           (if po_qos msg = QOS1
            then do {
              i \<leftarrow> union_id (tp_data (po_topic msg));
              (len, buf) \<leftarrow> MQTTSNSerialize_puback (sn_sendbuf s) MAX_PACKET_SIZE i (po_packetid msg)
                (word_of_int (if FAILURE = retCode then 0 else retCode));
              Some (len, s\<lparr>sn_sendbuf := buf\<rparr>)
            }
            else if po_qos msg = QOS2
            then do {
              (len, buf) \<leftarrow> MQTTSNSerialize_pubrec (sn_sendbuf s) MAX_PACKET_SIZE (po_packetid msg);
              Some (len, s\<lparr>sn_sendbuf := buf\<rparr>)
            }
            else Some (0, s));
         (rc, s) \<leftarrow>
           (if len \<le> 0 then Some (word_of_int FAILURE :: byte, s)
            else do { (rc, _, s) \<leftarrow> sendPacket P len timer s; Some (word_of_int rc, s) });
         Some (uint rc \<noteq> FAILURE, rc, s)
       }
       else Some (True, 0, s)
     }
   }"

definition cycle_pingresp ::
  "('w, 'm) sn_handlers \<Rightarrow> ('w, 'm) sn \<Rightarrow> (bool \<times> byte \<times> ('w, 'm) sn) option" where
  "cycle_pingresp N s =
     (if sn_pmPingResp_outstanding s
      then do { s \<leftarrow> notifyPingResponse N (s\<lparr>sn_pmPingResp_outstanding := False\<rparr>); Some (True, 0, s) }
      else Some (True, 0, if sn_ping_outstanding s then s\<lparr>sn_ping_outstanding := False\<rparr> else s))"

definition cycle_switch ::
  "'w platform \<Rightarrow> ('w, 'm) sn_handlers \<Rightarrow> u16 \<Rightarrow> ntimer \<Rightarrow> ('w, 'm) sn \<Rightarrow> (bool \<times> byte \<times> ('w, 'm) sn) option" where
  "cycle_switch P N packet_type timer s =
     (if packet_type = ucast (msg_code PUBACK) then cycle_puback N s
      else if packet_type = ucast (msg_code REGISTER) then cycle_register P N timer s
      else if packet_type = ucast (msg_code DISCONNECT) then cycle_disconnect N s
      else if packet_type = ucast (msg_code PUBLISH) then cycle_publish P N timer s
      else if packet_type = ucast (msg_code PINGRESP) then cycle_pingresp N s
      else Some (True, 0, s))"

definition cycle :: "'w platform \<Rightarrow> ('w, 'm) sn_handlers \<Rightarrow> ntimer \<Rightarrow> ('w, 'm) sn \<Rightarrow> (int \<times> ('w, 'm) sn) option" where
  "cycle P N timer s = do {
     (r, s) \<leftarrow> readPacket P timer s;
     let packet_type = (word_of_int r :: u16);
     (ka, rc, s) \<leftarrow> cycle_switch P N packet_type timer s;
     s \<leftarrow> (if ka then map_option snd (keepalive P s) else Some s);
     Some (uint (if rc = 0 then ucast packet_type else rc), s)
   }"

subsection \<open>Packet ids: properties\<close>

lemma getNext_eq:
  assumes "0 \<le> nxt" and "nxt \<le> 65535"
  shows "PacketId_getNext nxt = (nxt mod 65535 + 1, nxt mod 65535 + 1)"
proof (cases "nxt = 65535")
  case False
  then have "nxt mod 65535 = nxt" using assms by (intro mod_pos_pos_trivial) auto
  then show ?thesis using False by (simp add: PacketId_getNext_def Let_def)
qed (simp add: PacketId_getNext_def)

lemma packet_ids_nth:
  assumes "0 \<le> nxt" and "nxt \<le> 65535" and "i < n"
  shows "packet_ids n nxt ! i = (nxt + int i) mod 65535 + 1"
  using assms
proof (induction n arbitrary: nxt i)
  case (Suc n)
  have r: "0 \<le> nxt mod 65535 + 1" "nxt mod 65535 + 1 \<le> 65535"
    using pos_mod_bound [of 65535 nxt] pos_mod_sign [of 65535 nxt] by linarith+
  show ?case
  proof (cases i)
    case 0
    then show ?thesis using Suc.prems by (simp add: getNext_eq)
  next
    case (Suc j)
    have "(nxt mod 65535 + 1 + int j) mod 65535 = (nxt + int i) mod 65535"
      using mod_add_left_eq [of nxt 65535 "1 + int j"] Suc by (simp add: add.assoc)
    then show ?thesis
      using Suc.prems Suc Suc.IH [OF r, of j] by (simp add: getNext_eq)
  qed
qed simp

lemma length_packet_ids [simp]: "length (packet_ids n nxt) = n"
  by (induction n arbitrary: nxt) (simp_all add: PacketId_getNext_def Let_def)

text \<open>
  The ids of successive requests stay between 1 and 65535, so that each fits the two bytes of
  the protocol and none is the id 0 that means no request, and an id is used again only after 65535
  requests.
\<close>

theorem packet_ids_cycle:
  assumes "0 \<le> nxt" and "nxt \<le> 65535"
  shows "(\<forall>i < n. 1 \<le> packet_ids n nxt ! i \<and> packet_ids n nxt ! i \<le> 65535)
    \<and> (\<forall>i < n. \<forall>j < n. packet_ids n nxt ! i = packet_ids n nxt ! j \<longleftrightarrow> int i mod 65535 = int j mod 65535)"
proof -
  have "(nxt + int i) mod 65535 = (nxt + int j) mod 65535 \<longleftrightarrow> int i mod 65535 = int j mod 65535" for i j
    by (simp add: mod_eq_dvd_iff)
  moreover have "0 \<le> (nxt + int i) mod 65535" "(nxt + int i) mod 65535 < 65535" for i
    by simp_all
  ultimately show ?thesis
    using packet_ids_nth [OF assms] by (smt (verit))
qed

lemma packet_ids_cycle_witness:
  "packet_ids 3 65534 = [65535, 1, 2] \<and> 1 \<le> packet_ids 3 65534 ! 1 \<and> packet_ids 3 65534 ! 1 \<le> 65535
    \<and> packet_ids 3 65534 ! 0 \<noteq> packet_ids 3 65534 ! 2"
proof -
  have *: "\<forall>i < 3. 1 \<le> packet_ids 3 65534 ! i \<and> packet_ids 3 65534 ! i \<le> 65535"
    "\<forall>i < 3. \<forall>j < 3. packet_ids 3 65534 ! i = packet_ids 3 65534 ! j \<longleftrightarrow> int i mod 65535 = int j mod 65535"
    using packet_ids_cycle [of 65534 3] by simp_all
  show ?thesis
    using *(1) [rule_format, of 1] *(2) [rule_format, of 0 2] by (simp add: numeral_3_eq_3 PacketId_getNext_def)
qed

subsection \<open>Sending: properties\<close>

lemma sn_clock_keeps:
  "sn_clock P s = (clk, s') \<Longrightarrow> s' = s\<lparr>ls_env := ls_env s'\<rparr>"
  by (auto simp: sn_clock_def split: prod.splits)

lemma sn_clock_fields [simp]:
  "sn_sendbuf (snd (sn_clock P s)) = sn_sendbuf s" "sn_readbuf (snd (sn_clock P s)) = sn_readbuf s"
  "sn_duration (snd (sn_clock P s)) = sn_duration s"
  "ls_env (snd (sn_clock P s)) = snd (pf_clock P (ls_env s))"
  by (simp_all add: sn_clock_def split: prod.splits)

lemmas sn_timer_defs = sn_remaining_def sn_left_ms_def sn_expired_def sn_start_for_def sn_countdown_def

lemma sn_timer_snd [simp]:
  "snd (sn_remaining P t s) = snd (sn_clock P s)" "snd (sn_left_ms P t s) = snd (sn_clock P s)"
  "snd (sn_expired P t s) = snd (sn_clock P s)" "snd (sn_start_for P ms t s) = snd (sn_clock P s)"
  "snd (sn_countdown P sec t s) = snd (sn_clock P s)"
  by (simp_all add: sn_timer_defs split: prod.splits)

text \<open>What sending a packet amounts to: one write, unless the time is over.\<close>

definition send_once ::
  "'w platform \<Rightarrow> byte list \<Rightarrow> ntimer \<Rightarrow> ('w, 'm) sn \<Rightarrow> bool \<times> ('w, 'm) sn" where
  "send_once P bytes timer s =
     (let (ex, s) = sn_expired P timer s
      in if ex then (False, s)
         else let (left, s) = sn_left_ms P timer s; (ok, w) = pf_write P bytes left (ls_env s)
              in (ok, s\<lparr>ls_env := w\<rparr>))"

lemma send_loop_done: "len \<le> sent \<Longrightarrow> send_loop P len timer rc sent s = Some (rc, sent, s)"
  by (subst send_loop.simps) simp

lemma send_loop_once:
  assumes "0 < len" and "len \<le> MAX_PACKET_SIZE" and "nat len \<le> length (sn_sendbuf s)"
  shows "send_loop P len timer FAILURE 0 s =
    (let (ok, s') = send_once P (take (nat len) (sn_sendbuf s)) timer s
     in Some (if ok then len else FAILURE, if ok then len else 0, s'))"
proof -
  obtain ex s1 where ex: "sn_expired P timer s = (ex, s1)" by force
  obtain left s2 where left: "sn_left_ms P timer s1 = (left, s2)" by force
  have b: "sn_sendbuf s1 = sn_sendbuf s" using sn_timer_snd(3) [of P timer s] ex by (metis snd_conv sn_clock_fields(1))
  obtain ok w where ok: "pf_write P (take (nat len) (sn_sendbuf s)) left (ls_env s2) = (ok, w)" by force
  have m: "memread (sn_sendbuf s1) 0 (nat len) = Some (take (nat len) (sn_sendbuf s))"
    using assms(3) b by (simp add: memread_def)
  show ?thesis
    using assms(1,2)
    by (subst send_loop.simps)
      (simp add: ex left ok m send_once_def send_loop_done FAILURE_def Let_def)
qed

text \<open>
  C28: \<open>sendPacket\<close> returns, and its loop amounts to a single write: unless the time is over it
  hands the packet to the network once, as a whole; it reports success exactly when the network took
  it, and only then restarts the keep-alive period. (A timer with less than 100 ms left is first
  given a second.)
\<close>

theorem sendPacket_writes_once:
  assumes "0 < len" and "len \<le> MAX_PACKET_SIZE" and "nat len \<le> length (sn_sendbuf s)"
  shows "sendPacket P len timer s =
    (let (left, s) = sn_left_ms P timer s;
         (timer, s) = (if uint left < 100 then sn_start_for P 1000 timer s else (timer, s));
         (ok, s) = send_once P (take (nat len) (sn_sendbuf s)) timer s
     in if \<not> ok then Some (FAILURE, timer, s)
        else if sn_duration s = 0 then Some (SUCCESS, timer, s)
        else let (t, s) = sn_countdown P (uint (sn_duration s)) (sn_last_sent s) s
             in Some (SUCCESS, timer, s\<lparr>sn_last_sent := t\<rparr>))"
proof -
  obtain left s1 where left: "sn_left_ms P timer s = (left, s1)" by force
  obtain timer' s2 where t: "(if uint left < 100 then sn_start_for P 1000 timer s1 else (timer, s1)) = (timer', s2)"
    by force
  have "sn_sendbuf s1 = sn_sendbuf s" using sn_timer_snd(2) [of P timer s] left by (metis snd_conv sn_clock_fields(1))
  moreover have "sn_sendbuf s2 = sn_sendbuf s1"
    using t sn_timer_snd(4) [of P 1000 timer s1] by (metis snd_conv sn_clock_fields(1))
  ultimately have l: "nat len \<le> length (sn_sendbuf s2)" using assms(3) by simp
  obtain ok s3 where ok: "send_once P (take (nat len) (sn_sendbuf s2)) timer' s2 = (ok, s3)" by force
  have loop: "send_loop P len timer' FAILURE 0 s2 = Some (if ok then len else FAILURE, if ok then len else 0, s3)"
    using send_loop_once [OF assms(1,2) l, of P timer'] ok by simp
  show ?thesis
    using assms(1) by (simp add: sendPacket_def left t ok loop word_gt_0 split: prod.splits)
qed

subsection \<open>A client and recorded traffic\<close>

text \<open>
  The constructors of \<open>Client\<close> and \<open>NbiotMqttSnClient\<close>. \<open>duration\<close> and \<open>inflightLen\<close> are not
  initialised by the code; they are arguments here. The buffers start with zeros.
\<close>

definition sn_new :: "u16 \<Rightarrow> int \<Rightarrow> topicid \<Rightarrow> int \<Rightarrow> 'w \<Rightarrow> 'w snsys" where
  "sn_new duration inflightLen topicName command_timeout_ms w =
     \<lparr>ls_loop = nloop_new, ls_objs = lclient_new, ls_env = w,
      sn_command_timeout = command_timeout_ms, sn_sendbuf = replicate 200 0, sn_readbuf = replicate 200 0,
      sn_last_sent = tm_new, sn_last_received = tm_new, sn_duration = duration,
      sn_ping_outstanding = False, sn_pmPingResp_outstanding = False, sn_cleansession = False,
      sn_packetid = 0, sn_topicName = topicName, sn_payload = None, sn_payloadlen = 0,
      sn_retained = False, sn_qos = QOS1, sn_isconnected = False, sn_pubbuf = replicate 200 0,
      sn_inflightLen = inflightLen, sn_inflightMsgid = 0, sn_inflightQoS = QOS0,
      sn_pubRetryTimeout = 0, sn_pubRetryCount = 0, sn_subRetryTimeout = 0, sn_subRetryCount = 0,
      sn_maxRetry = 0, sn_yieldRunning = False\<rparr>"

text \<open>
  \<open>stream_platform P st\<close>: a platform whose network delivers the bytes \<open>st w\<close> in order and, as
  \<open>INetwork::read\<close> documents, as many as are asked for while there are enough; reading the clock
  does not touch them.
\<close>

definition stream_platform :: "'w platform \<Rightarrow> ('w \<Rightarrow> byte list) \<Rightarrow> bool" where
  "stream_platform P st \<longleftrightarrow>
     (\<forall>w. st (snd (pf_clock P w)) = st w)
     \<and> (\<forall>n t w. 0 \<le> n \<and> nat n \<le> length (st w) \<longrightarrow>
          fst (pf_read P n t w) = (n, take (nat n) (st w)) \<and> st (snd (pf_read P n t w)) = drop (nat n) (st w))"

text \<open>An instance: recorded clock readings (the last one stays), incoming bytes, a log of writes.\<close>

record traffic =
  tr_clock :: "ntime list"
  tr_in :: "byte list"
  tr_out :: "byte list list"

definition traffic_platform :: "traffic platform" where
  "traffic_platform = \<lparr>
     pf_clock = (\<lambda>w. case tr_clock w of [] \<Rightarrow> (nt_new, w) | [c] \<Rightarrow> (c, w) | c # cs \<Rightarrow> (c, w\<lparr>tr_clock := cs\<rparr>)),
     pf_write = (\<lambda>bs t w. (True, w\<lparr>tr_out := tr_out w @ [bs]\<rparr>)),
     pf_read = (\<lambda>n t w. if 0 \<le> n \<and> nat n \<le> length (tr_in w)
                        then ((n, take (nat n) (tr_in w)), w\<lparr>tr_in := drop (nat n) (tr_in w)\<rparr>) else ((- 1, []), w))\<rparr>"

definition traffic_of :: "byte list \<Rightarrow> traffic" where
  "traffic_of xs = \<lparr>tr_clock = [nt_new\<lparr>nt_timestamp := 5\<rparr>], tr_in = xs, tr_out = []\<rparr>"

definition sn_example :: "byte list \<Rightarrow> traffic snsys" where
  "sn_example xs = sn_new 0 0 \<lparr>tp_type = TNormal, tp_data = UId 0\<rparr> 20000 (traffic_of xs)"

lemma traffic_stream: "stream_platform traffic_platform tr_in"
  by (auto simp: stream_platform_def traffic_platform_def split: list.splits)

lemma sendPacket_writes_once_witness:
  "map_option (\<lambda>(rc, _, s). (rc, tr_out (ls_env s)))
     (sendPacket traffic_platform 2 (tm_start_for (nt_new\<lparr>nt_timestamp := 4\<rparr>) 3000 tm_new)
       ((sn_example [])\<lparr>sn_sendbuf := [2, 22] @ replicate 198 0\<rparr>))
   = Some (SUCCESS, [[2, 22]])"
  by (subst sendPacket_writes_once)
    (simp_all add: sn_consts sn_example_def sn_new_def traffic_of_def send_once_def sn_timer_defs
      sn_clock_def traffic_platform_def tm_left_ms_def tm_remaining_def tm_start_for_def tm_new_def
      nt_getMillis_def nt_new_def tm_has_expired_def to_ulong_def ulong_mod_def)

subsection \<open>Receiving: properties\<close>

lemma clock_stream:
  "stream_platform P st \<Longrightarrow> st (ls_env (snd (sn_clock P s))) = st (ls_env s)"
  by (simp add: stream_platform_def)

lemma read_into_stream:
  assumes "stream_platform P st" and "0 \<le> n" and "nat n \<le> length (st (ls_env s))"
    and "0 \<le> off" and "nat off + nat n \<le> length (sn_readbuf s)"
  shows "\<exists>s'. read_into P off n t s = Some (n, s') \<and> st (ls_env s') = drop (nat n) (st (ls_env s))
    \<and> sn_readbuf s' = take (nat off) (sn_readbuf s) @ take (nat n) (st (ls_env s)) @ drop (nat off + nat n) (sn_readbuf s)
    \<and> sn_duration s' = sn_duration s"
proof -
  obtain rb bs w where r: "pf_read P n t (ls_env s) = ((rb, bs), w)" by (metis surj_pair)
  then have "rb = n" "bs = take (nat n) (st (ls_env s))" "st w = drop (nat n) (st (ls_env s))"
    using assms(1,2,3) unfolding stream_platform_def by (metis fst_conv snd_conv)+
  moreover from this have "length bs = nat n" using assms(3) by simp
  ultimately show ?thesis
    using r assms(4,5) by (simp add: read_into_def memcpy_in_range)
qed

lemma read_into_overrun:
  assumes "stream_platform P st" and "0 \<le> n" and "nat n \<le> length (st (ls_env s))"
    and "length (sn_readbuf s) < nat off + nat n"
  shows "read_into P off n t s = None"
proof -
  obtain rb bs w where r: "pf_read P n t (ls_env s) = ((rb, bs), w)" by (metis surj_pair)
  then have "bs = take (nat n) (st (ls_env s))"
    using assms(1,2,3) unfolding stream_platform_def by (metis fst_conv snd_conv)
  then have "length bs = nat n" using assms(3) by simp
  then show ?thesis using r assms(4) by (simp add: read_into_def memcpy_def)
qed

lemma read_into_one:
  assumes "stream_platform P st" and "st (ls_env s) = b # xs" and "sn_readbuf s \<noteq> []"
  shows "\<exists>s'. read_into P 0 1 t s = Some (1, s') \<and> st (ls_env s') = xs
    \<and> sn_readbuf s' = b # drop 1 (sn_readbuf s) \<and> sn_duration s' = sn_duration s"
  using read_into_stream [OF assms(1), of 1 s 0 t] assms(2,3) by (simp add: Suc_leI)

lemma sn_clock_stream:
  assumes "stream_platform P st" and "sn_remaining P t s = (r, s1) \<or> sn_left_ms P t s = (u, s1)"
  shows "st (ls_env s1) = st (ls_env s) \<and> sn_readbuf s1 = sn_readbuf s \<and> sn_duration s1 = sn_duration s"
proof -
  have "s1 = snd (sn_clock P s)"
    using assms(2) sn_timer_snd(1,2) [of P t s] by (metis snd_conv)
  then show ?thesis using clock_stream [OF assms(1), of s] by simp
qed

lemma read_firstByte_stream:
  assumes "stream_platform P st" and "st (ls_env s) = b # xs" and "sn_readbuf s \<noteq> []"
  shows "\<exists>s'. read_firstByte P timer s = Some (1, s') \<and> st (ls_env s') = xs
    \<and> sn_readbuf s' = b # drop 1 (sn_readbuf s) \<and> sn_duration s' = sn_duration s"
proof -
  obtain rem s1 where rem: "sn_remaining P timer s = (rem, s1)" by force
  have s1: "st (ls_env s1) = st (ls_env s)" "sn_readbuf s1 = sn_readbuf s" "sn_duration s1 = sn_duration s"
    using sn_clock_stream [OF assms(1)] rem by blast+
  obtain left s2 where left: "sn_left_ms P timer s1 = (left, s2)" by force
  have s2: "st (ls_env s2) = st (ls_env s)" "sn_readbuf s2 = sn_readbuf s" "sn_duration s2 = sn_duration s"
    using sn_clock_stream [OF assms(1)] left s1 by metis+
  show ?thesis
  proof (cases "0xffff < rem")
    case True
    show ?thesis
      using read_into_one [OF assms(1), of s1 b xs "0xffff"] s1 assms(2,3) True rem
      unfolding read_firstByte_def by (subst read_first.simps) auto
  next
    case False
    show ?thesis
      using read_into_one [OF assms(1), of s2 b xs left] s2 assms(2,3) False rem left
      unfolding read_firstByte_def read_left_def by (subst read_first.simps) auto
  qed
qed

lemma read_lengthBytes_short:
  assumes "sn_readbuf s = b # bs" and "b \<noteq> 1"
  shows "read_lengthBytes P timer len s = Some (len, s)"
  using assms by (simp add: read_lengthBytes_def load_def)

lemma read_remaining_stream:
  assumes "stream_platform P st" and "0 \<le> len" and "len < datalen" and "nat (datalen - len) \<le> length (st (ls_env s))"
    and "nat datalen \<le> length (sn_readbuf s)"
  shows "\<exists>s'. read_remaining P timer datalen len s = Some (datalen, s')
    \<and> st (ls_env s') = drop (nat (datalen - len)) (st (ls_env s)) \<and> sn_duration s' = sn_duration s
    \<and> sn_readbuf s' = take (nat len) (sn_readbuf s) @ take (nat (datalen - len)) (st (ls_env s))
        @ drop (nat datalen) (sn_readbuf s)"
proof -
  have n: "nat len + nat (datalen - len) = nat datalen" using assms(2,3) by simp
  obtain rem s1 where rem: "sn_remaining P timer s = (rem, s1)" by force
  have s1: "st (ls_env s1) = st (ls_env s)" "sn_readbuf s1 = sn_readbuf s" "sn_duration s1 = sn_duration s"
    using sn_clock_stream [OF assms(1)] rem by blast+
  obtain left s2 where left: "sn_left_ms P timer s1 = (left, s2)" by force
  have s2: "st (ls_env s2) = st (ls_env s)" "sn_readbuf s2 = sn_readbuf s" "sn_duration s2 = sn_duration s"
    using sn_clock_stream [OF assms(1)] left s1 by metis+
  show ?thesis
  proof (cases "0xffff < rem")
    case True
    show ?thesis
      using read_into_stream [OF assms(1), of "datalen - len" s1 len "0xffff"] s1 assms(2-5) n True rem
      unfolding read_remaining_def by (subst read_rest.simps) auto
  next
    case False
    show ?thesis
      using read_into_stream [OF assms(1), of "datalen - len" s2 len left] s2 assms(2-5) n False rem left
      unfolding read_remaining_def read_left_def by (subst read_rest.simps) auto
  qed
qed

lemma read_remaining_overrun:
  assumes "stream_platform P st" and "0 \<le> len" and "len < datalen" and "nat (datalen - len) \<le> length (st (ls_env s))"
    and "length (sn_readbuf s) < nat datalen"
  shows "read_remaining P timer datalen len s = None"
proof -
  have n: "nat len + nat (datalen - len) = nat datalen" using assms(2,3) by simp
  obtain rem s1 where rem: "sn_remaining P timer s = (rem, s1)" by force
  have s1: "st (ls_env s1) = st (ls_env s)" "sn_readbuf s1 = sn_readbuf s"
    using sn_clock_stream [OF assms(1)] rem by blast+
  obtain left s2 where left: "sn_left_ms P timer s1 = (left, s2)" by force
  have s2: "st (ls_env s2) = st (ls_env s)" "sn_readbuf s2 = sn_readbuf s"
    using sn_clock_stream [OF assms(1)] left s1 by metis+
  show ?thesis
    using read_into_overrun [OF assms(1), of "datalen - len" s1 len "0xffff"]
      read_into_overrun [OF assms(1), of "datalen - len" s2 len left] s1 s2 assms(3-5) n rem left
    unfolding read_remaining_def read_left_def by (subst read_rest.simps) auto
qed

lemma decode_short:
  "b \<noteq> 1 \<Longrightarrow> MQTTSNPacket_decode (b # bs) 1 v = Some (1, Some (uint b))"
  by (simp add: MQTTSNPacket_decode_def readChar_def load_def)

lemma readPacket_start:
  assumes "stream_platform P st" and "st (ls_env s) = b # xs" and "sn_readbuf s \<noteq> []" and "b \<noteq> 1"
  shows "\<exists>s1. st (ls_env s1) = xs \<and> sn_readbuf s1 = b # drop 1 (sn_readbuf s)
    \<and> readPacket P timer s = readPacket_data P timer 1 s1"
proof -
  obtain s1 where "read_firstByte P timer s = Some (1, s1)" "st (ls_env s1) = xs"
    "sn_readbuf s1 = b # drop 1 (sn_readbuf s)"
    using read_firstByte_stream [OF assms(1-3)] by blast
  then show ?thesis
    using assms(4) by (intro exI [of _ s1]) (simp add: readPacket_def read_lengthBytes_short load_def)
qed

lemma readPacket_stream:
  assumes "stream_platform P st" and "st (ls_env s) = p @ rest" and "length (sn_readbuf s) = 200"
    and "p = word_of_int (int (length p)) # t # body" and "length p \<le> 200"
  shows "\<exists>s'. readPacket P timer s = Some (uint t, s') \<and> take (length p) (sn_readbuf s') = p
    \<and> st (ls_env s') = rest"
proof -
  define b :: byte where "b = word_of_int (int (length p))"
  have p: "p = b # t # body" using assms(4) b_def by simp
  have len: "length p = length body + 2" using assms(4) by (metis length_Cons add_2_eq_Suc')
  have b: "uint b = int (length p)"
    unfolding b_def using assms(5) by (subst uint_word_of_int) (auto intro: mod_pos_pos_trivial)
  have b1: "b \<noteq> 1"
  proof
    assume "b = 1"
    then have "uint b = 1" by (simp only: uint_1)
    then show False using b len by linarith
  qed
  have "st (ls_env s) = b # (t # body @ rest)" using assms(2) p by simp
  then obtain s1 where s1: "st (ls_env s1) = t # body @ rest" "sn_readbuf s1 = b # drop 1 (sn_readbuf s)"
    "readPacket P timer s = readPacket_data P timer 1 s1"
    using readPacket_start [OF assms(1) _ _ b1, of s "t # body @ rest" timer] assms(3) by fastforce
  have n: "nat (uint b - 1) = Suc (length body)" "unat b = length p"
    "nat (2 + int (length body)) = Suc (Suc (length body))"
    using b len by (simp_all add: unat_eq_nat_uint nat_add_distrib)
  obtain s2 where s2: "read_remaining P timer (uint b) 1 s1 = Some (uint b, s2)"
    "st (ls_env s2) = rest"
    "sn_readbuf s2 = [b] @ (t # body) @ drop (length p) (b # drop 1 (sn_readbuf s))"
    using read_remaining_stream [OF assms(1), of 1 "uint b" s1 timer] s1(1,2) b len n assms(3,5) by auto
  have tk: "take (length p) (sn_readbuf s2) = p"
    using s2(3) p by simp
  obtain u s3 where u: "sn_countdown P (uint (sn_duration s2)) (sn_last_received s2) s2 = (u, s3)" by force
  then have "s3 = snd (sn_clock P s2)" using sn_timer_snd(5) [of P "uint (sn_duration s2)" "sn_last_received s2" s2] by simp
  then have s3: "sn_readbuf s3 = sn_readbuf s2" "st (ls_env s3) = rest"
    using clock_stream [OF assms(1), of s2] s2(2) by simp_all
  have rc: "readChar (sn_readbuf s2) 1 = Some (t, 2)" using s2(3) by (simp add: readChar_def load_def)
  have d: "readPacket P timer s = (if 0 < sn_duration s2 then Some (uint t, s3\<lparr>sn_last_received := u\<rparr>)
      else Some (uint t, s2))"
    using s1(2,3) b1 s2(1) rc u by (simp add: readPacket_data_def decode_short)
  show ?thesis unfolding d using s3 s2(2) tk by simp
qed





text \<open>
  C36: \<open>cycle\<close> cannot report a failure. Its result goes through an \<open>unsigned char\<close>, so it lies between
  0 and 255 and never equals \<open>FAILURE\<close>; when reading a packet fails, \<open>cycle\<close> returns 255. (The
  yield loop waits for \<open>FAILURE\<close>, and is therefore ended only by its timer.)
\<close>

theorem cycle_never_fails:
  assumes "cycle P N timer s = Some (rc, s')"
  shows "0 \<le> rc \<and> rc \<le> 255 \<and> rc \<noteq> FAILURE
    \<and> (\<forall>s1. readPacket P timer s = Some (FAILURE, s1) \<longrightarrow> rc = 255)"
proof -
  obtain r s1 ka b s2 where r: "readPacket P timer s = Some (r, s1)"
    and c: "cycle_switch P N (word_of_int r) timer s1 = Some (ka, b, s2)"
    and rc: "rc = uint (if b = 0 then ucast (word_of_int r :: u16) else b)"
    using assms by (auto simp: cycle_def Let_def split: bind_splits)
  have "0 \<le> uint c \<and> uint c \<le> 255" for c :: byte
    using uint_lt2p [of c] by simp
  then have range: "0 \<le> rc" "rc \<le> 255" unfolding rc by blast+
  moreover have "rc = 255" if "r = FAILURE"
  proof -
    have "b = 0" using c that by (simp add: cycle_switch_def FAILURE_def)
    moreover have "uint (ucast (- 1 :: u16) :: byte) = 255" by code_simp
    ultimately show ?thesis using rc that by (simp add: FAILURE_def)
  qed
  ultimately show ?thesis using r by (auto simp: FAILURE_def)
qed

lemma sn_example_idle: "sn_duration (sn_example xs) = 0"
  by (simp add: sn_example_def sn_new_def)

lemma example_read_fails:
  "readPacket traffic_platform tm_new (sn_example []) = Some (FAILURE, sn_example [])"
  unfolding readPacket_def read_firstByte_def
  by (subst read_first.simps)
    (simp add: sn_example_def sn_new_def traffic_of_def traffic_platform_def sn_timer_defs sn_clock_def
      read_left_def read_into_def tm_new_def tm_remaining_def tm_left_ms_def)

definition no_handlers :: "('w, 'm) sn_handlers" where
  "no_handlers = \<lparr>nh_message = None, nh_puback = None, nh_register = None, nh_disconnect = None,
     nh_pingResp = None\<rparr>"

lemma cycle_never_fails_witness:
  "map_option fst (cycle traffic_platform no_handlers tm_new (sn_example [])) = Some 255"
proof -
  obtain rc s' where c: "cycle traffic_platform no_handlers tm_new (sn_example []) = Some (rc, s')"
    by (simp add: cycle_def example_read_fails cycle_switch_def FAILURE_def keepalive_def sn_example_idle)
  from cycle_never_fails [OF c] c show ?thesis by (simp add: example_read_fails)
qed

end
