(* ===== verification/SnFrame.thy ===== *)
theory SnFrame
  imports SnClient
begin

text \<open>
  What the transport of the MQTT-SN client leaves alone: sending and receiving change the
  environment, the buffers, the keep-alive timers and the ping flag, and nothing else.
\<close>

definition transport :: "('w, 'm) sn \<Rightarrow> ('w, 'm) sn \<Rightarrow> bool" where
  "transport s s' \<longleftrightarrow> s' = s\<lparr>ls_env := ls_env s', sn_sendbuf := sn_sendbuf s', sn_readbuf := sn_readbuf s',
     sn_last_sent := sn_last_sent s', sn_last_received := sn_last_received s',
     sn_ping_outstanding := sn_ping_outstanding s'\<rparr>"

lemma transport_refl [simp]: "transport s s"
  by (simp add: transport_def)

lemma transport_trans: "transport s s1 \<Longrightarrow> transport s1 s2 \<Longrightarrow> transport s s2"
proof -
  assume 1: "transport s s1" and 2: "transport s1 s2"
  show ?thesis
    unfolding transport_def
    by (subst 2 [unfolded transport_def], subst 1 [unfolded transport_def]) simp
qed

lemma transport_updates [simp]:
  "transport s (s\<lparr>ls_env := w\<rparr>)" "transport s (s\<lparr>sn_sendbuf := b\<rparr>)" "transport s (s\<lparr>sn_last_sent := t\<rparr>)"
  "transport s (s\<lparr>sn_last_received := t\<rparr>)" "transport s (s\<lparr>ls_env := w, sn_readbuf := b\<rparr>)"
  "transport s (s\<lparr>sn_ping_outstanding := p\<rparr>)"
  by (simp_all add: transport_def)

lemma transport_fields:
  assumes "transport s s'"
  shows "ls_loop s' = ls_loop s" "ls_objs s' = ls_objs s" "sn_isconnected s' = sn_isconnected s"
    "sn_inflightMsgid s' = sn_inflightMsgid s" "sn_qos s' = sn_qos s" "sn_duration s' = sn_duration s"
    "sn_inflightLen s' = sn_inflightLen s" "sn_pubbuf s' = sn_pubbuf s"
  by (subst assms [unfolded transport_def]; simp)+

lemma transport_clock: "transport s (snd (sn_clock P s))"
  by (simp add: sn_clock_def split: prod.splits)

lemma transport_timers:
  "sn_remaining P t s = (x, s1) \<Longrightarrow> transport s s1" "sn_left_ms P t s = (u, s1) \<Longrightarrow> transport s s1"
  "sn_expired P t s = (e, s1) \<Longrightarrow> transport s s1" "sn_start_for P ms t s = (t', s1) \<Longrightarrow> transport s s1"
  "sn_countdown P ms t s = (t', s1) \<Longrightarrow> transport s s1"
  using transport_clock [of s P] sn_timer_snd by (metis snd_conv)+

text \<open>Receiving also leaves the send buffer, the sending timer and the ping flag alone.\<close>

definition received :: "('w, 'm) sn \<Rightarrow> ('w, 'm) sn \<Rightarrow> bool" where
  "received s s' \<longleftrightarrow> s' = s\<lparr>ls_env := ls_env s', sn_readbuf := sn_readbuf s', sn_last_received := sn_last_received s'\<rparr>"

lemma received_refl [simp]: "received s s"
  by (simp add: received_def)

lemma received_trans: "received s s1 \<Longrightarrow> received s1 s2 \<Longrightarrow> received s s2"
proof -
  assume 1: "received s s1" and 2: "received s1 s2"
  show ?thesis
    unfolding received_def
    by (subst 2 [unfolded received_def], subst 1 [unfolded received_def]) simp
qed

lemma received_updates [simp]:
  "received s (s\<lparr>ls_env := w\<rparr>)" "received s (s\<lparr>sn_last_received := t\<rparr>)" "received s (s\<lparr>ls_env := w, sn_readbuf := b\<rparr>)"
  by (simp_all add: received_def)

lemma received_transport:
  assumes "received s s'"
  shows "transport s s'" "sn_sendbuf s' = sn_sendbuf s"
proof -
  obtain w b t where "s' = s\<lparr>ls_env := w, sn_readbuf := b, sn_last_received := t\<rparr>"
    using assms unfolding received_def by blast
  then show "transport s s'" "sn_sendbuf s' = sn_sendbuf s" by (simp_all add: transport_def)
qed

lemma received_timers:
  "sn_remaining P t s = (x, s1) \<Longrightarrow> received s s1" "sn_left_ms P t s = (u, s1) \<Longrightarrow> received s s1"
  "sn_expired P t s = (e, s1) \<Longrightarrow> received s s1" "sn_start_for P ms t s = (t', s1) \<Longrightarrow> received s s1"
  "sn_countdown P ms t s = (t', s1) \<Longrightarrow> received s s1"
  by (auto simp: sn_timer_defs sn_clock_def split: prod.splits)

lemma read_into_received: "read_into P off n t s = Some (rb, s1) \<Longrightarrow> received s s1"
  by (auto simp: read_into_def split: prod.splits if_splits)

lemma read_first_received:
  assumes "read_first P timer len s = Some r"
  shows "received s (snd r)"
proof (rule read_first.raw_induct [where Pa = "\<lambda>(((P, timer), len), s) r. received s (snd r)", OF _ assms, unfolded split_conv])
  fix f :: "'a platform \<Rightarrow> ntimer \<Rightarrow> int \<Rightarrow> ('a, 'b) sn \<Rightarrow> (int \<times> ('a, 'b) sn) option" and P timer len s r
  assume IH: "\<And>timer len s b y. f timer len s b = Some y \<Longrightarrow> received b (snd y)"
    and eq: "(let (rem, s) = sn_remaining P timer s
      in if 0xffff < rem
         then Option.bind (read_into P 0 1 0xffff s) (\<lambda>(len, s).
           if len = 1 then Some (len, s) else f P timer len s)
         else Some (len, s)) = Some r"
  obtain rem s1 where rem: "sn_remaining P timer s = (rem, s1)" by force
  note t1 = received_timers(1) [OF rem]
  show "received s (snd r)"
    using eq rem t1
    by (auto split: if_splits bind_splits dest!: read_into_received IH) (blast intro: received_trans)+
qed

lemma read_length_received:
  assumes "read_length P timer len s = Some r"
  shows "received s (snd r)"
proof (rule read_length.raw_induct [where Pa = "\<lambda>(((P, timer), len), s) r. received s (snd r)", OF _ assms, unfolded split_conv])
  fix f :: "'a platform \<Rightarrow> ntimer \<Rightarrow> int \<Rightarrow> ('a, 'b) sn \<Rightarrow> (int \<times> ('a, 'b) sn) option" and P timer len s r
  assume IH: "\<And>timer len s b y. f timer len s b = Some y \<Longrightarrow> received b (snd y)"
    and eq: "(let (rem, s) = sn_remaining P timer s
      in if 0xffff < rem
         then Option.bind (read_into P 1 2 0xffff s) (\<lambda>(rb, s).
           let len = (if - 1 < rb then len + rb else len)
           in if len = 3 then Some (len, s) else f P timer len s)
         else Some (len, s)) = Some r"
  obtain rem s1 where rem: "sn_remaining P timer s = (rem, s1)" by force
  note t1 = received_timers(1) [OF rem]
  show "received s (snd r)"
    using eq rem t1
    by (auto simp: Let_def split: if_splits bind_splits dest!: read_into_received IH)
      (blast intro: received_trans)+
qed

lemma read_rest_received:
  assumes "read_rest P timer datalen len s = Some r"
  shows "received s (snd r)"
proof (rule read_rest.raw_induct
    [where Pa = "\<lambda>((((P, timer), datalen), len), s) r. received s (snd r)", OF _ assms, unfolded split_conv])
  fix f :: "'a platform \<Rightarrow> ntimer \<Rightarrow> int \<Rightarrow> int \<Rightarrow> ('a, 'b) sn \<Rightarrow> (int \<times> ('a, 'b) sn) option"
    and P timer datalen len s r
  assume IH: "\<And>timer datalen len s b y. f timer datalen len s b = Some y \<Longrightarrow> received b (snd y)"
    and eq: "(let (rem, s) = sn_remaining P timer s
      in if 0xffff < rem
         then Option.bind (read_into P len (datalen - len) 0xffff s) (\<lambda>(rb, s).
           let len = (if - 1 < rb then len + rb else len)
           in if datalen \<le> len then Some (len, s) else f P timer datalen len s)
         else Some (len, s)) = Some r"
  obtain rem s1 where rem: "sn_remaining P timer s = (rem, s1)" by force
  note t1 = received_timers(1) [OF rem]
  show "received s (snd r)"
    using eq rem t1
    by (auto simp: Let_def split: if_splits bind_splits dest!: read_into_received IH)
      (blast intro: received_trans)+
qed

lemma read_left_received: "read_left P timer off n s = Some (rb, s1) \<Longrightarrow> received s s1"
  by (auto simp: read_left_def split: prod.splits dest!: read_into_received received_timers
      intro: received_trans)

lemmas read_loop_receiveds = read_first_received read_length_received read_rest_received

lemma readPacket_received:
  assumes "readPacket P timer s = Some (rc, s')"
  shows "received s s'"
proof -
  have first: "received s s1" if "read_firstByte P timer s = Some (len, s1)" for len s1 and s :: "('a, 'b) sn"
    using that unfolding read_firstByte_def
    by (auto split: bind_splits if_splits dest!: read_first_received read_left_received intro: received_trans)
  have mid: "received s s1" if "read_lengthBytes P timer len s = Some (len', s1)" for len len' s1 and s :: "('a, 'b) sn"
    using that unfolding read_lengthBytes_def
    by (auto split: bind_splits if_splits dest!: read_length_received read_left_received intro: received_trans)
  have last: "received s s1" if "read_remaining P timer datalen len s = Some (len', s1)"
    for datalen len len' s1 and s :: "('a, 'b) sn"
    using that unfolding read_remaining_def
    by (auto split: bind_splits if_splits dest!: read_rest_received read_left_received intro: received_trans)
  have data: "received s s'" if d: "readPacket_data P timer len s = Some (rc, s')" for len and s :: "('a, 'b) sn"
  proof -
    obtain ll datalen len' s2 where ll: "MQTTSNPacket_decode (sn_readbuf s) len (Some 0) = Some (ll, Some datalen)"
      and s2: "read_remaining P timer datalen len s = Some (len', s2)"
      using d by (auto simp: readPacket_data_def split: bind_splits)
    obtain t s3 where t: "sn_countdown P (uint (sn_duration s2)) (sn_last_received s2) s2 = (t, s3)" by force
    have "s' = s2 \<or> s' = s3\<lparr>sn_last_received := t\<rparr>"
      using d ll s2 t by (auto simp: readPacket_data_def split: bind_splits if_splits)
    then show ?thesis
      using last [OF s2] received_timers(5) [OF t] received_updates(2) received_trans by metis
  qed
  show ?thesis
    using assms first mid data unfolding readPacket_def
    by (auto split: bind_splits if_splits) (metis received_trans)+
qed

lemma send_loop_transport:
  assumes "send_loop P len timer rc sent s = Some r"
  shows "transport s (snd (snd r)) \<and> sn_readbuf (snd (snd r)) = sn_readbuf s \<and> sn_sendbuf (snd (snd r)) = sn_sendbuf s"
proof (rule send_loop.raw_induct
    [where Pa = "\<lambda>(((((P, len), timer), rc), sent), s) r. transport s (snd (snd r))
       \<and> sn_readbuf (snd (snd r)) = sn_readbuf s \<and> sn_sendbuf (snd (snd r)) = sn_sendbuf s",
      OF _ assms, unfolded split_conv])
  fix f :: "'a platform \<Rightarrow> int \<Rightarrow> ntimer \<Rightarrow> int \<Rightarrow> int \<Rightarrow> ('a, 'b) sn \<Rightarrow> (int \<times> int \<times> ('a, 'b) sn) option"
    and P len timer rc sent s r
  assume IH: "\<And>len timer rc sent s b y. f len timer rc sent s b = Some y \<Longrightarrow> transport b (snd (snd y))
      \<and> sn_readbuf (snd (snd y)) = sn_readbuf b \<and> sn_sendbuf (snd (snd y)) = sn_sendbuf b"
    and eq: "(if sent < len
      then (let (ex, s) = sn_expired P timer s
            in if ex then Some (rc, sent, s)
               else if MAX_PACKET_SIZE < len - sent then Some (rc, sent, s)
               else Option.bind (memread (sn_sendbuf s) (nat sent) (nat len)) (\<lambda>bytes.
                 let (left, s) = sn_left_ms P timer s;
                     (ok, w) = pf_write P bytes left (ls_env s);
                     s = s\<lparr>ls_env := w\<rparr>;
                     rc = (if ok then len else rc)
                 in if rc < 0 then Some (rc, sent, s) else f P len timer rc (sent + rc) s))
      else Some (rc, sent, s)) = Some r"
  obtain ex s1 where ex: "sn_expired P timer s = (ex, s1)" by force
  obtain left s2 where left: "sn_left_ms P timer s1 = (left, s2)" by force
  have b: "sn_sendbuf s1 = sn_sendbuf s" "sn_readbuf s1 = sn_readbuf s" "sn_sendbuf s2 = sn_sendbuf s1"
    "sn_readbuf s2 = sn_readbuf s1"
    using sn_timer_snd(3) [of P timer s] sn_timer_snd(2) [of P timer s1] ex left sn_clock_fields(1,2)
    by (metis snd_conv)+
  have t: "transport s s1" "transport s (s2\<lparr>ls_env := w\<rparr>)" for w
    using transport_timers(3) [OF ex] transport_timers(2) [OF left] transport_updates(1) transport_trans by metis+
  show "transport s (snd (snd r)) \<and> sn_readbuf (snd (snd r)) = sn_readbuf s \<and> sn_sendbuf (snd (snd r)) = sn_sendbuf s"
    using eq ex left t b
    by (auto simp: Let_def split: if_splits bind_splits prod.splits dest!: IH) (blast intro: transport_trans)+
qed

lemma sendPacket_transport:
  assumes "sendPacket P len timer s = Some (rc, timer', s')"
  shows "transport s s' \<and> sn_readbuf s' = sn_readbuf s \<and> sn_sendbuf s' = sn_sendbuf s"
proof -
  have clk: "transport s s' \<and> sn_readbuf s' = sn_readbuf s \<and> sn_sendbuf s' = sn_sendbuf s"
    if "s' = snd (sn_clock P s)" for s s' :: "('a, 'b) sn"
    using that transport_clock by simp
  obtain left s1 where left: "sn_left_ms P timer s = (left, s1)" by force
  obtain tm s2 where tm: "(if 100 > uint left then sn_start_for P 1000 timer s1 else (timer, s1)) = (tm, s2)"
    by force
  obtain r sent s3 where loop: "send_loop P len tm FAILURE 0 s2 = Some (r, sent, s3)"
    using assms left tm by (auto simp: sendPacket_def split: bind_splits)
  obtain t s4 where t: "sn_countdown P (uint (sn_duration s3)) (sn_last_sent s3) s3 = (t, s4)" by force
  have "s' = s3 \<or> s' = s4\<lparr>sn_last_sent := t\<rparr>"
    using assms left tm loop t by (auto simp: sendPacket_def split: if_splits)
  moreover have c1: "s1 = snd (sn_clock P s)" and c4: "s4 = snd (sn_clock P s3)"
    using sn_timer_snd(2) [of P timer s] sn_timer_snd(5) [of P "uint (sn_duration s3)" "sn_last_sent s3" s3] left t
    by simp_all
  moreover have c2: "s2 = s1 \<or> s2 = snd (sn_clock P s1)"
    using sn_timer_snd(4) [of P 1000 timer s1] tm by (metis snd_conv)
  moreover have "transport s s2 \<and> sn_readbuf s2 = sn_readbuf s \<and> sn_sendbuf s2 = sn_sendbuf s"
    using clk [OF c1] c2 clk [of s2 s1] by (metis transport_trans)
  ultimately show ?thesis
    using send_loop_transport [OF loop] clk [OF c4] transport_updates(3) [of s4 t]
    by (elim disjE) (auto intro: transport_trans elim!: transport_trans)
qed

end
