(* ===== verification/SnLoops.thy ===== *)
theory SnLoops
  imports SnFrame
begin

text \<open>
  The requests of the MQTT-SN client and the loops that carry them out:
  \<open>libNbiot/src/nbiotmqttsnclient.cpp\<close> and the application side of \<open>MQTTSNClient.h\<close>. A request
  prepares its packet, stores what the loop needs in the client object and registers it with the
  loop controller. The argument \<open>int&\<close> of a loop handler is the field \<open>lc_ctrl\<close> of its client.
\<close>

subsection \<open>Access to a loop client\<close>

definition client_ctrl :: "NbiotLoopId \<Rightarrow> ('w, 'm) sn \<Rightarrow> int" where
  "client_ctrl c s = lc_ctrl (ls_objs s c)"

definition client_setTime :: "NbiotLoopId \<Rightarrow> int \<Rightarrow> ('w, 'm) sn \<Rightarrow> ('w, 'm) sn" where
  "client_setTime c ms s = on_client c (\<lambda>x. x\<lparr>lc_timer := tm_setTime ms (lc_timer x)\<rparr>) s"

definition client_getTime :: "NbiotLoopId \<Rightarrow> ('w, 'm) sn \<Rightarrow> int" where
  "client_getTime c s = tm_getTime (lc_timer (ls_objs s c))"

definition client_remaining :: "'w platform \<Rightarrow> NbiotLoopId \<Rightarrow> ('w, 'm) sn \<Rightarrow> int \<times> ('w, 'm) sn" where
  "client_remaining P c s = sn_remaining P (lc_timer (ls_objs s c)) s"

definition client_start :: "'w platform \<Rightarrow> NbiotLoopId \<Rightarrow> int \<Rightarrow> ('w, 'm) sn \<Rightarrow> ('w, 'm) sn" where
  "client_start P c ms s =
     (let (t, s) = sn_start_for P ms (lc_timer (ls_objs s c)) s in on_client c (\<lambda>x. x\<lparr>lc_timer := t\<rparr>) s)"

definition register_client :: "NbiotLoopId \<Rightarrow> ('w, 'm) sn \<Rightarrow> ('w, 'm) sn" where
  "register_client c s = on_loop (registerLoopClient (Some c)) s"

subsection \<open>Registering the loops\<close>

definition loopConnect :: "int \<Rightarrow> ('w, 'm) sn \<Rightarrow> ('w, 'm) sn" where
  "loopConnect len s =
     register_client LI_Connect (client_setTime LI_Connect (sn_command_timeout s) (lc_setValue LI_Connect len s))"

definition loopDisconnect :: "int \<Rightarrow> ('w, 'm) sn \<Rightarrow> ('w, 'm) sn" where
  "loopDisconnect len s =
     register_client LI_Disconnect
       (client_setTime LI_Disconnect (sn_command_timeout s) (lc_setValue LI_Disconnect len s))"

definition loopUnsubscribe :: "int \<Rightarrow> ('w, 'm) sn \<Rightarrow> ('w, 'm) sn" where
  "loopUnsubscribe len s =
     register_client LI_Unsubscribe
       (client_setTime LI_Unsubscribe (sn_command_timeout s) (lc_setValue LI_Unsubscribe len s))"

definition loopRegister :: "int \<Rightarrow> ('w, 'm) sn \<Rightarrow> ('w, 'm) sn" where
  "loopRegister len s =
     register_client LI_Register (client_setTime LI_Register (sn_command_timeout s) (lc_setValue LI_Register len s))"

definition loopSubscribe :: "u16 \<Rightarrow> int \<Rightarrow> ('w, 'm) sn \<Rightarrow> ('w, 'm) sn" where
  "loopSubscribe i timer_left s =
     register_client LI_Subscribe (client_setTime LI_Subscribe timer_left (lc_setValue LI_Subscribe (uint i)
       (s\<lparr>sn_subRetryTimeout := timer_left, sn_subRetryCount := sn_maxRetry s\<rparr>)))"

definition loopPublish :: "u16 \<Rightarrow> int \<Rightarrow> ('w, 'm) sn \<Rightarrow> ('w, 'm) sn" where
  "loopPublish i timer_left s =
     register_client LI_Publish (lc_setValue LI_Publish (uint i) (client_setTime LI_Publish timer_left
       (s\<lparr>sn_pubRetryTimeout := timer_left, sn_pubRetryCount := sn_maxRetry s\<rparr>)))"

definition loopYield :: "int \<Rightarrow> ('w, 'm) sn \<Rightarrow> ('w, 'm) sn" where
  "loopYield timeout_ms s = register_client LI_Yield (lc_setValue LI_Yield (to_int timeout_ms) s)"

definition stopYield :: "('w, 'm) sn \<Rightarrow> ('w, 'm) sn" where
  "stopYield s = s\<lparr>sn_yieldRunning := False\<rparr>"

subsection \<open>Requests\<close>

definition next_id :: "('w, 'm) sn \<Rightarrow> u16 \<times> ('w, 'm) sn" where
  "next_id s = (let (i, n) = PacketId_getNext (sn_packetid s) in (word_of_int i, s\<lparr>sn_packetid := n\<rparr>))"

definition sn_connect :: "connectData \<Rightarrow> ('w, 'm) sn \<Rightarrow> (int \<times> ('w, 'm) sn) option" where
  "sn_connect options s =
     (if \<not> sn_isconnected s
      then do {
        let s = s\<lparr>sn_duration := cd_duration options, sn_cleansession := (cd_cleansession options \<noteq> 0)\<rparr>;
        (len, buf) \<leftarrow> MQTTSNSerialize_connect (sn_sendbuf s) MAX_PACKET_SIZE options;
        let s = s\<lparr>sn_sendbuf := buf\<rparr>;
        if 0 < len then Some (SUCCESS, loopConnect len s) else Some (FAILURE, s)
      }
      else Some (FAILURE, s))"

definition sn_connect_default :: "('w, 'm) sn \<Rightarrow> (int \<times> ('w, 'm) sn) option" where
  "sn_connect_default s = sn_connect connectData_initializer s"

definition sn_registerTopic :: "topicid \<Rightarrow> ('w, 'm) sn \<Rightarrow> (int \<times> ('w, 'm) sn) option" where
  "sn_registerTopic topicName s = do {
     (name, nlen) \<leftarrow> union_long (tp_data topicName);
     let (msgid, s) = next_id s;
     (len, buf) \<leftarrow> MQTTSNSerialize_register (sn_sendbuf s) MAX_PACKET_SIZE 0 msgid
       \<lparr>ms_cstring = name, ms_len = nlen, ms_data = None\<rparr>;
     let s = s\<lparr>sn_sendbuf := buf\<rparr>;
     if 0 < len
     then Some (SUCCESS, register_client LI_Register (client_setTime LI_Register (sn_command_timeout s)
            (lc_setValue LI_Register len (s\<lparr>sn_topicName := topicName\<rparr>))))
     else Some (FAILURE, s)
   }"

definition sn_subscribe :: "'w platform \<Rightarrow> topicid \<Rightarrow> int \<Rightarrow> ('w, 'm) sn \<Rightarrow> int \<times> ('w, 'm) sn" where
  "sn_subscribe P topicFilter qos s =
     (if sn_isconnected s
      then let (i, s) = next_id s;
               (timer, s) = sn_Timer P (sn_command_timeout s) s;
               s = s\<lparr>sn_topicName := topicFilter, sn_qos := qos\<rparr>;
               (left, s) = sn_remaining P timer s
           in (SUCCESS, loopSubscribe i left s)
      else (FAILURE, s))"

definition sn_unsubscribe :: "topicid \<Rightarrow> ('w, 'm) sn \<Rightarrow> (int \<times> ('w, 'm) sn) option" where
  "sn_unsubscribe topicFilter s =
     (if sn_isconnected s
      then do {
        let (i, s) = next_id s;
        (len, buf) \<leftarrow> MQTTSNSerialize_unsubscribe (sn_sendbuf s) MAX_PACKET_SIZE i topicFilter;
        let s = s\<lparr>sn_sendbuf := buf\<rparr>;
        if 0 < len then Some (SUCCESS, loopUnsubscribe len (s\<lparr>sn_topicName := topicFilter\<rparr>)) else Some (FAILURE, s)
      }
      else Some (FAILURE, s))"

record sn_message =
  mg_qos :: int
  mg_retained :: bool
  mg_payload :: "byte list option"
  mg_payloadlen :: int

definition sn_publish :: "'w platform \<Rightarrow> topicid \<Rightarrow> sn_message \<Rightarrow> ('w, 'm) sn \<Rightarrow> int \<times> ('w, 'm) sn" where
  "sn_publish P topicName message s =
     (let (timer, s) = sn_Timer P (sn_command_timeout s) s
      in if sn_isconnected s
         then let (i, s) = (if QOS1 = mg_qos message then next_id s else (0, s));
                  s = s\<lparr>sn_topicName := topicName, sn_payload := mg_payload message,
                    sn_payloadlen := mg_payloadlen message, sn_retained := mg_retained message,
                    sn_qos := mg_qos message\<rparr>;
                  (left, s) = sn_remaining P timer s
              in (SUCCESS, loopPublish i left s)
         else (FAILURE, s))"

text \<open>\<open>publish(len, timer, qos)\<close>\<close>

definition sn_publishPacket ::
  "'w platform \<Rightarrow> int \<Rightarrow> ntimer \<Rightarrow> int \<Rightarrow> ('w, 'm) sn \<Rightarrow> (int \<times> ntimer \<times> ('w, 'm) sn) option" where
  "sn_publishPacket P len timer qos s =
     (if QOS0 = qos then sendPacket P len timer s else Some (SUCCESS, timer, s))"

definition sn_disconnect :: "'w platform \<Rightarrow> u16 \<Rightarrow> ('w, 'm) sn \<Rightarrow> (int \<times> ('w, 'm) sn) option" where
  "sn_disconnect P duration s = do {
     let (timer, s) = sn_Timer P (sn_command_timeout s) s;
     let int_duration = (if duration = 0 then - 1 else uint duration);
     (len, buf) \<leftarrow> MQTTSNSerialize_disconnect (sn_sendbuf s) MAX_PACKET_SIZE int_duration;
     let s = s\<lparr>sn_sendbuf := buf\<rparr>;
     if 0 < len then Some (SUCCESS, loopDisconnect len s) else Some (FAILURE, s)
   }"

definition sn_yield :: "int \<Rightarrow> ('w, 'm) sn \<Rightarrow> int \<times> ('w, 'm) sn" where
  "sn_yield timeout_ms s = (SUCCESS, loopYield timeout_ms s)"

definition sn_pmPing :: "'w platform \<Rightarrow> byte list option \<Rightarrow> ('w, 'm) sn \<Rightarrow> (int \<times> ('w, 'm) sn) option" where
  "sn_pmPing P cID s =
     (if \<not> sn_pmPingResp_outstanding s
      then let (timer, s) = sn_Timer P 1000 s
           in do {
             (len, buf) \<leftarrow> MQTTSNSerialize_pingreq (sn_sendbuf s) MAX_PACKET_SIZE
               \<lparr>ms_cstring = cID, ms_len = 0, ms_data = None\<rparr>;
             let s = s\<lparr>sn_sendbuf := buf\<rparr>;
             if 0 < len
             then do {
               (rc, _, s) \<leftarrow> sendPacket P len timer s;
               Some (rc, if rc = SUCCESS then s\<lparr>sn_pmPingResp_outstanding := True\<rparr> else s)
             }
             else Some (FAILURE, s)
           }
      else Some (FAILURE, s))"

subsection \<open>The loops\<close>

definition loopInterval :: int where "loopInterval = 1000"
definition invalidRC :: int where "invalidRC = 255"

definition loopWait ::
  "'w platform \<Rightarrow> ('w, 'm) sn_handlers \<Rightarrow> int \<Rightarrow> int \<Rightarrow> ('w, 'm) sn \<Rightarrow> (bool \<times> ('w, 'm) sn) option" where
  "loopWait P N breakValue interval s =
     (if interval = 0 then Some (False, s)
      else let (timer, s) = sn_Timer P (to_ulong interval) s
           in do { (rc, s) \<leftarrow> cycle P N timer s; Some (breakValue \<noteq> rc, s) })"

text \<open>
  The step that the loops share: \<open>loopTime\<close> becomes the time that remains for the loop, and
  \<open>cycle\<close> runs for at most the interval.
\<close>

definition loop_cycle ::
  "'w platform \<Rightarrow> ('w, 'm) sn_handlers \<Rightarrow> NbiotLoopId \<Rightarrow> byte \<Rightarrow> ('w, 'm) sn \<Rightarrow> (bool \<times> ('w, 'm) sn) option" where
  "loop_cycle P N c breakValue s =
     (let (r, s) = client_remaining P c s;
          loopTime = to_int r;
          s = lc_setValue c loopTime s
      in loopWait P N (uint breakValue) (if loopInterval < loopTime then loopInterval else loopTime) s)"

text \<open>
  The start that the loops share: send the packet of length \<open>len\<close> that waits in the send buffer and
  start the timer of the loop with the time that is left. \<open>startConLoop\<close> also restarts the
  keep-alive timer of the receiver.
\<close>

definition start_send ::
  "'w platform \<Rightarrow> NbiotLoopId \<Rightarrow> bool \<Rightarrow> ('w, 'm) sn \<Rightarrow> (bool \<times> ('w, 'm) sn) option" where
  "start_send P c con s =
     (let (timer, s) = sn_Timer P (client_getTime c s) s
      in do {
        (rc, timer, s) \<leftarrow> sendPacket P (client_ctrl c s) timer s;
        if SUCCESS = rc
        then (let s = (if con \<and> 0 < sn_duration s
                       then let (t, s) = sn_countdown P (uint (sn_duration s)) (sn_last_received s) s
                            in s\<lparr>sn_last_received := t\<rparr>
                       else s);
                  (left, s) = sn_remaining P timer s
              in Some (True, client_start P c left s))
        else Some (False, s)
      })"

definition startConLoop :: "'w platform \<Rightarrow> ('w, 'm) sn \<Rightarrow> (bool \<times> ('w, 'm) sn) option" where
  "startConLoop P s = start_send P LI_Connect True s"

definition doConLoop ::
  "'w platform \<Rightarrow> ('w, 'm) sn_handlers \<Rightarrow> ('w, 'm) sn \<Rightarrow> (bool \<times> ('w, 'm) sn) option" where
  "doConLoop P N s = loop_cycle P N LI_Connect (msg_code CONNACK) s"

definition finishConLoop :: "'w platform \<Rightarrow> ('w, 'm) sn \<Rightarrow> (bool \<times> ('w, 'm) sn) option" where
  "finishConLoop P s = do {
     let loopTime = client_ctrl LI_Connect s;
     ret \<leftarrow>
       (if loopTime = 0 then Some False
        else do {
          (r, v) \<leftarrow> MQTTSNDeserialize_connack (sn_readbuf s) MAX_PACKET_SIZE;
          let connack_rc = (case v of Some c \<Rightarrow> c | None \<Rightarrow> invalidRC);
          Some (r = 1 \<and> connack_rc = SUCCESS)
        });
     (ret, s) \<leftarrow>
       (if \<not> sn_cleansession s \<and> 0 < sn_inflightMsgid s
        then do {
          buf \<leftarrow> memcpy (sn_sendbuf s) 0 (sn_pubbuf s) (nat MAX_PACKET_SIZE);
          let (timer, s) = sn_Timer P (to_ulong loopTime) (s\<lparr>sn_sendbuf := buf\<rparr>);
          (rc, _, s) \<leftarrow> sn_publishPacket P (sn_inflightLen s) timer (sn_inflightQoS s) s;
          Some (if SUCCESS \<noteq> rc then False else ret, s)
        }
        else Some (ret, s));
     Some (ret, if ret then s\<lparr>sn_isconnected := True, sn_pmPingResp_outstanding := False\<rparr> else s)
   }"

definition startRegLoop :: "'w platform \<Rightarrow> ('w, 'm) sn \<Rightarrow> (bool \<times> ('w, 'm) sn) option" where
  "startRegLoop P s = start_send P LI_Register False s"

definition doRegLoop ::
  "'w platform \<Rightarrow> ('w, 'm) sn_handlers \<Rightarrow> ('w, 'm) sn \<Rightarrow> (bool \<times> ('w, 'm) sn) option" where
  "doRegLoop P N s = loop_cycle P N LI_Register (msg_code REGACK) s"

text \<open>Writing the member \<open>id\<close> of the topic.\<close>

definition set_topic_id :: "u16 \<Rightarrow> ('w, 'm) sn \<Rightarrow> ('w, 'm) sn" where
  "set_topic_id i s = s\<lparr>sn_topicName := (sn_topicName s)\<lparr>tp_data := UId i\<rparr>\<rparr>"

definition finishRegLoop :: "('w, 'm) sn \<Rightarrow> (bool \<times> ('w, 'm) sn) option" where
  "finishRegLoop s =
     (if client_ctrl LI_Register s = 0 then Some (False, s)
      else do {
        (r, v) \<leftarrow> MQTTSNDeserialize_regack (sn_readbuf s) MAX_PACKET_SIZE;
        if 0 < r
        then do {
          (topicid, submsgid, returncode) \<leftarrow> v;
          if SUCCESS = uint returncode then Some (True, set_topic_id topicid s) else Some (False, s)
        }
        else Some (False, s)
      })"

definition sendSubPacket ::
  "'w platform \<Rightarrow> int \<Rightarrow> byte \<Rightarrow> int \<Rightarrow> ('w, 'm) sn \<Rightarrow> (bool \<times> ('w, 'm) sn) option" where
  "sendSubPacket P packetId dup timeout s = do {
     let i = word_of_int packetId;
     (len, buf) \<leftarrow> MQTTSNSerialize_subscribe (sn_sendbuf s) MAX_PACKET_SIZE dup (sn_qos s) i (sn_topicName s);
     let s = s\<lparr>sn_sendbuf := buf\<rparr>;
     if 0 < len
     then do {
       let (timer, s) = sn_Timer P timeout s;
       (rc, _, s) \<leftarrow> sendPacket P len timer s;
       Some (SUCCESS = rc, s)
     }
     else Some (False, s)
   }"

definition startSubLoop :: "'w platform \<Rightarrow> ('w, 'm) sn \<Rightarrow> (bool \<times> ('w, 'm) sn) option" where
  "startSubLoop P s =
     (let (timer, s) = sn_Timer P (client_getTime LI_Subscribe s) s;
          (left, s) = sn_remaining P timer s
      in do {
        (ret, s) \<leftarrow> sendSubPacket P (client_ctrl LI_Subscribe s) 0 left s;
        if ret then (let (left, s) = sn_remaining P timer s in Some (True, client_start P LI_Subscribe left s))
        else Some (False, s)
      })"

definition doSubLoop ::
  "'w platform \<Rightarrow> ('w, 'm) sn_handlers \<Rightarrow> ('w, 'm) sn \<Rightarrow> (bool \<times> ('w, 'm) sn) option" where
  "doSubLoop P N s = do {
     let (r, s) = client_remaining P LI_Subscribe s;
     s \<leftarrow>
       (if r = 0 \<and> 0 < sn_subRetryCount s
        then do {
          let s = s\<lparr>sn_subRetryCount := sn_subRetryCount s - 1\<rparr>;
          let packetId = lc_getValue LI_Subscribe s;
          let (timer, s) = sn_Timer P (sn_subRetryTimeout s) s;
          let (left, s) = sn_remaining P timer s;
          (ok, s) \<leftarrow> sendSubPacket P packetId 1 left s;
          if ok then (let (left, s) = sn_remaining P timer s in Some (client_start P LI_Subscribe left s)) else Some s
        }
        else Some s);
     loop_cycle P N LI_Subscribe (msg_code SUBACK) s
   }"

definition finishSubLoop :: "('w, 'm) sn_handlers \<Rightarrow> ('w, 'm) sn \<Rightarrow> (bool \<times> ('w, 'm) sn) option" where
  "finishSubLoop N s =
     (if client_ctrl LI_Subscribe s = 0 then Some (False, s)
      else do {
        (r, v) \<leftarrow> MQTTSNDeserialize_suback (sn_readbuf s) MAX_PACKET_SIZE;
        if r = 1
        then do {
          (grantedQoS, topicid, mypacketid, retcode) \<leftarrow> v;
          Some (retcode = 0 \<and> nh_message N \<noteq> None, set_topic_id topicid s)
        }
        else Some (False, s)
      })"

definition sendPubPacket ::
  "'w platform \<Rightarrow> int \<Rightarrow> byte \<Rightarrow> int \<Rightarrow> ('w, 'm) sn \<Rightarrow> (bool \<times> ('w, 'm) sn) option" where
  "sendPubPacket P packetId dup timeout s = do {
     let i = word_of_int packetId;
     (len, buf) \<leftarrow> MQTTSNSerialize_publish (sn_sendbuf s) MAX_PACKET_SIZE dup (sn_qos s)
       (if sn_retained s then 1 else 0) i (sn_topicName s) (sn_payload s) (sn_payloadlen s);
     let s = s\<lparr>sn_sendbuf := buf\<rparr>;
     if 0 < len
     then do {
       pbuf \<leftarrow> memcpy (sn_pubbuf s) 0 (sn_sendbuf s) (nat len);
       let s = s\<lparr>sn_pubbuf := pbuf, sn_inflightLen := len, sn_inflightMsgid := i, sn_inflightQoS := sn_qos s\<rparr>;
       let (timer, s) = sn_Timer P timeout s;
       (rc, _, s) \<leftarrow> sendPacket P len timer s;
       Some (SUCCESS = rc, s)
     }
     else Some (False, s)
   }"

definition startPubLoop :: "'w platform \<Rightarrow> ('w, 'm) sn \<Rightarrow> (bool \<times> ('w, 'm) sn) option" where
  "startPubLoop P s =
     (let (timer, s) = sn_Timer P (client_getTime LI_Publish s) s;
          (left, s) = sn_remaining P timer s
      in do {
        (ret, s) \<leftarrow> sendPubPacket P (client_ctrl LI_Publish s) 0 left s;
        if ret then (let (left, s) = sn_remaining P timer s in Some (True, client_start P LI_Publish left s))
        else Some (False, s)
      })"

text \<open>The retransmission of \<open>doPubLoop\<close>.\<close>

definition retryPub :: "'w platform \<Rightarrow> ('w, 'm) sn \<Rightarrow> ('w, 'm) sn option" where
  "retryPub P s = do {
     let s = s\<lparr>sn_pubRetryCount := sn_pubRetryCount s - 1\<rparr>;
     let packetId = lc_getValue LI_Publish s;
     let (timer, s) = sn_Timer P (sn_pubRetryTimeout s) s;
     let (left, s) = sn_remaining P timer s;
     (ok, s) \<leftarrow> sendPubPacket P packetId 1 left s;
     if ok then (let (left, s) = sn_remaining P timer s in Some (client_start P LI_Publish left s)) else Some s
   }"

definition doPubLoop ::
  "'w platform \<Rightarrow> ('w, 'm) sn_handlers \<Rightarrow> ('w, 'm) sn \<Rightarrow> (bool \<times> ('w, 'm) sn) option" where
  "doPubLoop P N s =
     (if QOS0 = sn_qos s then Some (False, s)
      else do {
        let (r, s) = client_remaining P LI_Publish s;
        s \<leftarrow> (if r = 0 \<and> 0 < sn_pubRetryCount s then retryPub P s else Some s);
        loop_cycle P N LI_Publish (msg_code PUBACK) s
      })"

definition finishPubLoop :: "('w, 'm) sn \<Rightarrow> (bool \<times> ('w, 'm) sn) option" where
  "finishPubLoop s =
     (if QOS0 = sn_qos s then Some (True, s)
      else if client_ctrl LI_Publish s = 0 then Some (False, s)
      else do {
        let s = lc_setValue LI_Publish SUCCESS s;
        (r, v) \<leftarrow> MQTTSNDeserialize_puback (sn_readbuf s) MAX_PACKET_SIZE;
        if r \<noteq> 1 then Some (False, s)
        else do {
          (topicid, mypacketid, returncode) \<leftarrow> v;
          if sn_inflightMsgid s = mypacketid
          then (let s = s\<lparr>sn_inflightMsgid := 0\<rparr>
                in if SUCCESS \<noteq> uint returncode
                   then Some (False, lc_setValue LI_Publish (uint returncode) s) else Some (True, s))
          else Some (True, s)
        }
      })"

definition startUnsubLoop :: "'w platform \<Rightarrow> ('w, 'm) sn \<Rightarrow> (bool \<times> ('w, 'm) sn) option" where
  "startUnsubLoop P s = start_send P LI_Unsubscribe False s"

definition doUnsubLoop ::
  "'w platform \<Rightarrow> ('w, 'm) sn_handlers \<Rightarrow> ('w, 'm) sn \<Rightarrow> (bool \<times> ('w, 'm) sn) option" where
  "doUnsubLoop P N s = loop_cycle P N LI_Unsubscribe (msg_code UNSUBACK) s"

definition finishUnsubLoop :: "('w, 'm) sn \<Rightarrow> (bool \<times> ('w, 'm) sn) option" where
  "finishUnsubLoop s =
     (if client_ctrl LI_Unsubscribe s = 0 then Some (False, s)
      else map_option (\<lambda>(r, v). (r = 1, s)) (MQTTSNDeserialize_unsuback (sn_readbuf s) MAX_PACKET_SIZE))"

definition startYieldLoop :: "'w platform \<Rightarrow> ('w, 'm) sn \<Rightarrow> (bool \<times> ('w, 'm) sn) option" where
  "startYieldLoop P s =
     Some (True, (client_start P LI_Yield (to_ulong (client_ctrl LI_Yield s)) s)\<lparr>sn_yieldRunning := True\<rparr>)"

definition doYieldLoop ::
  "'w platform \<Rightarrow> ('w, 'm) sn_handlers \<Rightarrow> ('w, 'm) sn \<Rightarrow> (bool \<times> ('w, 'm) sn) option" where
  "doYieldLoop P N s =
     (let (r, s) = client_remaining P LI_Yield s;
          loopTime = to_int r;
          s = lc_setValue LI_Yield loopTime s
      in if sn_yieldRunning s
         then loopWait P N FAILURE (if loopInterval < loopTime then loopInterval else loopTime) s
         else Some (False, s))"

definition finishYieldLoop :: "('w, 'm) sn \<Rightarrow> (bool \<times> ('w, 'm) sn) option" where
  "finishYieldLoop s = Some (client_ctrl LI_Yield s = 0, s\<lparr>sn_yieldRunning := False\<rparr>)"

definition startDisLoop :: "'w platform \<Rightarrow> ('w, 'm) sn \<Rightarrow> (bool \<times> ('w, 'm) sn) option" where
  "startDisLoop P s = start_send P LI_Disconnect False s"

definition doDisLoop ::
  "'w platform \<Rightarrow> ('w, 'm) sn_handlers \<Rightarrow> ('w, 'm) sn \<Rightarrow> (bool \<times> ('w, 'm) sn) option" where
  "doDisLoop P N s = loop_cycle P N LI_Disconnect (msg_code DISCONNECT) s"

definition finishDisLoop :: "('w, 'm) sn \<Rightarrow> (bool \<times> ('w, 'm) sn) option" where
  "finishDisLoop s = Some (True, s\<lparr>sn_isconnected := False, sn_pmPingResp_outstanding := False\<rparr>)"

text \<open>
  The handlers that the constructor of \<open>NbiotMqttSnClient\<close> attaches to its loop clients; the client
  for \<open>LI_Cgatt\<close> belongs to the connection state machine, \<open>A\<close> are its handlers.
\<close>

fun sn_loops ::
  "'w platform \<Rightarrow> ('w, 'm) sn_handlers \<Rightarrow> (NbiotLoopId, 'w, 'm snsys_ext) lhandlers \<Rightarrow> NbiotLoopId
     \<Rightarrow> (NbiotLoopId, 'w, 'm snsys_ext) lhandlers" where
  "sn_loops P N A LI_Connect =
     \<lparr>lh_start = Some (startConLoop P), lh_step = Some (doConLoop P N), lh_stop = Some (finishConLoop P)\<rparr>"
| "sn_loops P N A LI_Publish =
     \<lparr>lh_start = Some (startPubLoop P), lh_step = Some (doPubLoop P N), lh_stop = Some finishPubLoop\<rparr>"
| "sn_loops P N A LI_Register =
     \<lparr>lh_start = Some (startRegLoop P), lh_step = Some (doRegLoop P N), lh_stop = Some finishRegLoop\<rparr>"
| "sn_loops P N A LI_Subscribe =
     \<lparr>lh_start = Some (startSubLoop P), lh_step = Some (doSubLoop P N), lh_stop = Some (finishSubLoop N)\<rparr>"
| "sn_loops P N A LI_Unsubscribe =
     \<lparr>lh_start = Some (startUnsubLoop P), lh_step = Some (doUnsubLoop P N), lh_stop = Some finishUnsubLoop\<rparr>"
| "sn_loops P N A LI_Yield =
     \<lparr>lh_start = Some (startYieldLoop P), lh_step = Some (doYieldLoop P N), lh_stop = Some finishYieldLoop\<rparr>"
| "sn_loops P N A LI_Disconnect =
     \<lparr>lh_start = Some (startDisLoop P), lh_step = Some (doDisLoop P N), lh_stop = Some finishDisLoop\<rparr>"
| "sn_loops P N A LI_Cgatt = A"
| "sn_loops P N A LI_Unknown = \<lparr>lh_start = None, lh_step = None, lh_stop = None\<rparr>"

end
