(* ===== verification/SnAnswers.thy ===== *)
theory SnAnswers
  imports SnLoops
begin

text \<open>
  What the loops of the MQTT-SN client make of the answers of the gateway: the step handlers run
  until the answer they wait for is in the receive buffer, and the stop handlers read it.
\<close>

subsection \<open>The keep-alive\<close>

lemma sendPacket_total:
  assumes "0 < len" and "len \<le> MAX_PACKET_SIZE" and "nat len \<le> length (sn_sendbuf s)"
  shows "\<exists>rc timer' s'. sendPacket P len timer s = Some (rc, timer', s')"
proof -
  obtain left s1 where left: "sn_left_ms P timer s = (left, s1)" by force
  obtain timer' s2 where t: "(if 100 > uint left then sn_start_for P 1000 timer s1 else (timer, s1)) = (timer', s2)"
    by force
  have "sn_sendbuf s1 = sn_sendbuf s" using sn_timer_snd(2) [of P timer s] left by (metis snd_conv sn_clock_fields(1))
  moreover have "sn_sendbuf s2 = sn_sendbuf s1"
    using t sn_timer_snd(4) [of P 1000 timer s1] by (metis snd_conv sn_clock_fields(1))
  ultimately have l: "nat len \<le> length (sn_sendbuf s2)" using assms(3) by simp
  obtain ok s3 where ok: "send_once P (take (nat len) (sn_sendbuf s2)) timer' s2 = (ok, s3)" by force
  obtain u s4 where u: "sn_countdown P (uint (sn_duration s3)) (sn_last_sent s3) s3 = (u, s4)" by force
  have "send_loop P len timer' FAILURE 0 s2 = Some (if ok then len else FAILURE, if ok then len else 0, s3)"
    using send_loop_once [OF assms(1,2) l, of P timer'] ok by simp
  then show ?thesis using left t u assms(1) by (cases ok) (simp_all add: sendPacket_def)
qed

lemma pingreq_without_id:
  assumes "length buf = 200"
  shows "\<exists>buf'. MQTTSNSerialize_pingreq buf MAX_PACKET_SIZE \<lparr>ms_cstring = None, ms_len = 0, ms_data = None\<rparr> = Some (2, buf')
    \<and> length buf' = 200"
proof -
  obtain x y xs where "buf = x # y # xs" using assms by (cases buf; cases "tl buf") auto
  then show ?thesis
    using assms
    by (auto simp: MQTTSNSerialize_pingreq_def MQTTSNstrlen_def sn_consts MQTTSNPacket_len_def finish_def
        MQTTSNPacket_encode_def writeChar_def store_def writeMQTTSNString_def)
qed

lemma keepalive_total:
  assumes "length (sn_sendbuf s) = 200"
  shows "\<exists>rc s'. keepalive P s = Some (rc, s') \<and> transport s s' \<and> sn_readbuf s' = sn_readbuf s"
proof (cases "sn_duration s = 0")
  case False
  obtain e1 s1 where e1: "sn_expired P (sn_last_sent s) s = (e1, s1)" by force
  obtain e2 s2 where e2: "(if e1 then (True, s1) else sn_expired P (sn_last_received s1) s1) = (e2, s2)" by force
  obtain timer s3 where t: "sn_Timer P 1000 s2 = (timer, s3)" by force
  have c: "s1 = snd (sn_clock P s)" "s2 = s1 \<or> s2 = snd (sn_clock P s1)" "s3 = snd (sn_clock P s2)"
    using sn_timer_snd(3) [of P "sn_last_sent s" s] sn_timer_snd(3) [of P "sn_last_received s1" s1]
      sn_timer_snd(4) [of P 1000 tm_new s2] e1 e2 t unfolding sn_Timer_def by (metis snd_conv)+
  have t2: "transport s s2" "sn_readbuf s2 = sn_readbuf s"
    and t3: "transport s s3" "sn_readbuf s3 = sn_readbuf s" "sn_sendbuf s3 = sn_sendbuf s"
    using c transport_clock transport_trans sn_clock_fields(1,2) by metis+
  obtain buf where buf: "MQTTSNSerialize_pingreq (sn_sendbuf s3) MAX_PACKET_SIZE
      \<lparr>ms_cstring = None, ms_len = 0, ms_data = None\<rparr> = Some (2, buf)" "length buf = 200"
    using pingreq_without_id [of "sn_sendbuf s3"] t3(3) assms by auto
  obtain rc timer' s4 where s4: "sendPacket P 2 timer (s3\<lparr>sn_sendbuf := buf\<rparr>) = Some (rc, timer', s4)"
    using sendPacket_total [of 2 "s3\<lparr>sn_sendbuf := buf\<rparr>" P timer] buf(2) by (auto simp: sn_consts)
  have t4: "transport s s4" "sn_readbuf s4 = sn_readbuf s"
    using sendPacket_transport [OF s4] t3(2) transport_trans [OF t3(1) transport_updates(2) [of s3 buf]]
    by (auto dest: transport_trans)
  have "keepalive P s = (if e2 \<and> \<not> sn_ping_outstanding s2
      then Some (rc, if rc = SUCCESS then s4\<lparr>sn_ping_outstanding := True\<rparr> else s4) else Some (FAILURE, s2))"
    using False e1 e2 t buf(1) s4 by (simp add: keepalive_def)
  then show ?thesis
    using t2 t4 transport_trans [OF t4(1) transport_updates(6)] by auto
qed (simp add: keepalive_def)

subsection \<open>The answer that a loop waits for\<close>

text \<open>
  The packets that \<open>cycle\<close> leaves to the loops: those without a case of their own, and a PUBACK while
  a publish is in flight.
\<close>

definition left_to_loop :: "byte \<Rightarrow> ('w, 'm) sn \<Rightarrow> bool" where
  "left_to_loop t s \<longleftrightarrow> t \<noteq> 0 \<and>
     (if t = msg_code PUBACK then sn_inflightMsgid s \<noteq> 0
      else t \<noteq> msg_code REGISTER \<and> t \<noteq> msg_code DISCONNECT \<and> t \<noteq> msg_code PUBLISH \<and> t \<noteq> msg_code PINGRESP)"

lemma left_to_loop_cong: "sn_inflightMsgid s' = sn_inflightMsgid s \<Longrightarrow> left_to_loop t s' = left_to_loop t s"
  by (simp only: left_to_loop_def)

lemma ucast_eq_byte: "(ucast (t :: byte) :: u16) = ucast b \<longleftrightarrow> t = b"
  by (metis ucast_byte_u16)

lemma cycle_switch_left:
  assumes "left_to_loop t s"
  shows "cycle_switch P N (ucast t) timer s = Some (True, 0, s)"
  using assms unfolding left_to_loop_def cycle_switch_def cycle_puback_def ucast_eq_byte
  by (auto split: if_splits)

lemma cycle_answer:
  assumes "stream_platform P st" and "st (ls_env s) = p @ rest"
    and "length (sn_readbuf s) = 200" and "length (sn_sendbuf s) = 200"
    and "p = word_of_int (int (length p)) # t # body" and "length p \<le> 200" and "left_to_loop t s"
  shows "\<exists>s'. cycle P N timer s = Some (uint t, s') \<and> transport s s' \<and> take (length p) (sn_readbuf s') = p"
proof -
  obtain s1 where s1: "readPacket P timer s = Some (uint t, s1)" "take (length p) (sn_readbuf s1) = p"
    using readPacket_stream [OF assms(1,2,3,5,6)] by blast
  have t1: "transport s s1" "sn_sendbuf s1 = sn_sendbuf s"
    by (rule received_transport [OF readPacket_received [OF s1(1)]])+
  then obtain rc s2 where s2: "keepalive P s1 = Some (rc, s2)" "transport s1 s2" "sn_readbuf s2 = sn_readbuf s1"
    using keepalive_total [of s1 P] assms(4) by auto
  have "left_to_loop t s1" using left_to_loop_cong [OF transport_fields(4) [OF t1(1)]] assms(7) by simp
  then have "cycle_switch P N (word_of_int (uint t)) timer s1 = Some (True, 0, s1)"
    using cycle_switch_left [of t s1] by (simp only: ucast_eq)
  then show ?thesis
    using s1 s2 transport_trans [OF t1(1) s2(2)] by (simp add: cycle_def)
qed

lemma transport_setValue:
  assumes "transport s s1"
  shows "transport (lc_setValue c v s) (lc_setValue c v s1)"
proof -
  obtain w b1 b2 t1 t2 p where "s1 = s\<lparr>ls_env := w, sn_sendbuf := b1, sn_readbuf := b2, sn_last_sent := t1,
      sn_last_received := t2, sn_ping_outstanding := p\<rparr>"
    using assms unfolding transport_def by blast
  then show ?thesis by (simp add: transport_def lc_setValue_def)
qed

lemma loop_cycle_answer:
  assumes "stream_platform P st" and "st (ls_env s) = p @ rest"
    and "length (sn_readbuf s) = 200" and "length (sn_sendbuf s) = 200"
    and "p = word_of_int (int (length p)) # t # body" and "length p \<le> 200" and "left_to_loop t s"
    and "v = to_int (fst (client_remaining P c s))" and "v \<noteq> 0"
  shows "\<exists>s'. loop_cycle P N c t s = Some (False, s') \<and> transport (lc_setValue c v s) s'
    \<and> take (length p) (sn_readbuf s') = p"
proof -
  obtain r s1 where r: "client_remaining P c s = (r, s1)" by force
  have c1: "s1 = snd (sn_clock P s)"
    using r sn_timer_snd(1) [of P "lc_timer (ls_objs s c)" s] unfolding client_remaining_def by (metis snd_conv)
  have v: "to_int r = v" using assms(8) r by simp
  define s2 where "s2 = lc_setValue c v s1"
  define i where "i = (if loopInterval < v then loopInterval else v)"
  obtain timer s3 where t: "sn_Timer P (to_ulong i) s2 = (timer, s3)" by force
  have c3: "s3 = snd (sn_clock P s2)"
    using t sn_timer_snd(4) [of P "to_ulong i" tm_new s2] unfolding sn_Timer_def by (metis snd_conv)
  have t12: "transport s s1" "transport s2 s3" using transport_clock c1 c3 by auto
  have t23: "transport (lc_setValue c v s) s3"
    using transport_setValue [OF t12(1), of c v] t12(2) unfolding s2_def by (rule transport_trans)
  have e: "st (ls_env s3) = st (ls_env s)" "sn_readbuf s3 = sn_readbuf s" "sn_sendbuf s3 = sn_sendbuf s"
    using c1 c3 clock_stream [OF assms(1), of s] clock_stream [OF assms(1), of s2] unfolding s2_def lc_setValue_def
    by simp_all
  have "left_to_loop t s3"
    using left_to_loop_cong [of s3 s] transport_fields(4) [OF t23] assms(7) by (simp add: lc_setValue_def)
  then obtain s4 where s4: "cycle P N timer s3 = Some (uint t, s4)" "transport s3 s4" "take (length p) (sn_readbuf s4) = p"
    using cycle_answer [OF assms(1) _ _ _ assms(5,6), of s3 rest N timer] e assms(2-4) by auto
  have "i \<noteq> 0" using assms(9) by (auto simp: i_def loopInterval_def)
  moreover have "loop_cycle P N c t s = loopWait P N (uint t) i s2"
    by (simp add: loop_cycle_def r v Let_def i_def s2_def)
  ultimately have "loop_cycle P N c t s = Some (False, s4)"
    using t s4(1) by (simp add: loopWait_def)
  then show ?thesis using s4 transport_trans [OF t23 s4(2)] by blast
qed

subsection \<open>The last step of a loop\<close>

lemma nbiotLoop_last_step:
  assumes "\<not> nl_breakFlag (ls_loop s)" and "nl_loopClient (ls_loop s) = Some c"
    and "lc_result (ls_objs s c) = LC_Pending"
    and "lh_step (H c) = Some f" and "f s = Some (False, s1)"
    and "ls_loop s1 = ls_loop s" and "lc_result (ls_objs s1 c) = LC_Pending"
    and "lh_stop (H c) = Some g" and "g s1 = Some (b, s2)" and "ls_loop s2 = ls_loop s"
  shows "nbiotLoop (LoopClient H) s = Some (if b then LC_Idle else LC_Fail,
    on_loop (\<lambda>l. l\<lparr>nl_loopValue := lc_ctrl (ls_objs s2 c), nl_loopClient := None\<rparr>)
      (on_client c (\<lambda>x. x\<lparr>lc_result := if b then LC_Idle else LC_Fail\<rparr>) s2))"
proof -
  have id: "on_loop nl_handleBreak s = s" using assms(1) by (simp add: nl_handleBreak_def)
  have "loopStep H c s = Some (if b then LC_Idle else LC_Fail,
      on_client c (\<lambda>x. x\<lparr>lc_result := if b then LC_Idle else LC_Fail\<rparr>) s2)"
    using assms(3-9) by (simp add: loopStep_def postLoopStep_def)
  then show ?thesis
    using assms(2,10) by (simp add: nbiotLoop_def id nl_runStep_def lc_getResult_def lc_getValue_def)
qed

text \<open>The client \<open>c\<close> is the running one, and the buffers have their size.\<close>

definition loop_running :: "NbiotLoopId \<Rightarrow> ('w, 'm) sn \<Rightarrow> bool" where
  "loop_running c s \<longleftrightarrow> \<not> nl_breakFlag (ls_loop s) \<and> nl_loopClient (ls_loop s) = Some c
     \<and> lc_result (ls_objs s c) = LC_Pending \<and> length (sn_sendbuf s) = 200 \<and> length (sn_readbuf s) = 200"

text \<open>What is left of the state after the last step, whatever the stop handler did to the client.\<close>

lemma transport_running:
  assumes "transport (lc_setValue c v s) s1"
  shows "ls_loop s1 = ls_loop s" "lc_result (ls_objs s1 c) = lc_result (ls_objs s c)"
    "lc_ctrl (ls_objs s1 c) = v" "sn_isconnected s1 = sn_isconnected s" "sn_inflightMsgid s1 = sn_inflightMsgid s"
    "sn_cleansession s1 = sn_cleansession s" "sn_qos s1 = sn_qos s" "sn_topicName s1 = sn_topicName s"
  by (subst assms [unfolded transport_def]; simp add: lc_setValue_def)+

lemma loop_finishes:
  assumes "loop_running c s" and "transport (lc_setValue c v s) s1"
    and "lh_step (H c) = Some f" and "f s = Some (False, s1)"
    and "lh_stop (H c) = Some g" and "g s1 = Some (b, s2)" and "ls_loop s2 = ls_loop s1"
  shows "\<exists>l objs. nbiotLoop (LoopClient H) s = Some (if b then LC_Idle else LC_Fail, s2\<lparr>ls_loop := l, ls_objs := objs\<rparr>)
    \<and> nl_loopClient l = None"
proof -
  note t = transport_running [OF assms(2)]
  let ?r = "if b then LC_Idle else LC_Fail"
  show ?thesis
    using nbiotLoop_last_step [where H = H and c = c and s = s and f = f and g = g and ?s1.0 = s1 and ?s2.0 = s2 and b = b]
      assms t(1,2)
    by (intro exI [of _ "ls_loop s2\<lparr>nl_loopValue := lc_ctrl (ls_objs s2 c), nl_loopClient := None\<rparr>"]
        exI [of _ "(ls_objs s2)(c := (ls_objs s2 c)\<lparr>lc_result := ?r\<rparr>)"]) (simp add: loop_running_def)
qed

lemma take_prefix: "take (length p) xs = p \<Longrightarrow> xs = p @ drop (length p) xs"
  by (metis append_take_drop_id)

lemma ack_wire_shape:
  "ack_wire t (a, b, c) = word_of_int (int (length (ack_wire t (a, b, c)))) # t # (be16 (uint a) @ be16 (uint b) @ [c])"
  by (simp add: ack_wire_def)


text \<open>A client in which the loop \<open>c\<close> runs, with 3 s of its time left, and the bytes \<open>xs\<close> in the network.\<close>

definition sn_running :: "NbiotLoopId \<Rightarrow> byte list \<Rightarrow> traffic snsys" where
  "sn_running c xs = (sn_example xs)
     \<lparr>ls_loop := nloop_new\<lparr>nl_loopClient := Some c, nl_loopId := c\<rparr>,
      ls_objs := lclient_new(c := (lclient_new c)\<lparr>lc_result := LC_Pending,
        lc_timer := tm_start_for (nt_new\<lparr>nt_timestamp := 4\<rparr>) 3000 tm_new\<rparr>)\<rparr>"

lemma sn_running_facts [simp]:
  "loop_running c (sn_running c xs)" "tr_in (ls_env (sn_running c xs)) = xs"
  "sn_inflightMsgid (sn_running c xs) = 0" "sn_isconnected (sn_running c xs) = False"
  "sn_qos (sn_running c xs) = QOS1" "length (sn_sendbuf (sn_running c xs)) = 200"
  "client_remaining traffic_platform c (sn_running c xs) = (2000, sn_running c xs)"
  by (simp_all add: sn_running_def loop_running_def sn_example_def sn_new_def traffic_of_def nloop_new_def
      client_remaining_def sn_timer_defs sn_clock_def traffic_platform_def lclient_new_def tm_remaining_def
      tm_start_for_def tm_new_def nt_getMillis_def nt_new_def to_ulong_def ulong_mod_def)

definition no_loop :: "(NbiotLoopId, 'w, 'm) lhandlers" where
  "no_loop = \<lparr>lh_start = None, lh_step = None, lh_stop = None\<rparr>"


text \<open>
  C16: the acknowledgement of a publish. While the publish loop of a message with quality of service
  above 0 runs and time remains, a PUBACK in the network ends the request in this call of
  \<open>nbiotLoop\<close>. An acknowledgement of the message in flight with a return code other than 0 is a
  failure, and any acknowledgement of that message clears the message in flight. An acknowledgement of
  another message also counts as success, although the message in flight was not acknowledged.
\<close>

theorem puback_completes_publish:
  assumes "loop_running LI_Publish s" and "stream_platform P st"
    and "st (ls_env s) = ack_wire (msg_code PUBACK) (topicid, msgid, rc) @ rest"
    and "client_remaining P LI_Publish s = (r, s0)" and "r \<noteq> 0"
    and "to_int (fst (client_remaining P LI_Publish s0)) \<noteq> 0"
    and "sn_qos s \<noteq> QOS0" and "sn_inflightMsgid s \<noteq> 0"
  shows "\<exists>s'. nbiotLoop (LoopClient (sn_loops P N A)) s
      = Some (if msgid = sn_inflightMsgid s \<and> rc \<noteq> 0 then LC_Fail else LC_Idle, s')
    \<and> sn_inflightMsgid s' = (if msgid = sn_inflightMsgid s then 0 else sn_inflightMsgid s)
    \<and> nl_loopClient (ls_loop s') = None"
proof -
  let ?p = "ack_wire (msg_code PUBACK) (topicid, msgid, rc)"
  define v where "v = to_int (fst (client_remaining P LI_Publish s0))"
  have s0: "s0 = snd (sn_clock P s)"
    using assms(4) sn_timer_snd(1) [of P "lc_timer (ls_objs s LI_Publish)" s]
    unfolding client_remaining_def by (metis snd_conv)
  then have t0: "transport s s0" and e0: "st (ls_env s0) = ?p @ rest" "sn_readbuf s0 = sn_readbuf s" "sn_sendbuf s0 = sn_sendbuf s"
    using transport_clock [of s P] clock_stream [OF assms(2), of s] assms(3) by simp_all
  obtain s1 where s1: "loop_cycle P N LI_Publish (msg_code PUBACK) s0 = Some (False, s1)"
    "transport (lc_setValue LI_Publish v s0) s1" "take 7 (sn_readbuf s1) = ?p"
    using loop_cycle_answer [OF assms(2) e0(1) _ _ ack_wire_shape, where c = LI_Publish and v = v and N = N]
      assms(1,6,8) e0(2,3) transport_fields(4) [OF t0]
    by (auto simp: loop_running_def v_def left_to_loop_def)
  have step: "doPubLoop P N s = Some (False, s1)"
    using assms(4,5,7) s1(1) by (simp add: doPubLoop_def)
  have tr: "transport (lc_setValue LI_Publish v s) s1"
    using transport_setValue [OF t0] s1(2) by (rule transport_trans)
  note t = transport_running [OF tr]
  have d: "MQTTSNDeserialize_puback (sn_readbuf s1) MAX_PACKET_SIZE = Some (1, Some (topicid, msgid, rc))"
    using puback.des_wire [of "(topicid, msgid, rc)" MAX_PACKET_SIZE "drop 7 (sn_readbuf s1)"]
      take_prefix [of ?p "sn_readbuf s1"] s1(3) by (simp add: sn_consts)
  define ok where "ok = (\<not> (msgid = sn_inflightMsgid s \<and> rc \<noteq> 0))"
  obtain s2 where f: "finishPubLoop s1 = Some (ok, s2)" "ls_loop s2 = ls_loop s1"
    "sn_inflightMsgid s2 = (if msgid = sn_inflightMsgid s then 0 else sn_inflightMsgid s)"
    using d t(3,5,7) assms(6,7)
    by (cases "sn_inflightMsgid s = msgid"; cases "rc = 0")
      (auto simp: finishPubLoop_def client_ctrl_def v_def ok_def lc_setValue_def SUCCESS_def uint_0_iff)
  show ?thesis
    using loop_finishes [OF assms(1) tr, where f = "doPubLoop P N" and g = finishPubLoop
        and H = "sn_loops P N A"] step f by (auto simp: ok_def)
qed

lemma puback_completes_publish_witness:
  "\<exists>s'. nbiotLoop (LoopClient (sn_loops traffic_platform no_handlers no_loop))
      ((sn_running LI_Publish (ack_wire (msg_code PUBACK) (1, 8, 3)))\<lparr>sn_inflightMsgid := 7\<rparr>) = Some (LC_Idle, s')
    \<and> sn_inflightMsgid s' = 7 \<and> nl_loopClient (ls_loop s') = None"
proof -
  let ?s = "(sn_running LI_Publish (ack_wire (msg_code PUBACK) (1, 8, 3)))\<lparr>sn_inflightMsgid := 7\<rparr>"
  have r: "client_remaining traffic_platform LI_Publish ?s = (2000, ?s)"
    by (simp add: sn_running_def sn_example_def sn_new_def traffic_of_def nloop_new_def
      client_remaining_def sn_timer_defs sn_clock_def traffic_platform_def lclient_new_def tm_remaining_def
      tm_start_for_def tm_new_def nt_getMillis_def nt_new_def to_ulong_def ulong_mod_def)
  have l: "loop_running LI_Publish ?s"
    using sn_running_facts(1) [of LI_Publish "ack_wire (msg_code PUBACK) (1, 8, 3)"] by (simp add: loop_running_def)
  show ?thesis
    using puback_completes_publish [OF l traffic_stream _ r, of 1 8 3 "[]" no_handlers no_loop] r
    by (simp add: sn_consts to_int_def)
qed

text \<open>
  C18: the answer to a REGISTER. While the register loop runs and time remains, a REGACK in the
  network ends the request; if the gateway accepted, the topic of the client has the id that the
  gateway gave it, and otherwise the request has failed and the topic is as it was.
\<close>

theorem regack_completes_register:
  assumes "loop_running LI_Register s" and "stream_platform P st"
    and "st (ls_env s) = ack_wire (msg_code REGACK) (topicid, msgid, rc) @ rest"
    and "to_int (fst (client_remaining P LI_Register s)) \<noteq> 0"
  shows "\<exists>s'. nbiotLoop (LoopClient (sn_loops P N A)) s = Some (if rc = 0 then LC_Idle else LC_Fail, s')
    \<and> sn_topicName s' = (if rc = 0 then (sn_topicName s)\<lparr>tp_data := UId topicid\<rparr> else sn_topicName s)
    \<and> nl_loopClient (ls_loop s') = None"
proof -
  let ?p = "ack_wire (msg_code REGACK) (topicid, msgid, rc)"
  define v where "v = to_int (fst (client_remaining P LI_Register s))"
  obtain s1 where s1: "doRegLoop P N s = Some (False, s1)" "transport (lc_setValue LI_Register v s) s1"
    "take 7 (sn_readbuf s1) = ?p"
    using loop_cycle_answer [OF assms(2,3) _ _ ack_wire_shape, where c = LI_Register and v = v and N = N] assms(1,4)
    by (auto simp: loop_running_def v_def left_to_loop_def doRegLoop_def)
  note t = transport_running [OF s1(2)]
  have d: "MQTTSNDeserialize_regack (sn_readbuf s1) MAX_PACKET_SIZE = Some (1, Some (topicid, msgid, rc))"
    using regack.des_wire [of "(topicid, msgid, rc)" MAX_PACKET_SIZE "drop 7 (sn_readbuf s1)"]
      take_prefix [of ?p "sn_readbuf s1"] s1(3) by (simp add: sn_consts)
  have f: "finishRegLoop s1 = Some (rc = 0, if rc = 0 then set_topic_id topicid s1 else s1)"
    using d t(3) assms(4) by (auto simp: finishRegLoop_def client_ctrl_def v_def SUCCESS_def uint_0_iff)
  obtain l objs where "nbiotLoop (LoopClient (sn_loops P N A)) s = Some (if rc = 0 then LC_Idle else LC_Fail,
      (if rc = 0 then set_topic_id topicid s1 else s1)\<lparr>ls_loop := l, ls_objs := objs\<rparr>)" "nl_loopClient l = None"
    using loop_finishes [OF assms(1) s1(2), where f = "doRegLoop P N" and g = finishRegLoop
        and H = "sn_loops P N A"] s1(1) f by (auto simp: set_topic_id_def)
  then show ?thesis using t(8) by (auto simp: set_topic_id_def)
qed

lemma regack_completes_register_witness:
  "\<exists>s'. nbiotLoop (LoopClient (sn_loops traffic_platform no_handlers no_loop))
      (sn_running LI_Register (ack_wire (msg_code REGACK) (9, 1, 0))) = Some (LC_Idle, s')
    \<and> tp_data (sn_topicName s') = UId 9 \<and> nl_loopClient (ls_loop s') = None"
  using regack_completes_register [where s = "sn_running LI_Register (ack_wire (msg_code REGACK) (9, 1, 0))"
      and P = traffic_platform and st = tr_in and rc = 0 and topicid = 9 and msgid = 1 and rest = "[]"
      and N = no_handlers and A = no_loop]
  by (auto simp: to_int_def traffic_stream)

subsection \<open>Retransmission\<close>

text \<open>Without handlers of the application, a cycle leaves the loop clients alone.\<close>

lemma keepalive_transport:
  assumes "keepalive P s = Some (rc, s')"
  shows "transport s s'"
proof (cases "sn_duration s = 0")
  case False
  obtain e1 s1 where e1: "sn_expired P (sn_last_sent s) s = (e1, s1)" by force
  obtain e2 s2 where e2: "(if e1 then (True, s1) else sn_expired P (sn_last_received s1) s1) = (e2, s2)" by force
  obtain timer s3 where t: "sn_Timer P 1000 s2 = (timer, s3)" by force
  have t2: "transport s s2" and t3: "transport s s3"
    using transport_timers(3) [OF e1] transport_timers(3) [of P "sn_last_received s1" s1 e2 s2] e2
      transport_timers(4) [of P 1000 tm_new s2 timer s3] t transport_trans unfolding sn_Timer_def
    by (metis prod.inject)+
  show ?thesis
  proof (cases "e2 \<and> \<not> sn_ping_outstanding s2")
    case True
    then obtain len buf where k: "(if 0 < len
        then Option.bind (sendPacket P len timer (s3\<lparr>sn_sendbuf := buf\<rparr>)) (\<lambda>(rc, _, s).
          Some (rc, if rc = SUCCESS then s\<lparr>sn_ping_outstanding := True\<rparr> else s))
        else Some (FAILURE, s3\<lparr>sn_sendbuf := buf\<rparr>)) = Some (rc, s')"
      using assms False e1 e2 t by (auto simp: keepalive_def Let_def split: bind_splits)
    have t4: "transport s (s3\<lparr>sn_sendbuf := buf\<rparr>)" using transport_trans [OF t3] by simp
    show ?thesis
    proof (cases "0 < len")
      case True
      then obtain rc' timer' s4 where s4: "sendPacket P len timer (s3\<lparr>sn_sendbuf := buf\<rparr>) = Some (rc', timer', s4)"
        and s': "s' = (if rc = SUCCESS then s4\<lparr>sn_ping_outstanding := True\<rparr> else s4)"
        using k by (auto split: bind_splits)
      have "transport s s4" using sendPacket_transport [OF s4] t4 transport_trans by blast
      then show ?thesis using s' transport_trans [OF _ transport_updates(6)] by auto
    qed (use k t4 in auto)
  qed (use assms False e1 e2 t2 in \<open>auto simp: keepalive_def\<close>)
qed (use assms in \<open>simp add: keepalive_def\<close>)

lemma sendPacket_objs: "sendPacket P len timer s = Some (rc, t, s') \<Longrightarrow> ls_objs s' = ls_objs s"
  using sendPacket_transport transport_fields(2) by blast

lemma cycle_switch_objs:
  assumes "cycle_switch P no_handlers t timer s = Some (ka, rc, s')"
  shows "ls_objs s' = ls_objs s"
  using assms
  by (auto simp: cycle_switch_def cycle_puback_def cycle_register_def cycle_disconnect_def cycle_publish_def
      cycle_pingresp_def no_handlers_def notifyPublish_def notifyRegister_def notifyDisconnect_def
      notifyPingResponse_def deliverMessage_def Let_def split: if_splits bind_splits dest!: sendPacket_objs)

lemma cycle_objs:
  assumes "cycle P no_handlers timer s = Some (rc, s')"
  shows "ls_objs s' = ls_objs s"
proof -
  obtain r s1 ka b s2 where r: "readPacket P timer s = Some (r, s1)"
    and c: "cycle_switch P no_handlers (word_of_int r) timer s1 = Some (ka, b, s2)"
    and k: "s' = s2 \<or> (\<exists>x. keepalive P s2 = Some (x, s'))"
    using assms by (auto simp: cycle_def Let_def split: bind_splits if_splits)
  show ?thesis
    using transport_fields(2) [OF received_transport(1) [OF readPacket_received [OF r]]] cycle_switch_objs [OF c]
      k keepalive_transport transport_fields(2) by metis
qed

lemma loop_cycle_ctrl:
  assumes "loop_cycle P no_handlers c t s = Some (b, s')"
  shows "lc_ctrl (ls_objs s' c) = to_int (fst (client_remaining P c s))"
proof -
  obtain r s1 where r: "client_remaining P c s = (r, s1)" by force
  let ?s = "lc_setValue c (to_int r) s1"
  obtain i where w: "loopWait P no_handlers (uint t) i ?s = Some (b, s')"
    using assms r by (auto simp: loop_cycle_def Let_def)
  obtain timer s2 where tm: "sn_Timer P (to_ulong i) ?s = (timer, s2)" by force
  have "ls_objs s2 = ls_objs ?s"
    using transport_fields(2) [OF transport_timers(4)] tm unfolding sn_Timer_def by blast
  moreover have "s' = ?s \<or> (\<exists>rc. cycle P no_handlers timer s2 = Some (rc, s'))"
    using w tm by (auto simp: loopWait_def split: if_splits bind_splits)
  ultimately have "ls_objs s' = ls_objs ?s" using cycle_objs by metis
  then show ?thesis using r by (simp add: lc_setValue_def)
qed

text \<open>A message of quality of service 1 that waits in the client, and the packet that carries it.\<close>

definition publish_pending :: "vtopic \<Rightarrow> byte list \<Rightarrow> ('w, 'm) sn \<Rightarrow> bool" where
  "publish_pending v payload s \<longleftrightarrow> sn_qos s = QOS1 \<and> sn_topicName s = to_topicid v \<and> sn_payload s = Some payload
     \<and> sn_payloadlen s = int (length payload) \<and> (\<forall>n. v \<noteq> VLong n) \<and> length payload \<le> 193
     \<and> length (sn_sendbuf s) = 200 \<and> length (sn_pubbuf s) = 200"

definition publish_packet :: "vtopic \<Rightarrow> byte list \<Rightarrow> bool \<Rightarrow> bool \<Rightarrow> u16 \<Rightarrow> byte list" where
  "publish_packet v payload dup retained i = publish_wire \<lparr>pm_dup = dup, pm_qos = 1, pm_retained = retained,
     pm_packetid = i, pm_topic = v, pm_payload = payload\<rparr>"

lemma sendPubPacket_sends:
  assumes "publish_pending v payload s"
  shows "\<exists>ok s'. sendPubPacket P i 1 timeout s = Some (ok, s') \<and> sn_inflightMsgid s' = word_of_int i
    \<and> take (nat (sn_inflightLen s')) (sn_pubbuf s') = publish_packet v payload True (sn_retained s) (word_of_int i)"
proof -
  let ?m = "\<lparr>pm_dup = True, pm_qos = 1, pm_retained = sn_retained s, pm_packetid = word_of_int i,
    pm_topic = v, pm_payload = payload\<rparr>"
  let ?w = "publish_wire ?m"
  have ok: "publish_ok ?m"
    using assms by (cases v) (auto simp: publish_pending_def publish_ok_def publish_size_def)
  have len: "length ?w = length payload + 7"
    using length_publish_wire [of ?m] assms by (cases v) (auto simp: publish_pending_def publish_size_def)
  define buf where "buf = ?w @ drop (length ?w) (sn_sendbuf s)"
  have l: "length ?w \<le> 200" using len assms by (simp add: publish_pending_def)
  have ser: "MQTTSNSerialize_publish (sn_sendbuf s) MAX_PACKET_SIZE 1 (sn_qos s) (if sn_retained s then 1 else 0)
      (word_of_int i) (sn_topicName s) (sn_payload s) (sn_payloadlen s) = Some (int (length ?w), buf)"
    using publish.ser_fits [OF ok, of MAX_PACKET_SIZE "sn_sendbuf s"] l assms
    unfolding publish_send_def buf_def by (simp add: publish_pending_def sn_consts bit_byte_def)
  have lb: "length buf = 200" using l assms by (simp add: buf_def publish_pending_def)
  define pbuf where "pbuf = ?w @ drop (length ?w) (sn_pubbuf s)"
  have pb: "memcpy (sn_pubbuf s) 0 buf (length ?w) = Some pbuf"
    using l assms lb by (simp add: memcpy_def pbuf_def publish_pending_def buf_def)
  define s1 where "s1 = s\<lparr>sn_sendbuf := buf, sn_pubbuf := pbuf, sn_inflightLen := int (length ?w),
    sn_inflightMsgid := word_of_int i, sn_inflightQoS := sn_qos s\<rparr>"
  obtain timer s2 where t: "sn_Timer P timeout s1 = (timer, s2)" by force
  have t2: "transport s1 s2" using transport_timers(4) t unfolding sn_Timer_def by blast
  have "sn_sendbuf s2 = buf"
    using t sn_timer_snd(4) [of P timeout tm_new s1] sn_clock_fields(1) [of P s1] unfolding sn_Timer_def
    by (simp add: s1_def)
  then have "0 < int (length ?w)" "int (length ?w) \<le> MAX_PACKET_SIZE" "nat (int (length ?w)) \<le> length (sn_sendbuf s2)"
    using l lb len by (simp_all only: nat_int) (simp_all add: sn_consts)
  then obtain rc timer' s3 where s3: "sendPacket P (int (length ?w)) timer s2 = Some (rc, timer', s3)"
    using sendPacket_total by blast
  have t3: "transport s1 s3" using t2 sendPacket_transport [OF s3] transport_trans by blast
  have w0: "0 < length ?w" using len by simp
  have "sn_inflightMsgid s3 = word_of_int i" "sn_inflightLen s3 = int (length ?w)" "sn_pubbuf s3 = pbuf"
    by (subst t3 [unfolded transport_def]; simp add: s1_def)+
  moreover have "sendPubPacket P i 1 timeout s = Some (SUCCESS = rc, s3)"
    using ser w0 pb t s3 by (simp add: sendPubPacket_def flip: s1_def)
  ultimately show ?thesis by (simp add: pbuf_def publish_packet_def)
qed

lemma publish_pending_transport:
  assumes "publish_pending v payload s" and "received s s1"
  shows "publish_pending v payload s1 \<and> sn_retained s1 = sn_retained s"
proof -
  obtain w b t where "s1 = s\<lparr>ls_env := w, sn_readbuf := b, sn_last_received := t\<rparr>"
    using assms(2) unfolding received_def by blast
  then show ?thesis using assms(1) by (simp add: publish_pending_def)
qed


lemma silent_read:
  assumes "ls_env s = traffic_of []" and "tm_remaining (nt_new\<lparr>nt_timestamp := 5\<rparr>) timer \<le> 0xffff"
  shows "readPacket traffic_platform timer s = Some (FAILURE, s)"
proof -
  have c: "sn_remaining traffic_platform timer s = (tm_remaining (nt_new\<lparr>nt_timestamp := 5\<rparr>) timer, s)"
    "sn_left_ms traffic_platform timer s = (tm_left_ms (nt_new\<lparr>nt_timestamp := 5\<rparr>) timer, s)"
    using assms(1) by (simp_all add: sn_timer_defs sn_clock_def traffic_platform_def traffic_of_def)
  have "read_into traffic_platform 0 1 t s = Some (- 1, s)" for t
    using assms(1) by (simp add: read_into_def traffic_platform_def traffic_of_def)
  then show ?thesis
    using c assms(2) unfolding readPacket_def read_firstByte_def read_left_def by (subst read_first.simps) simp
qed


end
