(* ===== verification/Stm.thy ===== *)
theory Stm
  imports UtilList Clock
begin

text \<open>
  The state machine framework \<open>external/src/StateMachine\<close>: states, transitions, choices, and the
  dispatcher of events (\<open>state.cpp\<close>, \<open>transition.cpp\<close>, \<open>choice.cpp\<close>, \<open>eventdispatcher.cpp\<close>,
  \<open>abstractstatemachine.cpp\<close>, \<open>stmevent.cpp\<close>).

  A machine is a graph of nodes: its objects are the elements of three types, and their members are
  functions on these types. An action is a member function of the derived machine, so it works on the
  state \<open>'x\<close> of the whole program. The framework sees the members of AbstractStateMachine and
  EventDispatcher in this state through a \<open>stm_view\<close>, as the code does through a pointer to the base
  class. \<open>None\<close> is an action that does not return, or a chain of nodes without an end.
\<close>

subsection \<open>Events\<close>

datatype EventState = Pending | Accepted | Ignored | Aborted | Handled

record StmEvent =
  ev_type :: int
  ev_state :: EventState
  ev_id :: int

definition EvInvalid :: int where "EvInvalid = 0"
definition EvTimer :: int where "EvTimer = 1"
definition CustomMin :: int where "CustomMin = 256"
definition CustomMax :: int where "CustomMax = 0x7fffffff"

lemmas event_codes = EvInvalid_def EvTimer_def CustomMin_def CustomMax_def

definition StmEvent_new :: "int \<Rightarrow> StmEvent" where
  "StmEvent_new t = \<lparr>ev_type = t, ev_state = Pending, ev_id = - 1\<rparr>"

definition setCustomEventType :: "int \<Rightarrow> StmEvent \<Rightarrow> StmEvent" where
  "setCustomEventType t ev = (if CustomMin \<le> t \<and> t \<le> CustomMax then ev\<lparr>ev_type := t\<rparr> else ev)"

definition setEventState :: "EventState \<Rightarrow> StmEvent \<Rightarrow> StmEvent" where
  "setEventState st ev = ev\<lparr>ev_state := st\<rparr>"

subsection \<open>The machine\<close>

datatype ('t, 'c, 's) stm_node = NTransition 't | NGuard 'c | NState 's | NStateMachine

type_synonym 'x stm_action = "StmEvent \<Rightarrow> 'x \<Rightarrow> (bool \<times> 'x) option"

record ('t, 'c, 's, 'x) stm_graph =
  gr_target :: "'t \<Rightarrow> ('t, 'c, 's) stm_node option"
  gr_trAction :: "'t \<Rightarrow> 'x stm_action option"
  gr_eventType :: "'t \<Rightarrow> int"
  gr_condition :: "'c \<Rightarrow> 'x stm_action option"
  gr_target0 :: "'c \<Rightarrow> 't option"
  gr_target1 :: "'c \<Rightarrow> 't option"
  gr_parent :: "'s \<Rightarrow> ('t, 'c, 's) stm_node option"
  gr_transitions :: "'s \<Rightarrow> 't list"
  gr_entryAction :: "'s \<Rightarrow> 'x stm_action option"

record 's astm =
  as_currentState :: "'s option"
  as_initialState :: "'s option"
  as_stateTimeout :: "ntimer option"

record evdisp =
  ed_events :: "StmEvent useq"
  ed_pendingEvents :: "StmEvent useq"
  ed_eventId :: int

record ('s, 'x) stm_view =
  vw_stm :: "'x \<Rightarrow> 's astm"
  vw_on_stm :: "('s astm \<Rightarrow> 's astm) \<Rightarrow> 'x \<Rightarrow> 'x"
  vw_disp :: "'x \<Rightarrow> evdisp"
  vw_on_disp :: "(evdisp \<Rightarrow> evdisp) \<Rightarrow> 'x \<Rightarrow> 'x"
  vw_clock :: "'x \<Rightarrow> ntime \<times> 'x"

definition astm_new :: "ntimer option \<Rightarrow> 's astm" where
  "astm_new t = \<lparr>as_currentState = None, as_initialState = None, as_stateTimeout = t\<rparr>"

definition evdisp_new :: evdisp where
  "evdisp_new =
     (let q = \<lparr>sq_items = [], sq_invalid = StmEvent_new EvInvalid\<rparr>
      in \<lparr>ed_events = q, ed_pendingEvents = q, ed_eventId = 0\<rparr>)"

definition setCurrentState :: "'s option \<Rightarrow> 's astm \<Rightarrow> 's astm" where
  "setCurrentState s m = m\<lparr>as_currentState := s\<rparr>"

definition setInitialState :: "'s option \<Rightarrow> 's astm \<Rightarrow> 's astm" where
  "setInitialState s m = m\<lparr>as_initialState := s\<rparr>"

subsection \<open>Nodes\<close>

text \<open>\<open>State::getRoot\<close>: whether the parents of a state lead to the machine.\<close>

partial_function (option) getRoot :: "('t, 'c, 's, 'x) stm_graph \<Rightarrow> 's \<Rightarrow> bool option" where
  "getRoot G s =
     (case gr_parent G s of
        Some NStateMachine \<Rightarrow> Some True
      | Some (NState p) \<Rightarrow> getRoot G p
      | _ \<Rightarrow> Some False)"

text \<open>The members \<open>action\<close> of the three classes: nothing happens if there is none.\<close>

definition run_action :: "'x stm_action option \<Rightarrow> StmEvent \<Rightarrow> 'x \<Rightarrow> (bool \<times> 'x) option" where
  "run_action a e x = (case a of Some f \<Rightarrow> f e x | None \<Rightarrow> Some (False, x))"

text \<open>\<open>State::enter\<close>\<close>

definition State_enter ::
  "('s, 'x) stm_view \<Rightarrow> ('t, 'c, 's, 'x) stm_graph \<Rightarrow> 's \<Rightarrow> StmEvent \<Rightarrow> 'x \<Rightarrow> (StmEvent \<times> 'x) option" where
  "State_enter V G s e x = do {
     root \<leftarrow> getRoot G s;
     if root
     then do {
       let x = vw_on_stm V (setCurrentState (Some s)) x;
       let x = (case as_stateTimeout (vw_stm V x) of
                  Some t \<Rightarrow> if tm_valid t
                    then vw_on_stm V (\<lambda>m. m\<lparr>as_stateTimeout := Some (tm_clear t)\<rparr>) x else x
                | None \<Rightarrow> x);
       (_, x) \<leftarrow> run_action (gr_entryAction G s) e x;
       Some (setEventState Handled e, x)
     }
     else Some (setEventState Aborted e, x)
   }"

text \<open>
  \<open>Transition::trigger\<close> and \<open>Choice::execute\<close> call each other and \<open>State::enter\<close>; here they are one
  function on the node that is called.
\<close>

partial_function (option) run_node ::
  "('s, 'x) stm_view \<Rightarrow> ('t, 'c, 's, 'x) stm_graph \<Rightarrow> ('t, 'c, 's) stm_node \<Rightarrow> StmEvent \<Rightarrow> 'x \<Rightarrow> (StmEvent \<times> 'x) option" where
  "run_node V G n e x =
     (case n of
        NTransition t \<Rightarrow>
          Option.bind (run_action (gr_trAction G t) e x) (\<lambda>(_, x).
            case gr_target G t of
              Some n \<Rightarrow> run_node V G n e x
            | None \<Rightarrow> Some (setEventState Aborted e, x))
      | NGuard c \<Rightarrow>
          (case gr_condition G c of
             Some f \<Rightarrow> Option.bind (f e x) (\<lambda>(b, x).
               case (if b then gr_target0 G c else gr_target1 G c) of
                 Some t \<Rightarrow> run_node V G (NTransition t) e x
               | None \<Rightarrow> Some (setEventState Aborted e, x))
           | None \<Rightarrow> Some (setEventState Aborted e, x))
      | NState s \<Rightarrow> State_enter V G s e x
      | NStateMachine \<Rightarrow> Some (setEventState Aborted e, x))"

definition Transition_trigger ::
  "('s, 'x) stm_view \<Rightarrow> ('t, 'c, 's, 'x) stm_graph \<Rightarrow> 't \<Rightarrow> StmEvent \<Rightarrow> 'x \<Rightarrow> (StmEvent \<times> 'x) option" where
  "Transition_trigger V G t e x = run_node V G (NTransition t) e x"

definition Choice_execute ::
  "('s, 'x) stm_view \<Rightarrow> ('t, 'c, 's, 'x) stm_graph \<Rightarrow> 'c \<Rightarrow> StmEvent \<Rightarrow> 'x \<Rightarrow> (StmEvent \<times> 'x) option" where
  "Choice_execute V G c e x = run_node V G (NGuard c) e x"

text \<open>\<open>State::handleEvent\<close>: the first transition for the type of the event is triggered.\<close>

definition State_handleEvent ::
  "('s, 'x) stm_view \<Rightarrow> ('t, 'c, 's, 'x) stm_graph \<Rightarrow> 's \<Rightarrow> StmEvent \<Rightarrow> 'x \<Rightarrow> (bool \<times> StmEvent \<times> 'x) option" where
  "State_handleEvent V G s ev x =
     (case List.find (\<lambda>t. gr_eventType G t = ev_type ev) (gr_transitions G s) of
        Some t \<Rightarrow> map_option (Pair True) (Transition_trigger V G t (setEventState Accepted ev) x)
      | None \<Rightarrow> Some (False, setEventState Ignored ev, x))"

definition Stm_handleEvent ::
  "('s, 'x) stm_view \<Rightarrow> ('t, 'c, 's, 'x) stm_graph \<Rightarrow> StmEvent \<Rightarrow> 'x \<Rightarrow> (bool \<times> StmEvent \<times> 'x) option" where
  "Stm_handleEvent V G ev x =
     (case as_currentState (vw_stm V x) of
        Some s \<Rightarrow> State_handleEvent V G s ev x
      | None \<Rightarrow> Some (False, setEventState Ignored ev, x))"

subsection \<open>The dispatcher\<close>

definition pushEvent :: "StmEvent \<Rightarrow> evdisp \<Rightarrow> evdisp" where
  "pushEvent e d = d\<lparr>ed_events := sq_append e (ed_events d)\<rparr>"

definition postPendingEvent :: "StmEvent \<Rightarrow> evdisp \<Rightarrow> evdisp" where
  "postPendingEvent e d = d\<lparr>ed_pendingEvents := sq_append e (ed_pendingEvents d)\<rparr>"

definition startStateTimer :: "('s, 'x) stm_view \<Rightarrow> int \<Rightarrow> ntimer \<Rightarrow> 'x \<Rightarrow> 'x" where
  "startStateTimer V ms t x =
     (let (clk, x) = vw_clock V x in vw_on_stm V (\<lambda>m. m\<lparr>as_stateTimeout := Some (tm_start_for clk ms t)\<rparr>) x)"

definition setTimeout :: "('s, 'x) stm_view \<Rightarrow> int \<Rightarrow> 'x \<Rightarrow> 'x" where
  "setTimeout V ms x =
     (case as_stateTimeout (vw_stm V x) of Some t \<Rightarrow> startStateTimer V ms t x | None \<Rightarrow> x)"

definition checkTimeout :: "('s, 'x) stm_view \<Rightarrow> 'x \<Rightarrow> 'x" where
  "checkTimeout V x =
     (case as_stateTimeout (vw_stm V x) of
        Some t \<Rightarrow>
          if tm_valid t
          then let (clk, x) = vw_clock V x
               in if tm_remaining clk t = 0
                  then let x = vw_on_disp V (pushEvent (StmEvent_new EvTimer)) x;
                           (clk, x) = vw_clock V x
                       in startStateTimer V (tm_expired clk t) t x
                  else x
          else x
      | None \<Rightarrow> x)"

text \<open>The next event of the queue, with its id.\<close>

definition takeEvent :: "evdisp \<Rightarrow> StmEvent \<times> evdisp" where
  "takeEvent d =
     (let (ev, q) = sq_take_front (ed_events d);
          d = d\<lparr>ed_events := q\<rparr>;
          ev = setEventState Pending ev
      in if ev_id ev = - 1
         then let i = to_int (ed_eventId d + 1); i = (if i \<le> 0 then 1 else i)
              in (ev\<lparr>ev_id := i\<rparr>, d\<lparr>ed_eventId := i\<rparr>)
         else (ev, d))"

partial_function (option) handle_events ::
  "('s, 'x) stm_view \<Rightarrow> ('t, 'c, 's, 'x) stm_graph \<Rightarrow> 'x \<Rightarrow> 'x option" where
  "handle_events V G x =
     (if 0 < sq_count (ed_events (vw_disp V x))
      then let (ev, d) = takeEvent (vw_disp V x)
           in Option.bind (Stm_handleEvent V G ev (vw_on_disp V (\<lambda>_. d) x)) (\<lambda>(_, _, x). handle_events V G x)
      else Some x)"

definition movePending :: "evdisp \<Rightarrow> evdisp" where
  "movePending d = d\<lparr>ed_events := (ed_events d)\<lparr>sq_items := sq_items (ed_events d) @ sq_items (ed_pendingEvents d)\<rparr>,
     ed_pendingEvents := sq_clear (ed_pendingEvents d)\<rparr>"

definition dispatch :: "('s, 'x) stm_view \<Rightarrow> ('t, 'c, 's, 'x) stm_graph \<Rightarrow> 'x \<Rightarrow> 'x option" where
  "dispatch V G x = map_option (vw_on_disp V movePending) (handle_events V G (checkTimeout V x))"

subsection \<open>Nodes: equations\<close>

lemma run_node_transition:
  "run_node V G (NTransition t) e x =
     Option.bind (run_action (gr_trAction G t) e x) (\<lambda>(_, x).
       case gr_target G t of Some n \<Rightarrow> run_node V G n e x | None \<Rightarrow> Some (setEventState Aborted e, x))"
  by (subst run_node.simps) simp

lemma run_node_guard:
  "run_node V G (NGuard c) e x =
     (case gr_condition G c of
        Some f \<Rightarrow> Option.bind (f e x) (\<lambda>(b, x).
          case (if b then gr_target0 G c else gr_target1 G c) of
            Some t \<Rightarrow> run_node V G (NTransition t) e x
          | None \<Rightarrow> Some (setEventState Aborted e, x))
      | None \<Rightarrow> Some (setEventState Aborted e, x))"
  by (subst run_node.simps) simp

lemma run_node_state: "run_node V G (NState s) e x = State_enter V G s e x"
  by (subst run_node.simps) simp

lemmas run_node_eqs = run_node_transition run_node_guard run_node_state

lemma getRoot_top: "gr_parent G s = Some NStateMachine \<Longrightarrow> getRoot G s = Some True"
  by (subst getRoot.simps) simp

subsection \<open>What a machine may rely on in its view\<close>

text \<open>The members that a view shows are independent of each other, and reading the clock changes none.\<close>

locale stm_host =
  fixes V :: "('s, 'x) stm_view"
  assumes stm_upd: "vw_stm V (vw_on_stm V f x) = f (vw_stm V x)"
    and disp_upd: "vw_disp V (vw_on_disp V g x) = g (vw_disp V x)"
    and stm_disp: "vw_stm V (vw_on_disp V g x) = vw_stm V x"
    and disp_stm: "vw_disp V (vw_on_stm V f x) = vw_disp V x"
    and clock: "vw_clock V x = (clk, y) \<Longrightarrow> vw_stm V y = vw_stm V x \<and> vw_disp V y = vw_disp V x"
begin

lemmas laws = stm_upd disp_upd stm_disp disp_stm

lemma startStateTimer_sees:
  "vw_disp V (startStateTimer V ms t x) = vw_disp V x"
  "as_currentState (vw_stm V (startStateTimer V ms t x)) = as_currentState (vw_stm V x)"
  using clock [of x] by (auto simp: startStateTimer_def laws split: prod.splits)

lemma checkTimeout_sees:
  "as_currentState (vw_stm V (checkTimeout V x)) = as_currentState (vw_stm V x)
   \<and> ed_pendingEvents (vw_disp V (checkTimeout V x)) = ed_pendingEvents (vw_disp V x)
   \<and> (sq_items (ed_events (vw_disp V (checkTimeout V x))) = sq_items (ed_events (vw_disp V x))
     \<or> sq_items (ed_events (vw_disp V (checkTimeout V x)))
         = sq_items (ed_events (vw_disp V x)) @ [StmEvent_new EvTimer])"
proof (cases "as_stateTimeout (vw_stm V x)")
  case (Some t)
  obtain clk y where c: "vw_clock V x = (clk, y)" by force
  let ?z = "vw_on_disp V (pushEvent (StmEvent_new EvTimer)) y"
  obtain clk' y' where c': "vw_clock V ?z = (clk', y')" by force
  show ?thesis
    using Some c c' clock [OF c] clock [OF c']
    by (auto simp: checkTimeout_def startStateTimer_sees laws pushEvent_def sq_append_def)
qed (simp add: checkTimeout_def)

end

lemma takeEvent_takes:
  assumes "sq_items (ed_events d) = e # es" and "takeEvent d = (ev, d')"
  shows "ev_type ev = ev_type e" and "sq_items (ed_events d') = es" and "ed_pendingEvents d' = ed_pendingEvents d"
    and "ev_state ev = Pending" and "ev_id e = - 1 \<Longrightarrow> 0 < ev_id ev"
  using assms
  by (auto simp: takeEvent_def sq_take_front_def setEventState_def Let_def split: if_splits)

subsection \<open>Dispatching ends\<close>

text \<open>\<open>moves M s ts s'\<close>: the events of the types \<open>ts\<close>, one after the other, lead from \<open>s\<close> to \<open>s'\<close>.\<close>

inductive moves :: "('s \<Rightarrow> int \<Rightarrow> 's \<Rightarrow> bool) \<Rightarrow> 's \<Rightarrow> int list \<Rightarrow> 's \<Rightarrow> bool" for M where
  none: "moves M s [] s"
| more: "M s t s' \<Longrightarrow> moves M s' ts s'' \<Longrightarrow> moves M s (t # ts) s''"

inductive_simps moves_simps [simp]: "moves M s [] s'" "moves M s (t # ts) s'"

text \<open>
  A machine with an invariant that survives the handling of the next event, where handling puts no
  event into the queue that is being dispatched and moves as \<open>M\<close> says: the dispatcher returns with
  an empty queue, and has moved as \<open>M\<close> says for the events of the queue in their order.
\<close>

locale stm_running = stm_host V for V :: "('s, 'x) stm_view" +
  fixes G :: "('t, 'c, 's, 'x) stm_graph" and I :: "'x \<Rightarrow> bool" and M :: "'s \<Rightarrow> int \<Rightarrow> 's \<Rightarrow> bool"
  assumes started: "I x \<Longrightarrow> \<exists>s. as_currentState (vw_stm V x) = Some s"
    and handles: "I x \<Longrightarrow> as_currentState (vw_stm V x) = Some s \<Longrightarrow> sq_items (ed_events (vw_disp V x)) = e # es
      \<Longrightarrow> takeEvent (vw_disp V x) = (ev, d)
      \<Longrightarrow> \<exists>b ev' x' s'. Stm_handleEvent V G ev (vw_on_disp V (\<lambda>_. d) x) = Some (b, ev', x') \<and> I x'
        \<and> sq_items (ed_events (vw_disp V x')) = es
        \<and> as_currentState (vw_stm V x') = Some s' \<and> M s (ev_type ev) s'"
begin

lemma handle_events_returns:
  assumes "I x" and "as_currentState (vw_stm V x) = Some s"
  shows "\<exists>x' s'. handle_events V G x = Some x' \<and> I x' \<and> sq_items (ed_events (vw_disp V x')) = []
    \<and> as_currentState (vw_stm V x') = Some s' \<and> moves M s (map ev_type (sq_items (ed_events (vw_disp V x)))) s'"
  using assms
proof (induction "sq_items (ed_events (vw_disp V x))" arbitrary: x s)
  case Nil
  then show ?case by (subst handle_events.simps) (simp add: sq_count_def flip: Nil.hyps)
next
  case (Cons e es)
  obtain ev d where t: "takeEvent (vw_disp V x) = (ev, d)" by force
  note q = Cons.hyps(2) [symmetric]
  from handles [OF Cons.prems q t] obtain b ev' x' s' where
    h: "Stm_handleEvent V G ev (vw_on_disp V (\<lambda>_. d) x) = Some (b, ev', x')" and i: "I x'"
    and es: "sq_items (ed_events (vw_disp V x')) = es" and s': "as_currentState (vw_stm V x') = Some s'"
    and m: "M s (ev_type ev) s'" by blast
  have m: "M s (ev_type e) s'" using m takeEvent_takes(1) [OF q t] by simp
  from Cons.hyps(1) [OF es [symmetric] i s'] obtain z u where z: "handle_events V G x' = Some z" "I z"
    "sq_items (ed_events (vw_disp V z)) = []" "as_currentState (vw_stm V z) = Some u" "moves M s' (map ev_type es) u"
    using es by blast
  have "handle_events V G x = Some z"
    using q t h z(1) by (subst handle_events.simps) (simp add: sq_count_def)
  then show ?case using z m q by auto
qed

lemma dispatch_returns:
  assumes "I (checkTimeout V x)" and "as_currentState (vw_stm V x) = Some s"
  shows "\<exists>x' s'. dispatch V G x = Some (vw_on_disp V movePending x') \<and> I x' \<and> sq_items (ed_events (vw_disp V x')) = []
    \<and> as_currentState (vw_stm V x') = Some s'
    \<and> moves M s (map ev_type (sq_items (ed_events (vw_disp V (checkTimeout V x))))) s'"
  using handle_events_returns [OF assms(1)] checkTimeout_sees [of x] assms(2) by (auto simp: dispatch_def)

end

end
