(* ===== verification/NbiotStm.thy ===== *)
theory NbiotStm
  imports Stm SnAnswers
begin

text \<open>
  The connection state machine \<open>libNbiot/src/nbiotstm.cpp\<close> with its data pool
  (\<open>nbiotstmdatapool.h\<close>), on the framework of the theory Stm. The state extends the state of the
  MQTT-SN client; \<open>m_topicid\<close> of the data pool is the object that the client refers to as
  \<open>m_topicName\<close>. The modem and the network are the functions of \<open>devices\<close> on the environment. A call
  of the notification handler of the application is a value appended to \<open>nb_notified\<close>.
\<close>

subsection \<open>Types\<close>

datatype ErrorNumber = ErrSuccess | InitializeError | GprsNotConnected | IpNotConnected | ConnectionError
  | NotStartedError | MaxTopicsExceeded | LoopCtrlBusyError | InvalidTopicID

datatype StateIds = InvalidState | InitialState | DisconnectedState | ErrorState | ConnectedState
  | ConnectedSleepState | DeepSleepState | DisconnectedSleepState | ConnectedAwakeState
  | WaitForAttachState | WaitForConnectState

datatype NbiotAction = AcInitialize | AcReInitialize | AcConnect | AcRegisterTopic | AcPublish | AcSubscribe
  | AcUnsubscribe | AcRemoveTopic | AcDisconnect | AcSleep | AcHibernate | AcWakeup

record Notification =
  no_state :: StateIds
  no_action :: NbiotAction
  no_returnCode :: int
  no_errorNumber :: ErrorNumber

definition RC_REJECTED_NOT_SUPPORTED :: int where "RC_REJECTED_NOT_SUPPORTED = 3"

text \<open>The event types start at \<open>StmEvent::CustomMin\<close>.\<close>

definition InitializeEvent :: int where "InitializeEvent = CustomMin"
definition ConnectEvent :: int where "ConnectEvent = CustomMin + 1"
definition SleepEvent :: int where "SleepEvent = CustomMin + 2"
definition WakeupEvent :: int where "WakeupEvent = CustomMin + 3"
definition ConnectedAwakeEvent :: int where "ConnectedAwakeEvent = CustomMin + 4"
definition AwakeSleepEvent :: int where "AwakeSleepEvent = CustomMin + 5"
definition AwakeActiveEvent :: int where "AwakeActiveEvent = CustomMin + 6"
definition HibernateEvent :: int where "HibernateEvent = CustomMin + 7"
definition ReInitializeEvent :: int where "ReInitializeEvent = CustomMin + 8"
definition DisconnectEvent :: int where "DisconnectEvent = CustomMin + 9"
definition ErrorDisconnectEvent :: int where "ErrorDisconnectEvent = CustomMin + 10"
definition CheckAttachmentEvent :: int where "CheckAttachmentEvent = CustomMin + 11"
definition CheckConnectedEvent :: int where "CheckConnectedEvent = CustomMin + 12"
definition ConnectedEvent :: int where "ConnectedEvent = CustomMin + 13"
definition AttachedEvent :: int where "AttachedEvent = CustomMin + 14"

lemmas nb_events = InitializeEvent_def ConnectEvent_def SleepEvent_def WakeupEvent_def ConnectedAwakeEvent_def
  AwakeSleepEvent_def AwakeActiveEvent_def HibernateEvent_def ReInitializeEvent_def DisconnectEvent_def
  ErrorDisconnectEvent_def CheckAttachmentEvent_def CheckConnectedEvent_def ConnectedEvent_def AttachedEvent_def

text \<open>The objects that the constructor makes.\<close>

datatype nb_transition = m_initialize | m_initialTimeout | m_isInitializedDisconnected | m_isInitializedError
  | m_connect | m_isNotAttached | m_isAttachedIpConnect | m_isAttachedError | m_isIpConnectedError
  | m_isConnectedConnected | m_waitConnectIsConnected | m_isConnectedError | m_sleep | m_wakeup | m_sleepAwake
  | m_awakeSleep | m_awakeActive | m_awakeTimeout | m_hibernate | m_reInitialize | m_disconnect
  | m_errorDisconnect | m_errorReInitialize | m_errorTimeout | m_disSleep | m_disWakeup | m_disHibernate

datatype nb_choice = m_isInitialized | m_isAttached | m_isIpConnected

datatype nb_state = m_Initial | m_Disconnected | m_Error | m_Connected | m_ConnectedSleep | m_ConnectedAwake
  | m_DeepSleep | m_DisconnectedSleep | m_WaitForAttach | m_WaitForConnect

type_synonym nb_node = "(nb_transition, nb_choice, nb_state) stm_node"

text \<open>\<open>IModem\<close> and \<open>INetwork\<close>, as far as the state machine calls them.\<close>

record 'w devices =
  dv_platform :: "'w platform"
  nw_connect :: "byte list \<Rightarrow> u16 \<Rightarrow> 'w \<Rightarrow> bool \<times> 'w"
  nw_isConnected :: "'w \<Rightarrow> bool \<times> 'w"
  nw_disconnect :: "'w \<Rightarrow> bool \<times> 'w"
  md_reboot :: "'w \<Rightarrow> bool \<times> 'w"
  md_initialize :: "'w \<Rightarrow> bool \<times> 'w"
  md_getImsi :: "byte list \<Rightarrow> 'w \<Rightarrow> (bool \<times> byte list) \<times> 'w"
  md_isAttached :: "'w \<Rightarrow> bool \<times> 'w"
  md_attach :: "'w \<Rightarrow> bool \<times> 'w"
  md_switchModem :: "bool \<Rightarrow> 'w \<Rightarrow> bool \<times> 'w"

record 'w nstm = "'w snsys" +
  nb_stm :: "nb_state astm"
  nb_disp :: evdisp
  nb_errno :: ErrorNumber
  nb_currentTopic :: topic
  nb_registry :: registry
  nb_initialized :: bool
  nb_hasSubscription :: bool
  nb_authLogin :: "byte list"
  nb_authPasswd :: "byte list"
  nb_authentication :: "byte list"
  nb_gateway :: "byte list"
  nb_mqttPort :: u16
  nb_keepAliveInterval :: int
  nb_autoPollInterval :: int
  nb_eventLoopExecInterval :: int
  nb_eventLoopLock :: bool
  nb_eventLoopTimer :: ntimer
  nb_autoPollTimer :: ntimer
  nb_cleanSession :: byte
  nb_autoReconnect :: bool
  nb_duration :: u16
  nb_modemRestartOnError :: u16
  nb_maxTopics :: u16
  nb_modemAttached :: bool
  nb_waitTimer :: ntimer
  nb_notifyHandler :: bool
  nb_notified :: "Notification list"

type_synonym ('w, 'm) nb = "('w, 'm) nstm_scheme"

definition timeoutOneMinute :: int where "timeoutOneMinute = 60000"
definition attachTimeout :: int where "attachTimeout = 300000"
definition restartModemThreshold :: nat where "restartModemThreshold = 5"
definition stmLoopInterval :: int where "stmLoopInterval = 1000"

text \<open>A call of the modem or the network, a call of the notification handler.\<close>

definition dev_call :: "('w \<Rightarrow> 'a \<times> 'w) \<Rightarrow> ('w, 'm) nb \<Rightarrow> 'a \<times> ('w, 'm) nb" where
  "dev_call f x = (let (r, w) = f (ls_env x) in (r, x\<lparr>ls_env := w\<rparr>))"

definition notify :: "Notification \<Rightarrow> ('w, 'm) nb \<Rightarrow> ('w, 'm) nb" where
  "notify n x = (if nb_notifyHandler x then x\<lparr>nb_notified := nb_notified x @ [n]\<rparr> else x)"

text \<open>The machine as the framework sees it.\<close>

definition nb_view :: "'w devices \<Rightarrow> (nb_state, ('w, 'm) nb) stm_view" where
  "nb_view D = \<lparr>vw_stm = nb_stm, vw_on_stm = nb_stm_update, vw_disp = nb_disp, vw_on_disp = nb_disp_update,
     vw_clock = sn_clock (dv_platform D)\<rparr>"

subsection \<open>Connecting and disconnecting\<close>

definition mqttDisconnect :: "'w devices \<Rightarrow> ('w, 'm) nb \<Rightarrow> ('w, 'm) nb option" where
  "mqttDisconnect D x =
     (if sn_isconnected x then map_option snd (sn_disconnect (dv_platform D) (nb_duration x) x) else Some x)"

definition mqttConnect :: "byte \<Rightarrow> ('w, 'm) nb \<Rightarrow> (bool \<times> ('w, 'm) nb) option" where
  "mqttConnect cleanSession x =
     (if \<not> sn_isconnected x
      then do {
        let data = connectData_initializer
              \<lparr>cd_duration := word_of_int (nb_keepAliveInterval x), cd_cleansession := cleanSession,
               cd_clientID := (cd_clientID connectData_initializer)
                 \<lparr>ms_cstring := Some (nb_authentication x @ [0])\<rparr>\<rparr>;
        (rc, x) \<leftarrow> sn_connect data x;
        Some (rc = 0, x)
      }
      else Some (True, x))"

definition finishDisconnect :: "'w devices \<Rightarrow> ('w, 'm) nb \<Rightarrow> ('w, 'm) nb" where
  "finishDisconnect D x =
     (let (c, x) = dev_call (nw_isConnected D) x;
          x = (if c then snd (dev_call (nw_disconnect D) x) else x)
      in if isBusy (ls_loop x) then on_loop loopBreak x else x)"

definition doDisconnect :: "'w devices \<Rightarrow> ('w, 'm) nb \<Rightarrow> ('w, 'm) nb option" where
  "doDisconnect D x =
     (if sn_isconnected x then map_option snd (sn_disconnect (dv_platform D) (nb_duration x) x)
      else Some (finishDisconnect D x))"

definition stm_postEvent :: "int \<Rightarrow> ('w, 'm) nb \<Rightarrow> ('w, 'm) nb" where
  "stm_postEvent t x = nb_disp_update (postPendingEvent (setCustomEventType t (StmEvent_new EvInvalid))) x"

definition doModemAttach :: "('w, 'm) nb \<Rightarrow> ('w, 'm) nb" where
  "doModemAttach x =
     register_client LI_Cgatt (client_setTime LI_Cgatt attachTimeout (x\<lparr>nb_modemAttached := False\<rparr>))"

subsection \<open>Actions of the transitions and conditions of the choices\<close>

definition actionIsInitializedError :: "('w, 'm) nb stm_action" where
  "actionIsInitializedError e x = Some (False, x\<lparr>nb_errno := InitializeError\<rparr>)"

definition actionConnect :: "('w, 'm) nb stm_action" where
  "actionConnect e x = Some (False, x\<lparr>nb_errno := ErrSuccess\<rparr>)"

definition actionIsNotAttached :: "'w devices \<Rightarrow> ('w, 'm) nb stm_action" where
  "actionIsNotAttached D e x =
     (let (t, x) = sn_start_for (dv_platform D) timeoutOneMinute (nb_waitTimer x) x
      in Some (False, doModemAttach (x\<lparr>nb_waitTimer := t\<rparr>)))"

definition actionIsAttachedIpConnect :: "'w devices \<Rightarrow> ('w, 'm) nb stm_action" where
  "actionIsAttachedIpConnect D e x =
     (let x = x\<lparr>nb_modemRestartOnError := 0, nb_waitTimer := tm_clear (nb_waitTimer x)\<rparr>;
          x = (if nb_gateway x \<noteq> [] then snd (dev_call (nw_connect D (nb_gateway x @ [0]) (nb_mqttPort x)) x) else x)
      in Some (dev_call (nw_isConnected D) x))"

definition actionIsAttachedError :: "('w, 'm) nb stm_action" where
  "actionIsAttachedError e x =
     Some (False, x\<lparr>nb_errno := GprsNotConnected, nb_modemRestartOnError := nb_modemRestartOnError x + 1\<rparr>)"

definition actionIsIpConnectedError :: "('w, 'm) nb stm_action" where
  "actionIsIpConnectedError e x = Some (False, x\<lparr>nb_errno := IpNotConnected\<rparr>)"

definition actionIsConnectedConnected :: "('w, 'm) nb stm_action" where
  "actionIsConnectedConnected e x = Some (True, x)"

definition actionWaitConnectIsConnected :: "('w, 'm) nb stm_action" where
  "actionWaitConnectIsConnected e x = mqttConnect (nb_cleanSession x) x"

definition actionIsConnectedError :: "('w, 'm) nb stm_action" where
  "actionIsConnectedError e x = Some (False, x\<lparr>nb_errno := ConnectionError\<rparr>)"

definition actionSleep :: "'w devices \<Rightarrow> ('w, 'm) nb stm_action" where
  "actionSleep D e x = map_option (Pair False) (if 0 < nb_duration x then mqttDisconnect D x else Some x)"

text \<open>\<open>mqttConnect()\<close> without an argument: no clean session.\<close>

definition actionWakeup :: "('w, 'm) nb stm_action" where
  "actionWakeup e x = (if 0 < nb_duration x then map_option (Pair False \<circ> snd) (mqttConnect 0 x) else Some (False, x))"

definition actionAwakeActive :: "('w, 'm) nb stm_action" where
  "actionAwakeActive e x = map_option (Pair False \<circ> snd) (mqttConnect 0 x)"

definition actionIsInitialized :: "('w, 'm) nb stm_action" where
  "actionIsInitialized e x = Some (nb_initialized x, x)"

definition actionIsAttached :: "'w devices \<Rightarrow> ('w, 'm) nb stm_action" where
  "actionIsAttached D e x = Some (dev_call (md_isAttached D) x)"

definition actionIsIpConnected :: "'w devices \<Rightarrow> ('w, 'm) nb stm_action" where
  "actionIsIpConnected D e x = Some (dev_call (nw_isConnected D) x)"

subsection \<open>Entry actions of the states\<close>

text \<open>The parts of the initial state's action: the login of the SIM card, and the modem.\<close>

definition initialLogin :: "'w devices \<Rightarrow> ('w, 'm) nb \<Rightarrow> bool \<times> ('w, 'm) nb" where
  "initialLogin D x =
     (let x = (if nb_authLogin x = []
               then let (r, x) = dev_call (md_getImsi D (nb_authLogin x)) x in x\<lparr>nb_authLogin := snd r\<rparr> else x)
      in if nb_authLogin x = [] then (False, x)
         else (True, x\<lparr>nb_authentication := nb_authLogin x @ nb_authPasswd x\<rparr>))"

definition initialModem :: "'w devices \<Rightarrow> bool \<Rightarrow> ('w, 'm) nb \<Rightarrow> bool \<times> ('w, 'm) nb" where
  "initialModem D reInitialize x =
     (let (ok, x) = (if \<not> reInitialize then dev_call (md_reboot D) x else (True, x));
          (ok, x) = (if ok then dev_call (md_initialize D) x else (False, x))
      in if ok \<and> \<not> reInitialize then initialLogin D x else (ok, x))"

definition actionInitialEntry :: "'w devices \<Rightarrow> ('w, 'm) nb stm_action" where
  "actionInitialEntry D e x =
     (let reInitialize = (ev_type e = ReInitializeEvent \<or> ev_type e = EvTimer);
          (ok, x) = initialModem D reInitialize x;
          x = (if reInitialize then stm_postEvent InitializeEvent x else x);
          x = x\<lparr>nb_initialized := ok\<rparr>;
          x = notify \<lparr>no_state = InitialState, no_action = (if reInitialize then AcReInitialize else AcInitialize),
                no_returnCode = RC_ACCEPTED, no_errorNumber = (if ok then ErrSuccess else InitializeError)\<rparr> x;
          x = setTimeout (nb_view D) timeoutOneMinute x
      in Some (nb_initialized x, x))"

definition actionDisconnectedEntry :: "'w devices \<Rightarrow> ('w, 'm) nb stm_action" where
  "actionDisconnectedEntry D e x = do {
     x \<leftarrow> doDisconnect D x;
     let x = notify \<lparr>no_state = DisconnectedState, no_action = AcDisconnect, no_returnCode = RC_ACCEPTED,
           no_errorNumber = nb_errno x\<rparr> x;
     Some (True, x\<lparr>nb_errno := ErrSuccess\<rparr>)
   }"

definition actionErrorEntry :: "'w devices \<Rightarrow> ('w, 'm) nb stm_action" where
  "actionErrorEntry D e x =
     (let x = (if nb_initialized x
               then (if restartModemThreshold \<le> unat (nb_modemRestartOnError x)
                     then let x = x\<lparr>nb_modemRestartOnError := 0\<rparr>; (_, x) = dev_call (md_reboot D) x
                          in stm_postEvent ReInitializeEvent x
                     else stm_postEvent ErrorDisconnectEvent x)
               else setTimeout (nb_view D) timeoutOneMinute x);
          x = notify \<lparr>no_state = ErrorState,
                no_action = (if nb_errno x \<in> {GprsNotConnected, IpNotConnected, ConnectionError} then AcConnect else AcInitialize),
                no_returnCode = RC_ACCEPTED, no_errorNumber = nb_errno x\<rparr> x
      in Some (False, x))"

definition actionConnectedEntry :: "('w, 'm) nb stm_action" where
  "actionConnectedEntry e x =
     (let x = x\<lparr>nb_errno := ErrSuccess, nb_waitTimer := tm_clear (nb_waitTimer x)\<rparr>;
          x = (if \<not> nb_hasSubscription x \<and> registry_hasAnyTopic REG_BOTH (nb_registry x)
               then (if nb_cleanSession x \<noteq> 0 then x\<lparr>nb_registry := registry_clearRegistry (nb_registry x)\<rparr>
                     else x\<lparr>nb_hasSubscription := True\<rparr>)
               else x)
      in Some (True, notify \<lparr>no_state = ConnectedState, no_action = AcConnect, no_returnCode = RC_ACCEPTED,
           no_errorNumber = ErrSuccess\<rparr> x))"

definition actionConnectedAwakeEntry :: "'w devices \<Rightarrow> ('w, 'm) nb stm_action" where
  "actionConnectedAwakeEntry D e x = Some (True, setTimeout (nb_view D) (1000 * uint (nb_duration x)) x)"

definition actionDeepSleepEntry :: "'w devices \<Rightarrow> ('w, 'm) nb stm_action" where
  "actionDeepSleepEntry D e x = do {
     x \<leftarrow> doDisconnect D x;
     let x = snd (dev_call (md_switchModem D False) x);
     let x = x\<lparr>nb_initialized := False, nb_hasSubscription := False\<rparr>;
     Some (True, notify \<lparr>no_state = DeepSleepState, no_action = AcHibernate, no_returnCode = RC_ACCEPTED,
       no_errorNumber = ErrSuccess\<rparr> x)
   }"

definition actionWaitForAttachEntry :: "'w devices \<Rightarrow> ('w, 'm) nb stm_action" where
  "actionWaitForAttachEntry D e x = Some (True, setTimeout (nb_view D) timeoutOneMinute x)"

definition actionWaitForConnectEntry :: "'w devices \<Rightarrow> ('w, 'm) nb stm_action" where
  "actionWaitForConnectEntry D e x = Some (True, setTimeout (nb_view D) timeoutOneMinute x)"

subsection \<open>The graph\<close>

text \<open>
  What \<open>setUpStateMachine\<close> makes of the objects. The actions that only print (with
  \<open>DEBUG_MQTT\<close>) are left out, as in a build without it.
\<close>

fun nb_target :: "nb_transition \<Rightarrow> nb_node option" where
  "nb_target m_initialize = Some (NGuard m_isInitialized)"
| "nb_target m_initialTimeout = Some (NGuard m_isInitialized)"
| "nb_target m_isInitializedDisconnected = Some (NState m_Disconnected)"
| "nb_target m_isInitializedError = Some (NState m_Error)"
| "nb_target m_connect = Some (NGuard m_isAttached)"
| "nb_target m_isNotAttached = Some (NState m_WaitForAttach)"
| "nb_target m_isAttachedIpConnect = Some (NGuard m_isIpConnected)"
| "nb_target m_isAttachedError = Some (NState m_Error)"
| "nb_target m_isIpConnectedError = Some (NState m_Error)"
| "nb_target m_isConnectedConnected = Some (NState m_Connected)"
| "nb_target m_waitConnectIsConnected = Some (NState m_WaitForConnect)"
| "nb_target m_isConnectedError = Some (NState m_Error)"
| "nb_target m_sleep = Some (NState m_ConnectedSleep)"
| "nb_target m_wakeup = Some (NState m_Connected)"
| "nb_target m_sleepAwake = Some (NState m_ConnectedAwake)"
| "nb_target m_awakeSleep = Some (NState m_ConnectedSleep)"
| "nb_target m_awakeActive = Some (NState m_Connected)"
| "nb_target m_awakeTimeout = Some (NState m_ConnectedSleep)"
| "nb_target m_hibernate = Some (NState m_DeepSleep)"
| "nb_target m_reInitialize = Some (NState m_Initial)"
| "nb_target m_disconnect = Some (NState m_Disconnected)"
| "nb_target m_errorDisconnect = Some (NState m_Disconnected)"
| "nb_target m_errorReInitialize = Some (NState m_Initial)"
| "nb_target m_errorTimeout = Some (NState m_Initial)"
| "nb_target m_disSleep = Some (NState m_DisconnectedSleep)"
| "nb_target m_disWakeup = Some (NState m_Disconnected)"
| "nb_target m_disHibernate = Some (NState m_DeepSleep)"

fun nb_trAction :: "'w devices \<Rightarrow> nb_transition \<Rightarrow> ('w, 'm) nb stm_action option" where
  "nb_trAction D m_isInitializedError = Some actionIsInitializedError"
| "nb_trAction D m_connect = Some actionConnect"
| "nb_trAction D m_isNotAttached = Some (actionIsNotAttached D)"
| "nb_trAction D m_isAttachedIpConnect = Some (actionIsAttachedIpConnect D)"
| "nb_trAction D m_isAttachedError = Some actionIsAttachedError"
| "nb_trAction D m_isIpConnectedError = Some actionIsIpConnectedError"
| "nb_trAction D m_isConnectedConnected = Some actionIsConnectedConnected"
| "nb_trAction D m_waitConnectIsConnected = Some actionWaitConnectIsConnected"
| "nb_trAction D m_isConnectedError = Some actionIsConnectedError"
| "nb_trAction D m_sleep = Some (actionSleep D)"
| "nb_trAction D m_wakeup = Some actionWakeup"
| "nb_trAction D m_awakeActive = Some actionAwakeActive"
| "nb_trAction D _ = None"

fun nb_eventType :: "nb_transition \<Rightarrow> int" where
  "nb_eventType m_initialize = InitializeEvent"
| "nb_eventType m_initialTimeout = EvTimer"
| "nb_eventType m_connect = ConnectEvent"
| "nb_eventType m_isAttachedIpConnect = AttachedEvent"
| "nb_eventType m_isAttachedError = EvTimer"
| "nb_eventType m_isConnectedConnected = ConnectedEvent"
| "nb_eventType m_isConnectedError = EvTimer"
| "nb_eventType m_sleep = SleepEvent"
| "nb_eventType m_wakeup = WakeupEvent"
| "nb_eventType m_sleepAwake = ConnectedAwakeEvent"
| "nb_eventType m_awakeSleep = AwakeSleepEvent"
| "nb_eventType m_awakeActive = AwakeActiveEvent"
| "nb_eventType m_awakeTimeout = EvTimer"
| "nb_eventType m_hibernate = HibernateEvent"
| "nb_eventType m_reInitialize = ReInitializeEvent"
| "nb_eventType m_disconnect = DisconnectEvent"
| "nb_eventType m_errorDisconnect = ErrorDisconnectEvent"
| "nb_eventType m_errorReInitialize = ReInitializeEvent"
| "nb_eventType m_errorTimeout = EvTimer"
| "nb_eventType m_disSleep = SleepEvent"
| "nb_eventType m_disWakeup = WakeupEvent"
| "nb_eventType m_disHibernate = HibernateEvent"
| "nb_eventType _ = EvInvalid"

fun nb_condition :: "'w devices \<Rightarrow> nb_choice \<Rightarrow> ('w, 'm) nb stm_action option" where
  "nb_condition D m_isInitialized = Some actionIsInitialized"
| "nb_condition D m_isAttached = Some (actionIsAttached D)"
| "nb_condition D m_isIpConnected = Some (actionIsIpConnected D)"

fun nb_targets :: "nb_choice \<Rightarrow> nb_transition \<times> nb_transition" where
  "nb_targets m_isInitialized = (m_isInitializedDisconnected, m_isInitializedError)"
| "nb_targets m_isAttached = (m_isAttachedIpConnect, m_isNotAttached)"
| "nb_targets m_isIpConnected = (m_waitConnectIsConnected, m_isIpConnectedError)"

fun nb_transitions :: "nb_state \<Rightarrow> nb_transition list" where
  "nb_transitions m_Initial = [m_initialize, m_initialTimeout]"
| "nb_transitions m_Disconnected = [m_connect, m_disSleep, m_disHibernate]"
| "nb_transitions m_Error = [m_errorDisconnect, m_errorReInitialize, m_errorTimeout]"
| "nb_transitions m_Connected = [m_sleep, m_hibernate, m_disconnect]"
| "nb_transitions m_ConnectedSleep = [m_wakeup, m_sleepAwake]"
| "nb_transitions m_ConnectedAwake = [m_awakeSleep, m_awakeActive, m_awakeTimeout]"
| "nb_transitions m_DeepSleep = [m_reInitialize]"
| "nb_transitions m_DisconnectedSleep = [m_disWakeup]"
| "nb_transitions m_WaitForAttach = [m_isAttachedIpConnect, m_isAttachedError]"
| "nb_transitions m_WaitForConnect = [m_isConnectedConnected, m_isConnectedError]"

fun nb_entryAction :: "'w devices \<Rightarrow> nb_state \<Rightarrow> ('w, 'm) nb stm_action option" where
  "nb_entryAction D m_Initial = Some (actionInitialEntry D)"
| "nb_entryAction D m_Disconnected = Some (actionDisconnectedEntry D)"
| "nb_entryAction D m_Error = Some (actionErrorEntry D)"
| "nb_entryAction D m_Connected = Some actionConnectedEntry"
| "nb_entryAction D m_ConnectedAwake = Some (actionConnectedAwakeEntry D)"
| "nb_entryAction D m_DeepSleep = Some (actionDeepSleepEntry D)"
| "nb_entryAction D m_WaitForAttach = Some (actionWaitForAttachEntry D)"
| "nb_entryAction D m_WaitForConnect = Some (actionWaitForConnectEntry D)"
| "nb_entryAction D m_ConnectedSleep = None"
| "nb_entryAction D m_DisconnectedSleep = None"

fun nb_stateId :: "nb_state \<Rightarrow> StateIds" where
  "nb_stateId m_Initial = InitialState"
| "nb_stateId m_Disconnected = DisconnectedState"
| "nb_stateId m_Error = ErrorState"
| "nb_stateId m_Connected = ConnectedState"
| "nb_stateId m_ConnectedSleep = ConnectedSleepState"
| "nb_stateId m_ConnectedAwake = ConnectedAwakeState"
| "nb_stateId m_DeepSleep = DeepSleepState"
| "nb_stateId m_DisconnectedSleep = DisconnectedSleepState"
| "nb_stateId m_WaitForAttach = WaitForAttachState"
| "nb_stateId m_WaitForConnect = WaitForConnectState"

definition nb_graph :: "'w devices \<Rightarrow> (nb_transition, nb_choice, nb_state, ('w, 'm) nb) stm_graph" where
  "nb_graph D = \<lparr>gr_target = nb_target, gr_trAction = nb_trAction D, gr_eventType = nb_eventType,
     gr_condition = nb_condition D, gr_target0 = Some \<circ> fst \<circ> nb_targets, gr_target1 = Some \<circ> snd \<circ> nb_targets,
     gr_parent = (\<lambda>_. Some NStateMachine), gr_transitions = nb_transitions,
     gr_entryAction = nb_entryAction D\<rparr>"

subsection \<open>Running the machine\<close>

definition nb_dispatch :: "'w devices \<Rightarrow> ('w, 'm) nb \<Rightarrow> ('w, 'm) nb option" where
  "nb_dispatch D x = dispatch (nb_view D) (nb_graph D) x"

definition stm_sendEvent :: "'w devices \<Rightarrow> int \<Rightarrow> ('w, 'm) nb \<Rightarrow> ('w, 'm) nb option" where
  "stm_sendEvent D t x =
     nb_dispatch D (nb_disp_update (pushEvent (setCustomEventType t (StmEvent_new EvInvalid))) x)"

definition setUpStateMachine :: "('w, 'm) nb \<Rightarrow> ('w, 'm) nb" where
  "setUpStateMachine x = nb_stm_update (setInitialState (Some m_Initial)) x"

definition startStateMachine :: "'w devices \<Rightarrow> ('w, 'm) nb \<Rightarrow> ('w, 'm) nb option" where
  "startStateMachine D x =
     (case as_initialState (nb_stm x) of
        Some initial \<Rightarrow> do {
          (event, x) \<leftarrow> State_enter (nb_view D) (nb_graph D) initial (StmEvent_new EvInvalid) x;
          x \<leftarrow> nb_dispatch D (nb_disp_update (pushEvent (setCustomEventType InitializeEvent event)) x);
          Some (x\<lparr>nb_eventLoopLock := False\<rparr>)
        }
      | None \<Rightarrow> Some x)"

definition doReconnect :: "'w devices \<Rightarrow> ('w, 'm) nb \<Rightarrow> ('w, 'm) nb option" where
  "doReconnect D x = do {
     let oldCleanSession = nb_cleanSession x;
     x \<leftarrow> stm_sendEvent D ConnectEvent (x\<lparr>nb_cleanSession := 0\<rparr>);
     Some (x\<lparr>nb_cleanSession := oldCleanSession\<rparr>)
   }"

definition stm_getCurrentStateId :: "('w, 'm) nb \<Rightarrow> StateIds option" where
  "stm_getCurrentStateId x = map_option nb_stateId (as_currentState (nb_stm x))"

subsection \<open>The loop that waits for the modem to attach\<close>

definition startAttachLoop :: "'w devices \<Rightarrow> ('w, 'm) nb \<Rightarrow> (bool \<times> ('w, 'm) nb) option" where
  "startAttachLoop D x =
     (let (timer, x) = sn_Timer (dv_platform D) (client_getTime LI_Cgatt x) x;
          (ok, x) = dev_call (md_attach D) x
      in if ok
         then let (left, x) = sn_remaining (dv_platform D) timer x;
                  x = client_start (dv_platform D) LI_Cgatt left x
              in Some (True, x\<lparr>nb_modemAttached := False\<rparr>)
         else Some (False, x))"

partial_function (option) attach_wait :: "'w devices \<Rightarrow> ntimer \<Rightarrow> ('w, 'm) nb \<Rightarrow> (bool \<times> ('w, 'm) nb) option" where
  "attach_wait D timer x =
     (let (left, x) = sn_remaining (dv_platform D) timer x
      in if 0 < left
         then let (attached, x) = dev_call (md_isAttached D) x
              in if attached then Some (False, x\<lparr>nb_modemAttached := True\<rparr>) else attach_wait D timer x
         else Some (True, x))"

definition doAttachLoop :: "'w devices \<Rightarrow> ('w, 'm) nb \<Rightarrow> (bool \<times> ('w, 'm) nb) option" where
  "doAttachLoop D x =
     (let (left, x) = client_remaining (dv_platform D) LI_Cgatt x;
          loopTime = to_int left;
          x = lc_setValue LI_Cgatt loopTime x;
          interval = (if stmLoopInterval < loopTime then stmLoopInterval else loopTime)
      in if interval = 0 then Some (False, x)
         else let (timer, x) = sn_Timer (dv_platform D) (to_ulong interval) x in attach_wait D timer x)"

definition finishAttachLoop :: "'w devices \<Rightarrow> ('w, 'm) nb \<Rightarrow> (bool \<times> ('w, 'm) nb) option" where
  "finishAttachLoop D x =
     (if client_ctrl LI_Cgatt x = 0 then Some (False, x)
      else let (attached, x) = dev_call (md_isAttached D) x
           in Some (if \<not> attached then (False, x\<lparr>nb_modemAttached := False\<rparr>)
                    else (True, stm_postEvent AttachedEvent x)))"

definition attach_handlers :: "'w devices \<Rightarrow> (NbiotLoopId, 'w, ('m nstm_ext) snsys_ext) lhandlers" where
  "attach_handlers D = \<lparr>lh_start = Some (startAttachLoop D), lh_step = Some (doAttachLoop D), lh_stop = Some (finishAttachLoop D)\<rparr>"

text \<open>
  The constructors of the data pool and of the machine. What the client leaves uninitialised is an
  argument, as in \<open>sn_new\<close>.
\<close>

definition nb_new :: "u16 \<Rightarrow> int \<Rightarrow> 'w \<Rightarrow> 'w nstm" where
  "nb_new duration inflightLen w =
     snsys.extend (sn_new duration inflightLen \<lparr>tp_type = TNormal, tp_data = UId 0xFFFF\<rparr> 32767 w)
       \<lparr>nb_stm = astm_new (Some tm_new), nb_disp = evdisp_new, nb_errno = NotStartedError,
        nb_currentTopic = topic_new, nb_registry = registry_new, nb_initialized = False,
        nb_hasSubscription = False, nb_authLogin = [], nb_authPasswd = [], nb_authentication = [],
        nb_gateway = [], nb_mqttPort = 1883, nb_keepAliveInterval = 60, nb_autoPollInterval = 0,
        nb_eventLoopExecInterval = 100, nb_eventLoopLock = True, nb_eventLoopTimer = tm_new,
        nb_autoPollTimer = tm_new, nb_cleanSession = 0, nb_autoReconnect = False, nb_duration = 0,
        nb_modemRestartOnError = 0, nb_maxTopics = 20, nb_modemAttached = False, nb_waitTimer = tm_new,
        nb_notifyHandler = False, nb_notified = []\<rparr>"

end
