(* ===== verification/NbiotLive.thy ===== *)
theory NbiotLive
  imports NbiotStm
begin

text \<open>
  The connection state machine in operation: every event is handled, every state can be left, and
  the machine follows the diagram of its states.
\<close>

interpretation nb: stm_host "nb_view D" for D :: "'w devices"
proof
  fix x y :: "('w, 'm) nb" and clk
  assume "vw_clock (nb_view D) x = (clk, y)"
  then show "vw_stm (nb_view D) y = vw_stm (nb_view D) x \<and> vw_disp (nb_view D) y = vw_disp (nb_view D) x"
    by (auto simp: nb_view_def sn_clock_def split: prod.splits)
qed (simp_all add: nb_view_def)

lemma nb_view_simps [simp]:
  "vw_stm (nb_view D) = nb_stm" "vw_on_stm (nb_view D) = nb_stm_update" "vw_disp (nb_view D) = nb_disp"
  "vw_on_disp (nb_view D) = nb_disp_update" "vw_clock (nb_view D) = sn_clock (dv_platform D)"
  by (simp_all add: nb_view_def)

lemma nb_graph_simps [simp]:
  "gr_target (nb_graph D) = nb_target" "gr_trAction (nb_graph D) = nb_trAction D"
  "gr_eventType (nb_graph D) = nb_eventType" "gr_condition (nb_graph D) = nb_condition D"
  "gr_target0 (nb_graph D) c = Some (fst (nb_targets c))" "gr_target1 (nb_graph D) c = Some (snd (nb_targets c))"
  "gr_parent (nb_graph D) s = Some NStateMachine" "gr_transitions (nb_graph D) = nb_transitions"
  "gr_entryAction (nb_graph D) = nb_entryAction D"
  by (simp_all add: nb_graph_def)

subsection \<open>What the actions leave alone\<close>

text \<open>
  \<open>nb_frame x y\<close>: the members of the machine, the dispatcher, the initialisation flag, the counter of
  modem restarts and the size of the send buffer are the same in both.
\<close>

definition nb_frame :: "('w, 'm) nb \<Rightarrow> ('w, 'm) nb \<Rightarrow> bool" where
  "nb_frame x y \<longleftrightarrow> nb_stm y = nb_stm x \<and> nb_disp y = nb_disp x \<and> nb_initialized y = nb_initialized x
     \<and> nb_modemRestartOnError y = nb_modemRestartOnError x \<and> length (sn_sendbuf y) = length (sn_sendbuf x)"

lemma nb_frame_refl [simp]: "nb_frame x x"
  by (simp add: nb_frame_def)

lemma nb_frame_trans: "nb_frame x y \<Longrightarrow> nb_frame y z \<Longrightarrow> nb_frame x z"
  by (simp add: nb_frame_def)

lemma dev_call_frame [simp]: "nb_frame x (snd (dev_call f x))"
  by (simp add: nb_frame_def dev_call_def split: prod.splits)

lemma dev_frame: "dev_call f x = (r, y) \<Longrightarrow> nb_frame x y"
  using dev_call_frame [of x f] by simp

lemma notify_frame [simp]: "nb_frame x (notify n x)"
  by (simp add: nb_frame_def notify_def)

lemma sn_clock_frame [simp]: "nb_frame x (snd (sn_clock P x))"
  by (simp add: nb_frame_def sn_clock_def split: prod.splits)

lemma sn_Timer_frame: "sn_Timer P ms x = (t, y) \<Longrightarrow> nb_frame x y"
  using sn_clock_frame [of x P] sn_timer_snd(4) [of P ms tm_new x] unfolding sn_Timer_def by simp

lemma loop_request_frame [simp]:
  fixes x :: "('w, 'm) nb"
  shows "nb_frame x (loopConnect len x)" "nb_frame x (loopDisconnect len x)" "nb_frame x (doModemAttach x)"
    "nb_frame x (on_loop f x)" "nb_frame x (lc_setValue c v x)" "nb_frame x (client_start P c ms x)"
proof -
  obtain t y where t: "sn_start_for P ms (lc_timer (ls_objs x c)) x = (t, y)" by force
  then have "nb_frame x y" using sn_clock_frame [of x P] sn_timer_snd(4) [of P ms "lc_timer (ls_objs x c)" x] by simp
  then show "nb_frame x (client_start P c ms x)" using t by (simp add: client_start_def nb_frame_def)
qed (simp_all add: nb_frame_def loopConnect_def loopDisconnect_def doModemAttach_def register_client_def
    client_setTime_def lc_setValue_def)

lemma sn_disconnect_total:
  fixes x :: "('w, 'm) nb"
  assumes "length (sn_sendbuf x) = 200"
  shows "\<exists>rc y. sn_disconnect P d x = Some (rc, y) \<and> nb_frame x y"
proof -
  obtain timer x1 where t: "sn_Timer P (sn_command_timeout x) x = (timer, x1)" by force
  note f1 = sn_Timer_frame [OF t]
  let ?m = "if d = 0 then None else Some (uint d)"
  have "disconnect_ok ?m" using uint_lt2p [of d] by (simp add: disconnect_ok_def)
  then obtain rc buf where ser: "MQTTSNSerialize_disconnect (sn_sendbuf x1) MAX_PACKET_SIZE (if d = 0 then - 1 else uint d) = Some (rc, buf)"
    and len: "length buf = 200"
    using disconnect.in_bounds [of ?m MAX_PACKET_SIZE "sn_sendbuf x1"] assms f1
    by (auto simp: duration_arg_def sn_consts nb_frame_def split: if_splits)
  have f: "nb_frame x (x1\<lparr>sn_sendbuf := buf\<rparr>)" using f1 len assms by (simp add: nb_frame_def)
  then show ?thesis
    using t ser nb_frame_trans [OF f loop_request_frame(2)] by (simp add: sn_disconnect_def Let_def)
qed

lemma serialize_connect_total:
  assumes "length buf = 200" and "ms_cstring (cd_clientID d) = Some (name @ [0])" and "ms_len (cd_clientID d) = 0"
  shows "\<exists>rc out. MQTTSNSerialize_connect buf MAX_PACKET_SIZE d = Some (rc, out) \<and> length out = 200"
proof -
  obtain xs rest where xs: "name @ [0] = xs @ 0 # rest" "0 \<notin> set xs"
    using split_list_first [of 0 "name @ [0 :: byte]"] by auto
  have h: "ms_holds (cd_clientID d) xs" using assms(2,3) xs by (simp add: ms_holds_def)
  show ?thesis
  proof (cases "length xs \<le> 249")
    case True
    then show ?thesis
      using connect_fits [OF h True, of MAX_PACKET_SIZE buf] assms(1) length_string_wire
      by (auto simp: sn_consts string_wire_def)
  next
    case False
    then show ?thesis
      using MQTTSNstrlen_holds [OF h] assms(1)
      by (simp add: MQTTSNSerialize_connect_def MQTTSNSerialize_connectLength_def MQTTSNPacket_len_def sn_consts)
  qed
qed

lemma mqttConnect_total:
  fixes x :: "('w, 'm) nb"
  assumes "length (sn_sendbuf x) = 200"
  shows "\<exists>b y. mqttConnect c x = Some (b, y) \<and> nb_frame x y"
proof (cases "sn_isconnected x")
  case False
  define d where "d = connectData_initializer
      \<lparr>cd_duration := word_of_int (nb_keepAliveInterval x), cd_cleansession := c,
       cd_clientID := (cd_clientID connectData_initializer)\<lparr>ms_cstring := Some (nb_authentication x @ [0])\<rparr>\<rparr>"
  define x1 where "x1 = x\<lparr>sn_duration := cd_duration d, sn_cleansession := (cd_cleansession d \<noteq> 0)\<rparr>"
  obtain rc buf where ser: "MQTTSNSerialize_connect (sn_sendbuf x1) MAX_PACKET_SIZE d = Some (rc, buf)" "length buf = 200"
    using serialize_connect_total [of "sn_sendbuf x1" d "nb_authentication x"] assms
    by (auto simp: d_def x1_def connectData_initializer_def)
  have f: "nb_frame x (x1\<lparr>sn_sendbuf := buf\<rparr>)" using ser(2) assms by (simp add: nb_frame_def x1_def)
  have "sn_connect d x = Some (if 0 < rc then (SUCCESS, loopConnect rc (x1\<lparr>sn_sendbuf := buf\<rparr>))
      else (FAILURE, x1\<lparr>sn_sendbuf := buf\<rparr>))"
    using False ser(1) by (simp add: sn_connect_def flip: x1_def)
  then show ?thesis
    using False f nb_frame_trans [OF f loop_request_frame(1)] by (simp add: mqttConnect_def Let_def flip: d_def)
qed (auto simp: mqttConnect_def)

lemma finishDisconnect_frame: "nb_frame x (finishDisconnect D x)"
proof -
  obtain c x1 where c: "dev_call (nw_isConnected D) x = (c, x1)" by force
  define x2 where "x2 = (if c then snd (dev_call (nw_disconnect D) x1) else x1)"
  have f: "nb_frame x x2"
    using dev_frame [OF c] nb_frame_trans [OF dev_frame [OF c] dev_call_frame [of x1 "nw_disconnect D"]]
    by (simp add: x2_def)
  have "finishDisconnect D x = (if isBusy (ls_loop x2) then on_loop loopBreak x2 else x2)"
    by (simp add: finishDisconnect_def Let_def c x2_def)
  then show ?thesis using f nb_frame_trans [OF f loop_request_frame(4)] by simp
qed

lemma doDisconnect_total:
  assumes "length (sn_sendbuf x) = 200"
  shows "\<exists>y. doDisconnect D x = Some y \<and> nb_frame x y"
  using sn_disconnect_total [OF assms, of "dv_platform D" "nb_duration x"] finishDisconnect_frame [of x D]
  by (auto simp: doDisconnect_def)

lemma mqttDisconnect_total:
  assumes "length (sn_sendbuf x) = 200"
  shows "\<exists>y. mqttDisconnect D x = Some y \<and> nb_frame x y"
  using sn_disconnect_total [OF assms, of "dv_platform D" "nb_duration x"] by (auto simp: mqttDisconnect_def)

subsection \<open>The invariant\<close>

text \<open>The clock has left zero, the value that a timer takes for not started.\<close>

definition clock_running :: "'w devices \<Rightarrow> bool" where
  "clock_running D \<longleftrightarrow> (\<forall>w. 0 < nt_getMillis (fst (pf_clock (dv_platform D) w)))"

definition timer_armed :: "('w, 'm) nb \<Rightarrow> bool" where
  "timer_armed x \<longleftrightarrow> (\<exists>t. as_stateTimeout (nb_stm x) = Some t \<and> tm_valid t)"

definition error_events :: "('w, 'm) nb \<Rightarrow> StmEvent list" where
  "error_events x = filter (\<lambda>e. ev_type e \<in> {ErrorDisconnectEvent, ReInitializeEvent})
     (sq_items (ed_events (nb_disp x)) @ sq_items (ed_pendingEvents (nb_disp x)))"

text \<open>
  What makes sure that a transient state is left: its timer, or an event that waits. No other state
  has a timer.
\<close>

fun nb_state_ok :: "nb_state \<Rightarrow> ('w, 'm) nb \<Rightarrow> bool" where
  "nb_state_ok m_Initial x = timer_armed x"
| "nb_state_ok m_Error x = (if nb_initialized x then error_events x \<noteq> [] \<and> \<not> timer_armed x else timer_armed x)"
| "nb_state_ok m_WaitForAttach x = timer_armed x"
| "nb_state_ok m_WaitForConnect x = timer_armed x"
| "nb_state_ok m_ConnectedAwake x = timer_armed x"
| "nb_state_ok _ x = (\<not> timer_armed x)"

definition nb_base :: "'w devices \<Rightarrow> ('w, 'm) nb \<Rightarrow> bool" where
  "nb_base D x \<longleftrightarrow> clock_running D \<and> length (sn_sendbuf x) = 200 \<and> as_stateTimeout (nb_stm x) \<noteq> None"

definition nb_live :: "'w devices \<Rightarrow> ('w, 'm) nb \<Rightarrow> bool" where
  "nb_live D x \<longleftrightarrow> nb_base D x \<and> (\<exists>s. as_currentState (nb_stm x) = Some s \<and> nb_state_ok s x)"

lemma nb_base_frame: "nb_frame x y \<Longrightarrow> nb_base D x \<Longrightarrow> nb_base D y"
  by (simp add: nb_base_def nb_frame_def)

definition nb_entered :: "nb_state \<Rightarrow> ('w, 'm) nb \<Rightarrow> ('w, 'm) nb" where
  "nb_entered s x = x\<lparr>nb_stm := (nb_stm x)\<lparr>as_currentState := Some s,
     as_stateTimeout := map_option (\<lambda>t. if tm_valid t then tm_clear t else t) (as_stateTimeout (nb_stm x))\<rparr>\<rparr>"

lemma nb_stm_update_at: "nb_stm_update f x = x\<lparr>nb_stm := f (nb_stm x)\<rparr>"
  by (cases x) simp

lemma State_enter_nb:
  "State_enter (nb_view D) (nb_graph D) s e x =
     map_option (\<lambda>(_, y). (setEventState Handled e, y)) (run_action (nb_entryAction D s) e (nb_entered s x))"
proof -
  define x1 where "x1 = x\<lparr>nb_stm := (nb_stm x)\<lparr>as_currentState := Some s\<rparr>\<rparr>"
  have x1: "nb_stm_update (setCurrentState (Some s)) x = x1"
    by (simp only: nb_stm_update_at [of "setCurrentState (Some s)"] x1_def setCurrentState_def)
  have "(case as_stateTimeout (nb_stm x1) of
        Some t \<Rightarrow> if tm_valid t then nb_stm_update (\<lambda>m. m\<lparr>as_stateTimeout := Some (tm_clear t)\<rparr>) x1 else x1
      | None \<Rightarrow> x1) = nb_entered s x"
    unfolding nb_stm_update_at [of "\<lambda>m. m\<lparr>as_stateTimeout := _\<rparr>"] x1_def nb_entered_def
    by (cases "as_stateTimeout (nb_stm x)") simp_all
  then show ?thesis
    unfolding State_enter_def nb_view_simps
    by (simp add: getRoot_top Let_def x1 map_conv_bind_option split_def comp_def)
qed

lemma nb_entered_base [simp]:
  "as_currentState (nb_stm (nb_entered s x)) = Some s" "nb_disp (nb_entered s x) = nb_disp x"
  "nb_initialized (nb_entered s x) = nb_initialized x" "sn_sendbuf (nb_entered s x) = sn_sendbuf x"
  "nb_modemRestartOnError (nb_entered s x) = nb_modemRestartOnError x" "nb_base D (nb_entered s x) = nb_base D x"
  by (auto simp: nb_entered_def nb_base_def)

lemma nb_entered_unarmed [simp]: "\<not> timer_armed (nb_entered s x)"
  by (auto simp: timer_armed_def nb_entered_def tm_valid_def tm_clear_def split: if_splits)

lemma timer_armed_cong: "nb_stm y = nb_stm x \<Longrightarrow> timer_armed y = timer_armed x"
  by (simp add: timer_armed_def)

lemma setTimeout_armed:
  assumes "nb_base D x" and "0 \<le> ms"
  shows "\<exists>y. setTimeout (nb_view D) ms x = y \<and> nb_base D y \<and> timer_armed y
    \<and> as_currentState (nb_stm y) = as_currentState (nb_stm x) \<and> nb_disp y = nb_disp x
    \<and> nb_initialized y = nb_initialized x \<and> nb_modemRestartOnError y = nb_modemRestartOnError x"
proof -
  obtain t where t: "as_stateTimeout (nb_stm x) = Some t" using assms(1) by (auto simp: nb_base_def)
  obtain clk y where c: "sn_clock (dv_platform D) x = (clk, y)" by force
  have f: "nb_frame x y" using sn_clock_frame [of x "dv_platform D"] c by simp
  have "clk = fst (pf_clock (dv_platform D) (ls_env x))" using c by (auto simp: sn_clock_def split: prod.splits)
  then have "0 < nt_getMillis clk" using assms(1) by (simp add: nb_base_def clock_running_def)
  then have v: "tm_valid (tm_start_for clk ms t)" using assms(2) by (simp add: tm_valid_def tm_start_for_def)
  have "setTimeout (nb_view D) ms x = nb_stm_update (\<lambda>m. m\<lparr>as_stateTimeout := Some (tm_start_for clk ms t)\<rparr>) y"
    using t c by (simp add: setTimeout_def startStateTimer_def)
  then show ?thesis
    using f v assms(1) by (simp add: nb_base_def nb_frame_def timer_armed_def)
qed

lemma nb_live_frame: "nb_frame x y \<Longrightarrow> nb_live D x \<Longrightarrow> nb_live D y"
proof -
  assume f: "nb_frame x y" and l: "nb_live D x"
  have "nb_state_ok s y = nb_state_ok s x" for s
    using f by (cases s) (simp_all add: nb_frame_def timer_armed_def error_events_def)
  then show ?thesis using f l by (auto simp: nb_live_def nb_base_def nb_frame_def)
qed

text \<open>The entry of the initial state also changes the initialisation flag and posts an event.\<close>

definition nb_loose :: "('w, 'm) nb \<Rightarrow> ('w, 'm) nb \<Rightarrow> bool" where
  "nb_loose x y \<longleftrightarrow> nb_stm y = nb_stm x \<and> ed_events (nb_disp y) = ed_events (nb_disp x)
     \<and> nb_modemRestartOnError y = nb_modemRestartOnError x \<and> length (sn_sendbuf y) = length (sn_sendbuf x)"

lemma nb_loose_trans: "nb_loose x y \<Longrightarrow> nb_loose y z \<Longrightarrow> nb_loose x z"
  by (simp add: nb_loose_def)

lemma nb_loose_steps [simp]:
  "nb_frame x y \<Longrightarrow> nb_loose x y" "nb_loose x x" "nb_loose x (stm_postEvent t x)" "nb_loose x (notify n x)"
  "nb_loose x (x\<lparr>nb_initialized := b\<rparr>)" "nb_loose x (x\<lparr>nb_authLogin := a\<rparr>)" "nb_loose x (x\<lparr>nb_authentication := a\<rparr>)"
  by (simp_all add: nb_loose_def nb_frame_def stm_postEvent_def postPendingEvent_def notify_def)

lemma error_events_post:
  "t \<in> {ErrorDisconnectEvent, ReInitializeEvent} \<Longrightarrow> error_events (stm_postEvent t x) \<noteq> []"
  by (auto simp: error_events_def stm_postEvent_def postPendingEvent_def sq_append_def setCustomEventType_def
      StmEvent_new_def nb_events event_codes)

text \<open>The initial state: what its entry action has done before it starts the timer.\<close>

lemma initialLogin_loose: "nb_loose x (snd (initialLogin D x))"
proof -
  obtain r x1 where r: "dev_call (md_getImsi D (nb_authLogin x)) x = (r, x1)" by (metis prod.collapse)
  define x2 where "x2 = (if nb_authLogin x = [] then x1\<lparr>nb_authLogin := snd r\<rparr> else x)"
  have f: "nb_loose x x2"
    using nb_loose_trans [OF nb_loose_steps(1) [OF dev_frame [OF r]] nb_loose_steps(6)] by (simp add: x2_def)
  moreover have "initialLogin D x = (if nb_authLogin x2 = [] then (False, x2)
      else (True, x2\<lparr>nb_authentication := nb_authLogin x2 @ nb_authPasswd x2\<rparr>))"
    using r by (auto simp: initialLogin_def x2_def)
  ultimately show ?thesis using f nb_loose_trans [OF f nb_loose_steps(7)] by simp
qed

lemma initialModem_loose: "nb_loose x (snd (initialModem D re x))"
proof -
  obtain ok1 x1 where 1: "(if \<not> re then dev_call (md_reboot D) x else (True, x)) = (ok1, x1)" by force
  have f1: "nb_loose x x1" using 1 dev_frame [of "md_reboot D" x ok1 x1] by (auto split: if_splits)
  obtain ok2 x2 where 2: "(if ok1 then dev_call (md_initialize D) x1 else (False, x1)) = (ok2, x2)" by force
  have f2: "nb_loose x1 x2" using 2 dev_frame [of "md_initialize D" x1 ok2 x2] by (auto split: if_splits)
  have "initialModem D re x = (if ok2 \<and> \<not> re then initialLogin D x2 else (ok2, x2))"
    unfolding initialModem_def 1 Let_def prod.case 2 ..
  then show ?thesis
    using nb_loose_trans [OF f1 f2] nb_loose_trans [OF nb_loose_trans [OF f1 f2] initialLogin_loose] by simp
qed

lemma actionInitialEntry_eq:
  "\<exists>y. actionInitialEntry D e x = Some (nb_initialized (setTimeout (nb_view D) timeoutOneMinute y),
      setTimeout (nb_view D) timeoutOneMinute y) \<and> nb_loose x y"
proof -
  define re where "re = (ev_type e = ReInitializeEvent \<or> ev_type e = EvTimer)"
  obtain ok x1 where m: "initialModem D re x = (ok, x1)" by force
  define n where "n = \<lparr>no_state = InitialState, no_action = (if re then AcReInitialize else AcInitialize),
      no_returnCode = RC_ACCEPTED, no_errorNumber = (if ok then ErrSuccess else InitializeError)\<rparr>"
  define x2 where "x2 = (if re then stm_postEvent InitializeEvent x1 else x1)"
  define y where "y = notify n (x2\<lparr>nb_initialized := ok\<rparr>)"
  have "nb_loose x x1" using initialModem_loose [of x D re] m by simp
  moreover have "nb_loose x1 x2" by (simp add: x2_def)
  moreover have "nb_loose x2 y" unfolding y_def by (rule nb_loose_trans [OF nb_loose_steps(5) nb_loose_steps(4)])
  ultimately have "nb_loose x y" using nb_loose_trans by blast
  moreover have "actionInitialEntry D e x = Some (nb_initialized (setTimeout (nb_view D) timeoutOneMinute y),
      setTimeout (nb_view D) timeoutOneMinute y)"
    unfolding actionInitialEntry_def re_def [symmetric] Let_def m prod.case y_def n_def x2_def ..
  ultimately show ?thesis by blast
qed

text \<open>Entering a state: the entry action returns, and what it leaves is live.\<close>

lemma enter_live:
  assumes "nb_base D x"
  shows "\<exists>y. State_enter (nb_view D) (nb_graph D) s e x = Some (setEventState Handled e, y) \<and> nb_live D y
    \<and> as_currentState (nb_stm y) = Some s \<and> ed_events (nb_disp y) = ed_events (nb_disp x)"
proof -
  define x1 where "x1 = nb_entered s x"
  have b: "nb_base D x1" using assms by (simp add: x1_def)
  have cur: "as_currentState (nb_stm x1) = Some s" "nb_disp x1 = nb_disp x" "\<not> timer_armed x1" by (simp_all add: x1_def)
  have "\<exists>b y. run_action (nb_entryAction D s) e x1 = Some (b, y) \<and> nb_live D y
      \<and> as_currentState (nb_stm y) = Some s \<and> ed_events (nb_disp y) = ed_events (nb_disp x)"
  proof (cases s)
    case m_WaitForAttach
    from setTimeout_armed [OF b, of timeoutOneMinute] show ?thesis
      using b cur m_WaitForAttach
      by (auto simp: run_action_def actionWaitForAttachEntry_def timeoutOneMinute_def nb_live_def)
  next
    case m_WaitForConnect
    from setTimeout_armed [OF b, of timeoutOneMinute] show ?thesis
      using b cur m_WaitForConnect
      by (auto simp: run_action_def actionWaitForConnectEntry_def timeoutOneMinute_def nb_live_def)
  next
    case m_ConnectedAwake
    have "0 \<le> 1000 * uint (nb_duration x1)" by simp
    from setTimeout_armed [OF b this] show ?thesis
      using b cur m_ConnectedAwake
      by (auto simp: run_action_def actionConnectedAwakeEntry_def nb_live_def)
  next
    case m_ConnectedSleep
    then show ?thesis using b cur by (auto simp: run_action_def nb_live_def)
  next
    case m_DisconnectedSleep
    then show ?thesis using b cur by (auto simp: run_action_def nb_live_def)
  next
    case m_Disconnected
    obtain y where y: "doDisconnect D x1 = Some y" "nb_frame x1 y"
      using doDisconnect_total [of x1 D] b by (auto simp: nb_base_def)
    have "nb_live D x1" using b cur m_Disconnected by (simp add: nb_live_def)
    define z where "z = (notify \<lparr>no_state = DisconnectedState, no_action = AcDisconnect, no_returnCode = RC_ACCEPTED,
        no_errorNumber = nb_errno y\<rparr> y)\<lparr>nb_errno := ErrSuccess\<rparr>"
    have "nb_frame x1 z" using y(2) by (simp add: z_def nb_frame_def notify_def)
    moreover have "nb_live D x1" using b cur m_Disconnected by (auto simp: nb_live_def)
    moreover have "actionDisconnectedEntry D e x1 = Some (True, z)" using y(1) by (simp add: actionDisconnectedEntry_def z_def)
    ultimately show ?thesis
      using nb_live_frame [of x1 z D] cur m_Disconnected by (auto simp: run_action_def nb_frame_def)
  next
    case m_Initial
    obtain y where y: "actionInitialEntry D e x1 = Some (nb_initialized (setTimeout (nb_view D) timeoutOneMinute y),
        setTimeout (nb_view D) timeoutOneMinute y)" "nb_loose x1 y"
      using actionInitialEntry_eq by blast
    have "nb_base D y" using b y(2) by (simp add: nb_base_def nb_loose_def)
    from setTimeout_armed [OF this, of timeoutOneMinute] show ?thesis
      using b cur y m_Initial
      by (auto simp: run_action_def nb_live_def nb_loose_def timeoutOneMinute_def)
  next
    case m_Error
    define n where "n y = \<lparr>no_state = ErrorState,
        no_action = (if nb_errno y \<in> {GprsNotConnected, IpNotConnected, ConnectionError} then AcConnect else AcInitialize),
        no_returnCode = RC_ACCEPTED, no_errorNumber = nb_errno y\<rparr>" for y :: "('a, 'b) nb"
    obtain r x2 where r: "dev_call (md_reboot D) (x1\<lparr>nb_modemRestartOnError := 0\<rparr>) = (r, x2)" by force
    define y where "y = (if nb_initialized x1
        then (if restartModemThreshold \<le> unat (nb_modemRestartOnError x1) then stm_postEvent ReInitializeEvent x2
              else stm_postEvent ErrorDisconnectEvent x1)
        else setTimeout (nb_view D) timeoutOneMinute x1)"
    have run: "actionErrorEntry D e x1 = Some (False, notify (n y) y)"
      by (simp add: actionErrorEntry_def Let_def r y_def n_def)
    have f2: "nb_frame (x1\<lparr>nb_modemRestartOnError := 0\<rparr>) x2" using dev_frame [OF r] .
    have "nb_live D y \<and> as_currentState (nb_stm y) = Some s \<and> ed_events (nb_disp y) = ed_events (nb_disp x)"
    proof (cases "nb_initialized x1")
      case True
      have "nb_live D (stm_postEvent t z)" if "nb_frame x1 (z\<lparr>nb_modemRestartOnError := nb_modemRestartOnError x1\<rparr>)"
        and "t \<in> {ErrorDisconnectEvent, ReInitializeEvent}" for t z
        using that True cur m_Error b error_events_post [of t z]
        by (auto simp: nb_live_def nb_base_def nb_frame_def stm_postEvent_def timer_armed_def)
      moreover have "nb_frame x1 (x2\<lparr>nb_modemRestartOnError := nb_modemRestartOnError x1\<rparr>)"
        using f2 by (simp add: nb_frame_def)
      ultimately have "nb_live D y"
        using True by (simp add: y_def)
      then show ?thesis
        using True cur f2 m_Error by (auto simp: y_def stm_postEvent_def postPendingEvent_def nb_frame_def)
    next
      case False
      from setTimeout_armed [OF b, of timeoutOneMinute] show ?thesis
        using False b cur m_Error by (auto simp: y_def nb_live_def timeoutOneMinute_def)
    qed
    then show ?thesis
      using run nb_live_frame [OF notify_frame [of y "n y"], of D] m_Error
      by (auto simp: run_action_def notify_def)
  next
    case m_DeepSleep
    obtain y where y: "doDisconnect D x1 = Some y" "nb_frame x1 y"
      using doDisconnect_total [of x1 D] b by (auto simp: nb_base_def)
    obtain r z where z: "dev_call (md_switchModem D False) y = (r, z)" by force
    have f: "nb_frame x1 z" using y(2) dev_frame [OF z] by (rule nb_frame_trans)
    define u where "u = notify \<lparr>no_state = DeepSleepState, no_action = AcHibernate, no_returnCode = RC_ACCEPTED,
        no_errorNumber = ErrSuccess\<rparr> (z\<lparr>nb_initialized := False, nb_hasSubscription := False\<rparr>)"
    have "actionDeepSleepEntry D e x1 = Some (True, u)" using y(1) z by (simp add: actionDeepSleepEntry_def u_def Let_def)
    moreover have "nb_loose x1 u" using f by (simp add: u_def nb_loose_def nb_frame_def notify_def)
    ultimately show ?thesis
      using b cur m_DeepSleep
      by (auto simp: run_action_def nb_live_def nb_loose_def nb_base_def timer_armed_def)
  next
    case m_Connected
    obtain y where "actionConnectedEntry e x1 = Some (True, y)" "nb_frame x1 y"
      by (simp add: actionConnectedEntry_def Let_def nb_frame_def notify_def)
    moreover have "nb_live D x1" using b cur m_Connected by (auto simp: nb_live_def)
    ultimately show ?thesis
      using nb_live_frame [of x1 y D] cur m_Connected by (auto simp: run_action_def nb_frame_def)
  qed
  then show ?thesis by (auto simp: State_enter_nb simp flip: x1_def)
qed

subsection \<open>Handling an event\<close>

text \<open>The actions of transitions and choices return and leave the invariant's base and the event queue.\<close>

lemma trAction_total:
  assumes "nb_base D x"
  shows "\<exists>b y. run_action (nb_trAction D t) e x = Some (b, y) \<and> nb_base D y \<and> ed_events (nb_disp y) = ed_events (nb_disp x)"
proof -
  have len: "length (sn_sendbuf x) = 200" using assms by (simp add: nb_base_def)
  note b = nb_base_frame [OF _ assms]
  show ?thesis
  proof (cases t)
    case m_isNotAttached
    obtain tm y where t: "sn_start_for (dv_platform D) timeoutOneMinute (nb_waitTimer x) x = (tm, y)" by force
    have "nb_frame x y" using t sn_clock_frame [of x "dv_platform D"]
      sn_timer_snd(4) [of "dv_platform D" timeoutOneMinute "nb_waitTimer x" x] by simp
    then have "nb_frame x (y\<lparr>nb_waitTimer := tm\<rparr>)" by (simp add: nb_frame_def)
    from nb_frame_trans [OF this loop_request_frame(3)] show ?thesis
      using b t m_isNotAttached by (auto simp: run_action_def actionIsNotAttached_def nb_frame_def)
  next
    case m_isAttachedIpConnect
    define x1 where "x1 = x\<lparr>nb_modemRestartOnError := 0, nb_waitTimer := tm_clear (nb_waitTimer x)\<rparr>"
    define x2 where "x2 = (if nb_gateway x1 \<noteq> [] then snd (dev_call (nw_connect D (nb_gateway x1 @ [0]) (nb_mqttPort x1)) x1) else x1)"
    obtain c x3 where c: "dev_call (nw_isConnected D) x2 = (c, x3)" by force
    have "nb_frame x1 x2" by (simp add: x2_def)
    from nb_frame_trans [OF this dev_frame [OF c]] have f: "nb_frame x1 x3" .
    have "actionIsAttachedIpConnect D e x = Some (c, x3)"
      by (simp add: actionIsAttachedIpConnect_def Let_def c flip: x1_def x2_def)
    then show ?thesis
      using f assms m_isAttachedIpConnect by (auto simp: run_action_def nb_frame_def nb_base_def x1_def)
  next
    case m_waitConnectIsConnected
    then show ?thesis
      using mqttConnect_total [OF len, of "nb_cleanSession x"] b
      by (auto simp: run_action_def actionWaitConnectIsConnected_def nb_frame_def)
  next
    case m_sleep
    then show ?thesis
      using mqttDisconnect_total [OF len, of D] b assms
      by (auto simp: run_action_def actionSleep_def nb_frame_def)
  next
    case m_wakeup
    then show ?thesis
      using mqttConnect_total [OF len, of 0] b assms
      by (auto simp: run_action_def actionWakeup_def nb_frame_def)
  next
    case m_awakeActive
    then show ?thesis
      using mqttConnect_total [OF len, of 0] b
      by (auto simp: run_action_def actionAwakeActive_def nb_frame_def)
  qed (use assms in \<open>auto simp: run_action_def actionIsInitializedError_def actionConnect_def actionIsAttachedError_def
      actionIsIpConnectedError_def actionIsConnectedConnected_def actionIsConnectedError_def nb_base_def\<close>)
qed

lemma condition_total:
  assumes "nb_base D x"
  shows "\<exists>f b y. nb_condition D c = Some f \<and> f e x = Some (b, y) \<and> nb_base D y
    \<and> ed_events (nb_disp y) = ed_events (nb_disp x)"
proof -
  have "nb_base D (snd (dev_call g x)) \<and> ed_events (nb_disp (snd (dev_call g x))) = ed_events (nb_disp x)" for g :: "_ \<Rightarrow> bool \<times> _"
    using dev_call_frame [of x g] nb_base_frame [OF dev_call_frame assms] by (simp add: nb_frame_def)
  then show ?thesis
    using assms
    by (cases c) (simp_all add: actionIsInitialized_def actionIsAttached_def actionIsIpConnected_def prod_eq_iff)
qed

text \<open>\<open>node_live D e n S\<close>: running the node \<open>n\<close> returns, and ends by entering a state of \<open>S\<close>.\<close>

definition node_live :: "'w devices \<Rightarrow> StmEvent \<Rightarrow> nb_node \<Rightarrow> nb_state set \<Rightarrow> 'm itself \<Rightarrow> bool" where
  "node_live D e n S _ \<longleftrightarrow> (\<forall>x :: ('w, 'm) nb. nb_base D x \<longrightarrow>
     (\<exists>y. run_node (nb_view D) (nb_graph D) n e x = Some (setEventState Handled e, y) \<and> nb_live D y
        \<and> as_currentState (nb_stm y) \<in> Some ` S \<and> ed_events (nb_disp y) = ed_events (nb_disp x)))"

lemma node_live_state: "node_live D e (NState s) {s} T"
  using enter_live unfolding node_live_def run_node_state by blast

lemma node_live_transition:
  fixes D :: "'w devices" and T :: "'m itself"
  assumes "nb_target t = Some n" and "node_live D e n S T"
  shows "node_live D e (NTransition t) S T"
  unfolding node_live_def
proof (intro allI impI)
  fix x :: "('w, 'm) nb" assume b: "nb_base D x"
  obtain r x1 where x1: "run_action (nb_trAction D t) e x = Some (r, x1)" "nb_base D x1"
    "ed_events (nb_disp x1) = ed_events (nb_disp x)"
    using trAction_total [OF b] by blast
  obtain y where "run_node (nb_view D) (nb_graph D) n e x1 = Some (setEventState Handled e, y)" "nb_live D y"
    "as_currentState (nb_stm y) \<in> Some ` S" "ed_events (nb_disp y) = ed_events (nb_disp x1)"
    using assms(2) x1(2) unfolding node_live_def by blast
  then show "\<exists>y. run_node (nb_view D) (nb_graph D) (NTransition t) e x = Some (setEventState Handled e, y)
      \<and> nb_live D y \<and> as_currentState (nb_stm y) \<in> Some ` S \<and> ed_events (nb_disp y) = ed_events (nb_disp x)"
    using x1 assms(1) by (simp add: run_node_transition)
qed

lemma node_live_guard:
  fixes D :: "'w devices" and T :: "'m itself"
  assumes "node_live D e (NTransition (fst (nb_targets c))) S T" and "node_live D e (NTransition (snd (nb_targets c))) S' T"
  shows "node_live D e (NGuard c) (S \<union> S') T"
  unfolding node_live_def
proof (intro allI impI)
  fix x :: "('w, 'm) nb" assume b: "nb_base D x"
  obtain f r x1 where x1: "nb_condition D c = Some f" "f e x = Some (r, x1)" "nb_base D x1"
    "ed_events (nb_disp x1) = ed_events (nb_disp x)"
    using condition_total [OF b] by blast
  let ?t = "if r then fst (nb_targets c) else snd (nb_targets c)"
  have "node_live D e (NTransition ?t) (if r then S else S') T" using assms by simp
  then obtain y where "run_node (nb_view D) (nb_graph D) (NTransition ?t) e x1 = Some (setEventState Handled e, y)" "nb_live D y"
    "as_currentState (nb_stm y) \<in> Some ` (if r then S else S')" "ed_events (nb_disp y) = ed_events (nb_disp x1)"
    using x1(3) unfolding node_live_def by blast
  then show "\<exists>y. run_node (nb_view D) (nb_graph D) (NGuard c) e x = Some (setEventState Handled e, y)
      \<and> nb_live D y \<and> as_currentState (nb_stm y) \<in> Some ` (S \<union> S') \<and> ed_events (nb_disp y) = ed_events (nb_disp x)"
    using x1 by (cases r) (auto simp: run_node_guard)
qed

text \<open>The states that a transition can end in.\<close>

fun nb_ends :: "nb_transition \<Rightarrow> nb_state set" where
  "nb_ends m_initialize = {m_Disconnected, m_Error}"
| "nb_ends m_initialTimeout = {m_Disconnected, m_Error}"
| "nb_ends m_connect = {m_WaitForConnect, m_Error, m_WaitForAttach}"
| "nb_ends m_isAttachedIpConnect = {m_WaitForConnect, m_Error}"
| "nb_ends t = {s. nb_target t = Some (NState s)}"

lemma trigger_live: "node_live D e (NTransition t) (nb_ends t) T"
proof -
  have s: "node_live D e (NTransition t) {s} T" if "nb_target t = Some (NState s)" for t s
    using node_live_transition [OF that node_live_state] .
  have init: "node_live D e (NGuard m_isInitialized) ({m_Disconnected} \<union> {m_Error}) T"
    by (rule node_live_guard; rule s; simp)
  have ip: "node_live D e (NGuard m_isIpConnected) ({m_WaitForConnect} \<union> {m_Error}) T"
    by (rule node_live_guard; rule s; simp)
  have ipc: "node_live D e (NTransition m_isAttachedIpConnect) ({m_WaitForConnect} \<union> {m_Error}) T"
    by (rule node_live_transition [OF _ ip]) simp
  have att: "node_live D e (NGuard m_isAttached) (({m_WaitForConnect} \<union> {m_Error}) \<union> {m_WaitForAttach}) T"
    using ipc s [of m_isNotAttached m_WaitForAttach] by (intro node_live_guard) simp_all
  show ?thesis
    using node_live_transition [OF _ init, of m_initialize] node_live_transition [OF _ init, of m_initialTimeout]
      node_live_transition [OF _ att, of m_connect] ipc s
    by (cases t) (simp_all add: insert_commute)
qed

text \<open>
  The diagram of the machine: \<open>nb_edge s t s'\<close> if an event of type \<open>t\<close> may take the machine from \<open>s\<close>
  to \<open>s'\<close>. The choices on the way decide between the edges with the same event.
\<close>

inductive nb_edge :: "nb_state \<Rightarrow> int \<Rightarrow> nb_state \<Rightarrow> bool" where
  initialized: "t \<in> {InitializeEvent, EvTimer} \<Longrightarrow> s \<in> {m_Disconnected, m_Error} \<Longrightarrow> nb_edge m_Initial t s"
| connect: "s \<in> {m_WaitForAttach, m_WaitForConnect, m_Error} \<Longrightarrow> nb_edge m_Disconnected ConnectEvent s"
| attached: "s \<in> {m_WaitForConnect, m_Error} \<Longrightarrow> nb_edge m_WaitForAttach AttachedEvent s"
| connected: "nb_edge m_WaitForConnect ConnectedEvent m_Connected"
| not_connected: "s \<in> {m_WaitForAttach, m_WaitForConnect} \<Longrightarrow> nb_edge s EvTimer m_Error"
| failed: "nb_edge m_Error ErrorDisconnectEvent m_Disconnected"
| restart: "t \<in> {ReInitializeEvent, EvTimer} \<Longrightarrow> nb_edge m_Error t m_Initial"
| disconnect: "nb_edge m_Connected DisconnectEvent m_Disconnected"
| sleep: "nb_edge m_Connected SleepEvent m_ConnectedSleep"
| wakeup: "nb_edge m_ConnectedSleep WakeupEvent m_Connected"
| awake: "nb_edge m_ConnectedSleep ConnectedAwakeEvent m_ConnectedAwake"
| asleep: "t \<in> {AwakeSleepEvent, EvTimer} \<Longrightarrow> nb_edge m_ConnectedAwake t m_ConnectedSleep"
| active: "nb_edge m_ConnectedAwake AwakeActiveEvent m_Connected"
| disconnected_sleep: "nb_edge m_Disconnected SleepEvent m_DisconnectedSleep"
| disconnected_wakeup: "nb_edge m_DisconnectedSleep WakeupEvent m_Disconnected"
| hibernate: "s \<in> {m_Connected, m_Disconnected} \<Longrightarrow> nb_edge s HibernateEvent m_DeepSleep"
| reinitialize: "nb_edge m_DeepSleep ReInitializeEvent m_Initial"

inductive_simps nb_edge_simps [simp]:
  "nb_edge m_Initial t s" "nb_edge m_Disconnected t s" "nb_edge m_Error t s" "nb_edge m_Connected t s"
  "nb_edge m_ConnectedSleep t s" "nb_edge m_ConnectedAwake t s" "nb_edge m_DeepSleep t s"
  "nb_edge m_DisconnectedSleep t s" "nb_edge m_WaitForAttach t s" "nb_edge m_WaitForConnect t s"

text \<open>The first transition of a state for an event has exactly the edges of the diagram.\<close>

lemma nb_find_transition:
  "(case List.find (\<lambda>t. nb_eventType t = ty) (nb_transitions s) of
      Some t \<Rightarrow> (\<forall>s'. s' \<in> nb_ends t \<longleftrightarrow> nb_edge s ty s')
    | None \<Rightarrow> (\<forall>s'. \<not> nb_edge s ty s'))"
  by (cases s) (auto simp: nb_events event_codes)

text \<open>One event: it is handled along an edge of the diagram, or ignored if there is none.\<close>

lemma handleEvent_edge:
  assumes "nb_base D x" and "as_currentState (nb_stm x) = Some s"
  shows "(\<exists>y s'. Stm_handleEvent (nb_view D) (nb_graph D) e x = Some (True, setEventState Handled e, y)
      \<and> nb_edge s (ev_type e) s' \<and> as_currentState (nb_stm y) = Some s' \<and> nb_live D y
      \<and> ed_events (nb_disp y) = ed_events (nb_disp x))
    \<or> (Stm_handleEvent (nb_view D) (nb_graph D) e x = Some (False, setEventState Ignored e, x)
      \<and> (\<nexists>s'. nb_edge s (ev_type e) s'))"
proof (cases "List.find (\<lambda>t. nb_eventType t = ev_type e) (nb_transitions s)")
  case None
  then show ?thesis
    using assms(2) nb_find_transition [of s "ev_type e"] by (simp add: Stm_handleEvent_def State_handleEvent_def)
next
  case (Some t)
  let ?e = "setEventState Accepted e"
  obtain y s' where y: "run_node (nb_view D) (nb_graph D) (NTransition t) ?e x = Some (setEventState Handled ?e, y)"
    "nb_live D y" "as_currentState (nb_stm y) = Some s'" "s' \<in> nb_ends t" "ed_events (nb_disp y) = ed_events (nb_disp x)"
    using trigger_live [of D ?e t] assms(1) unfolding node_live_def by blast
  have "nb_edge s (ev_type e) s'" using nb_find_transition [of s "ev_type e"] Some y(4) by simp
  moreover have "Stm_handleEvent (nb_view D) (nb_graph D) e x = Some (True, setEventState Handled e, y)"
    using assms(2) Some y(1) by (simp add: Stm_handleEvent_def State_handleEvent_def Transition_trigger_def setEventState_def)
  ultimately show ?thesis using y by blast
qed

text \<open>What the machine does with one event: it moves along an edge, or stays if there is none.\<close>

definition nb_move :: "nb_state \<Rightarrow> int \<Rightarrow> nb_state \<Rightarrow> bool" where
  "nb_move s t s' \<longleftrightarrow> nb_edge s t s' \<or> s' = s \<and> (\<nexists>u. nb_edge s t u)"

lemma nb_live_take:
  assumes "nb_live D x" and s: "as_currentState (nb_stm x) = Some s" and q: "sq_items (ed_events (nb_disp x)) = e # es"
    and t: "takeEvent (nb_disp x) = (ev, d)"
  shows "\<exists>b ev' y s'. Stm_handleEvent (nb_view D) (nb_graph D) ev (x\<lparr>nb_disp := d\<rparr>) = Some (b, ev', y) \<and> nb_live D y
    \<and> sq_items (ed_events (nb_disp y)) = es \<and> as_currentState (nb_stm y) = Some s' \<and> nb_move s (ev_type ev) s'"
proof -
  let ?x = "x\<lparr>nb_disp := d\<rparr>"
  note t = takeEvent_takes [OF q t]
  have ok: "nb_state_ok s x" using assms(1) s by (auto simp: nb_live_def)
  have b: "nb_base D ?x" using assms(1) by (simp add: nb_live_def nb_base_def)
  from handleEvent_edge [of D ?x s ev] b s(1) consider
      (handled) y s' where "Stm_handleEvent (nb_view D) (nb_graph D) ev ?x = Some (True, setEventState Handled ev, y)"
        "nb_live D y" "ed_events (nb_disp y) = ed_events d" "as_currentState (nb_stm y) = Some s'" "nb_edge s (ev_type ev) s'"
    | (ignored) "Stm_handleEvent (nb_view D) (nb_graph D) ev ?x = Some (False, setEventState Ignored ev, ?x)"
        "\<nexists>s'. nb_edge s (ev_type ev) s'"
    by auto
  then show ?thesis
  proof cases
    case handled
    then have "sq_items (ed_events (nb_disp y)) = es" "nb_move s (ev_type ev) s'" using t(2) by (simp_all add: nb_move_def)
    then show ?thesis using handled(1,2,4) by blast
  next
    case ignored
    have "nb_state_ok s ?x"
    proof (cases "s = m_Error")
      case True
      then have "ev_type e \<notin> {ErrorDisconnectEvent, ReInitializeEvent}" using ignored(2) t by auto
      then have "error_events ?x = error_events x" using q t by (simp add: error_events_def)
      then show ?thesis using True ok by (simp add: timer_armed_def split: if_splits)
    qed (use ok in \<open>cases s; simp add: timer_armed_def\<close>)
    then have "nb_live D ?x" using b s(1) by (simp add: nb_live_def)
    then show ?thesis using ignored s t unfolding nb_move_def by auto
  qed
qed

interpretation nb: stm_running "nb_view D" "nb_graph D" "nb_live D" nb_move for D :: "'w devices"
proof
  fix x :: "('w, 'm) nb"
  assume "nb_live D x"
  then show "\<exists>s. as_currentState (vw_stm (nb_view D) x) = Some s" by (auto simp: nb_live_def)
next
  fix x :: "('w, 'm) nb" and s e es ev d
  assume "nb_live D x" "as_currentState (vw_stm (nb_view D) x) = Some s"
    "sq_items (ed_events (vw_disp (nb_view D) x)) = e # es" "takeEvent (vw_disp (nb_view D) x) = (ev, d)"
  then show "\<exists>b ev' x' s'. Stm_handleEvent (nb_view D) (nb_graph D) ev (vw_on_disp (nb_view D) (\<lambda>_. d) x) = Some (b, ev', x')
      \<and> nb_live D x' \<and> sq_items (ed_events (vw_disp (nb_view D) x')) = es
      \<and> as_currentState (vw_stm (nb_view D) x') = Some s' \<and> nb_move s (ev_type ev) s'"
    unfolding nb_view_simps by (rule nb_live_take)
qed

subsection \<open>Dispatching\<close>

lemma checkTimeout_live:
  assumes "nb_live D x"
  shows "nb_live D (checkTimeout (nb_view D) x)"
proof -
  obtain t where t: "as_stateTimeout (nb_stm x) = Some t" using assms by (auto simp: nb_live_def nb_base_def)
  obtain clk y where c: "sn_clock (dv_platform D) x = (clk, y)" by force
  have f: "nb_frame x y" using sn_clock_frame [of x "dv_platform D"] c by simp
  note y = nb_live_frame [OF f assms]
  define z where "z = nb_disp_update (pushEvent (StmEvent_new EvTimer)) y"
  have z: "nb_base D z" using y by (simp add: z_def nb_live_def nb_base_def)
  obtain clk' w where c': "sn_clock (dv_platform D) z = (clk', w)" by force
  have f': "nb_frame z w" using sn_clock_frame [of z "dv_platform D"] c' by simp
  have e: "checkTimeout (nb_view D) x = (if tm_valid t then if tm_remaining clk t = 0
      then startStateTimer (nb_view D) (tm_expired clk' t) t w else y else x)"
    using t by (simp add: checkTimeout_def c c' flip: z_def)
  show ?thesis
  proof (cases "tm_valid t \<and> tm_remaining clk t = 0")
    case True
    define ms where "ms = tm_expired clk' t"
    have ms: "0 \<le> ms" by (simp add: ms_def tm_expired_def to_ulong_def ulong_mod_def)
    have "as_stateTimeout (nb_stm w) = Some t" using t f f' by (simp add: nb_frame_def z_def)
    then have e: "checkTimeout (nb_view D) x = setTimeout (nb_view D) ms w"
      using True e by (simp add: setTimeout_def ms_def)
    from setTimeout_armed [OF nb_base_frame [OF f' z] ms]
    obtain u where u: "checkTimeout (nb_view D) x = u" "nb_base D u" "timer_armed u"
      "as_currentState (nb_stm u) = as_currentState (nb_stm w)" "nb_disp u = nb_disp w" "nb_initialized u = nb_initialized w"
      unfolding e by blast
    obtain s where s: "as_currentState (nb_stm y) = Some s" "nb_state_ok s y" using y by (auto simp: nb_live_def)
    have arm: "timer_armed y" using t f True by (simp add: nb_frame_def timer_armed_def)
    have "nb_state_ok s u"
      using s(2) u f' arm by (cases s) (auto simp: nb_frame_def z_def error_events_def pushEvent_def sq_append_def split: if_splits)
    then show ?thesis using u s f' by (auto simp: nb_live_def nb_frame_def z_def)
  qed (use e y assms in auto)
qed

lemma movePending_live:
  assumes "nb_live D x" and "sq_items (ed_events (nb_disp x)) = []"
  shows "nb_live D (nb_disp_update movePending x)"
proof -
  have "error_events (nb_disp_update movePending x) = error_events x"
    using assms(2) by (simp add: error_events_def movePending_def sq_clear_def)
  then have "nb_state_ok s (nb_disp_update movePending x) = nb_state_ok s x" for s
    by (cases s) (simp_all add: timer_armed_def)
  then show ?thesis using assms(1) by (simp add: nb_live_def nb_base_def)
qed

text \<open>The events that a dispatch handles: the queue, and a timeout behind it.\<close>

lemma nb_dispatch_live:
  assumes "nb_live D x" and "as_currentState (nb_stm x) = Some s"
  shows "\<exists>y s'. nb_dispatch D x = Some y \<and> nb_live D y \<and> as_currentState (nb_stm y) = Some s'
    \<and> moves nb_move s (map ev_type (sq_items (ed_events (nb_disp (checkTimeout (nb_view D) x))))) s'
    \<and> sq_items (ed_pendingEvents (nb_disp y)) = []"
proof -
  obtain z s' where z: "nb_dispatch D x = Some (nb_disp_update movePending z)" "nb_live D z"
    "sq_items (ed_events (nb_disp z)) = []" "as_currentState (nb_stm z) = Some s'"
    "moves nb_move s (map ev_type (sq_items (ed_events (nb_disp (checkTimeout (nb_view D) x))))) s'"
    using nb.dispatch_returns [of D x s] checkTimeout_live [OF assms(1)] assms(2) unfolding nb_dispatch_def nb_view_simps by blast
  let ?y = "nb_disp_update movePending z"
  have "as_currentState (nb_stm ?y) = Some s'" "sq_items (ed_pendingEvents (nb_disp ?y)) = []"
    using z(4) by (simp_all add: movePending_def sq_clear_def)
  then show ?thesis using z movePending_live [OF z(2,3)] by blast
qed

lemma stm_postEvent_live:
  assumes "nb_live D x"
  shows "nb_live D (stm_postEvent t x)"
proof -
  have "nb_state_ok s x \<Longrightarrow> nb_state_ok s (stm_postEvent t x)" for s
    by (cases s) (auto simp: timer_armed_def error_events_def stm_postEvent_def postPendingEvent_def sq_append_def)
  then show ?thesis using assms by (auto simp: nb_live_def nb_base_def stm_postEvent_def)
qed

lemma pushEvent_live:
  assumes "nb_live D x"
  shows "nb_live D (nb_disp_update (pushEvent e) x)"
proof -
  have "nb_state_ok s x \<Longrightarrow> nb_state_ok s (nb_disp_update (pushEvent e) x)" for s
    by (cases s) (auto simp: timer_armed_def error_events_def pushEvent_def sq_append_def)
  then show ?thesis using assms by (auto simp: nb_live_def nb_base_def)
qed

end
