(* ===== verification/NbiotRuns.thy ===== *)
theory NbiotRuns
  imports NbiotLive
begin

text \<open>
  The runs of the connection state machine: what can be reached from its start, that it is never
  stuck, and what it does on the way to a connection.
\<close>

subsection \<open>Reachable states\<close>

text \<open>
  The machine is started, then it gets events, and the rest of the program works on the rest of the
  state in between.
\<close>

inductive nb_reachable :: "'w devices \<Rightarrow> ('w, 'm) nb \<Rightarrow> bool" for D where
  start: "nb_stm x = astm_new (Some tm_new) \<Longrightarrow> nb_disp x = evdisp_new \<Longrightarrow> length (sn_sendbuf x) = 200
    \<Longrightarrow> startStateMachine D (setUpStateMachine x) = Some y \<Longrightarrow> nb_reachable D y"
| send: "nb_reachable D x \<Longrightarrow> stm_sendEvent D t x = Some y \<Longrightarrow> nb_reachable D y"
| post: "nb_reachable D x \<Longrightarrow> nb_reachable D (stm_postEvent t x)"
| dispatched: "nb_reachable D x \<Longrightarrow> nb_dispatch D x = Some y \<Longrightarrow> nb_reachable D y"
| outside: "nb_reachable D x \<Longrightarrow> nb_stm y = nb_stm x \<Longrightarrow> nb_disp y = nb_disp x
    \<Longrightarrow> nb_initialized y = nb_initialized x \<Longrightarrow> length (sn_sendbuf y) = 200 \<Longrightarrow> nb_reachable D y"

lemma nb_live_current: "nb_live D x \<Longrightarrow> \<exists>s. as_currentState (nb_stm x) = Some s"
  by (auto simp: nb_live_def)

lemma nb_live_dispatch: "nb_live D x \<Longrightarrow> nb_dispatch D x = Some y \<Longrightarrow> nb_live D y"
  using nb_dispatch_live nb_live_current by (metis option.inject)

lemma startStateMachine_live:
  fixes x :: "('w, 'm) nb"
  assumes "nb_stm x = astm_new (Some tm_new)" and "length (sn_sendbuf x) = 200" and "clock_running D"
  shows "\<exists>y. startStateMachine D (setUpStateMachine x) = Some y \<and> nb_live D y"
proof -
  define x1 where "x1 = setUpStateMachine x"
  have x1: "nb_stm x1 = (astm_new (Some tm_new))\<lparr>as_initialState := Some m_Initial\<rparr>" "length (sn_sendbuf x1) = 200"
    using assms by (simp_all add: x1_def setUpStateMachine_def setInitialState_def)
  then have "nb_base D x1" using assms(3) by (simp add: nb_base_def astm_new_def)
  from enter_live [OF this, of m_Initial "StmEvent_new EvInvalid"] obtain x2 where
    x2: "State_enter (nb_view D) (nb_graph D) m_Initial (StmEvent_new EvInvalid) x1
        = Some (setEventState Handled (StmEvent_new EvInvalid), x2)" "nb_live D x2" by blast
  define x3 where "x3 = nb_disp_update (pushEvent (setCustomEventType InitializeEvent (setEventState Handled (StmEvent_new EvInvalid)))) x2"
  obtain y where y: "nb_dispatch D x3 = Some y" "nb_live D y"
    using nb_dispatch_live pushEvent_live [OF x2(2)] nb_live_current unfolding x3_def by blast
  have "nb_frame y (y\<lparr>nb_eventLoopLock := False\<rparr>)" by (simp add: nb_frame_def)
  from nb_live_frame [OF this y(2)] show ?thesis
    using x1 x2 y by (simp add: startStateMachine_def x3_def flip: x1_def)
qed

lemma nb_reachable_live:
  assumes "nb_reachable D x" and "clock_running D"
  shows "nb_live D x"
  using assms(1)
proof induction
  case (start x y)
  then show ?case using startStateMachine_live [OF start(1,3) assms(2)] by auto
next
  case (send x t y)
  then show ?case using pushEvent_live nb_live_dispatch unfolding stm_sendEvent_def by blast
next
  case (post x t)
  then show ?case using stm_postEvent_live by blast
next
  case (dispatched x y)
  then show ?case using nb_live_dispatch by blast
next
  case (outside x y)
  have "nb_state_ok s y = nb_state_ok s x" for s
    using outside by (cases s) (simp_all add: timer_armed_def error_events_def)
  then show ?case using outside by (auto simp: nb_live_def nb_base_def)
qed

subsection \<open>Sending one event\<close>

text \<open>An event that finds an empty queue and no timeout: exactly its transition is run.\<close>

lemma checkTimeout_unarmed: "\<not> timer_armed x \<Longrightarrow> checkTimeout (nb_view D) x = x"
  by (auto simp: checkTimeout_def timer_armed_def split: option.splits)

definition with_id :: "int \<Rightarrow> ('w, 'm) nb \<Rightarrow> ('w, 'm) nb" where
  "with_id i x = x\<lparr>nb_disp := (nb_disp x)\<lparr>ed_eventId := i\<rparr>\<rparr>"

lemma send_take:
  assumes "sq_items (ed_events d) = []" and "CustomMin \<le> ty" and "ty \<le> CustomMax"
  shows "\<exists>ev i. takeEvent (pushEvent (setCustomEventType ty (StmEvent_new EvInvalid)) d) = (ev, d\<lparr>ed_eventId := i\<rparr>)
    \<and> ev_type ev = ty"
  using assms
  by (cases d; cases "ed_events d")
    (auto simp: takeEvent_def pushEvent_def sq_append_def sq_take_front_def setCustomEventType_def StmEvent_new_def
      setEventState_def Let_def)

lemma stm_sendEvent_single:
  fixes x :: "('w, 'm) nb"
  assumes "nb_live D x" and s: "as_currentState (nb_stm x) = Some s" and q: "sq_items (ed_events (nb_disp x)) = []"
    and ty: "CustomMin \<le> ty" "ty \<le> CustomMax" and unarmed: "\<not> timer_armed x"
    and t: "List.find (\<lambda>t. nb_eventType t = ty) (nb_transitions s) = Some t"
  shows "\<exists>e i y. run_node (nb_view D) (nb_graph D) (NTransition t) e (with_id i x) = Some (setEventState Handled e, y)
    \<and> ev_type e = ty \<and> nb_live D y \<and> as_currentState (nb_stm y) \<in> Some ` nb_ends t
    \<and> stm_sendEvent D ty x = Some (nb_disp_update movePending y)"
proof -
  let ?push = "pushEvent (setCustomEventType ty (StmEvent_new EvInvalid))"
  define x1 where "x1 = nb_disp_update ?push x"
  obtain ev i where e: "takeEvent (?push (nb_disp x)) = (ev, (nb_disp x)\<lparr>ed_eventId := i\<rparr>)" "ev_type ev = ty"
    using send_take [OF q ty] by blast
  define e' where "e' = setEventState Accepted ev"
  have b: "nb_base D (with_id i x)" using assms(1) by (simp add: with_id_def nb_live_def nb_base_def)
  obtain y where y: "run_node (nb_view D) (nb_graph D) (NTransition t) e' (with_id i x) = Some (setEventState Handled e', y)"
    "nb_live D y" "as_currentState (nb_stm y) \<in> Some ` nb_ends t" "sq_items (ed_events (nb_disp y)) = []"
    using trigger_live [of D e' t] b q unfolding node_live_def with_id_def by fastforce
  have "Stm_handleEvent (nb_view D) (nb_graph D) ev (with_id i x) = Some (True, setEventState Handled e', y)"
    using s t e y(1) by (simp add: Stm_handleEvent_def State_handleEvent_def Transition_trigger_def e'_def with_id_def)
  moreover have "sq_count (ed_events (nb_disp x1)) = 1"
    using q by (simp add: x1_def pushEvent_def sq_append_def sq_count_def)
  moreover have "nb_disp_update (\<lambda>_. (nb_disp x)\<lparr>ed_eventId := i\<rparr>) x1 = with_id i x"
    by (simp add: x1_def with_id_def)
  moreover have "handle_events (nb_view D) (nb_graph D) y = Some y"
    using y(4) by (subst handle_events.simps) (simp add: sq_count_def)
  ultimately have "handle_events (nb_view D) (nb_graph D) x1 = Some y"
    using e by (subst handle_events.simps) (simp add: x1_def)
  moreover have "checkTimeout (nb_view D) x1 = x1"
    using unarmed by (intro checkTimeout_unarmed) (simp add: x1_def timer_armed_def)
  ultimately have "stm_sendEvent D ty x = Some (nb_disp_update movePending y)"
    by (simp add: stm_sendEvent_def nb_dispatch_def dispatch_def x1_def)
  then show ?thesis using y e by (intro exI [of _ e'] exI [of _ i] exI [of _ y]) (simp add: e'_def setEventState_def)
qed

subsection \<open>Connecting\<close>

text \<open>The CONNECT packet of a login, and the request for it.\<close>

definition login_wire :: "byte \<Rightarrow> ('w, 'm) nb \<Rightarrow> byte list" where
  "login_wire c x = string_wire ([msg_code CONNECT, flags_all (flags_zero\<lparr>fl_cleanSession := c,
     fl_will := cd_willFlag connectData_initializer\<rparr>), 1] @ be16 (uint (word_of_int (nb_keepAliveInterval x) :: u16)))
     (nb_authentication x)"

definition login_ok :: "('w, 'm) nb \<Rightarrow> bool" where
  "login_ok x \<longleftrightarrow> 0 \<notin> set (nb_authentication x) \<and> length (nb_authentication x) \<le> 194"

lemma mqttConnect_request:
  fixes x :: "('w, 'm) nb"
  assumes "\<not> sn_isconnected x" and "login_ok x" and "length (sn_sendbuf x) = 200"
  shows "mqttConnect c x = Some (True, loopConnect (int (length (nb_authentication x)) + 6)
      (x\<lparr>sn_duration := word_of_int (nb_keepAliveInterval x), sn_cleansession := (c \<noteq> 0),
         sn_sendbuf := login_wire c x @ drop (length (login_wire c x)) (sn_sendbuf x)\<rparr>))"
proof -
  define d where "d = connectData_initializer
      \<lparr>cd_duration := word_of_int (nb_keepAliveInterval x), cd_cleansession := c,
       cd_clientID := (cd_clientID connectData_initializer)\<lparr>ms_cstring := Some (nb_authentication x @ [0])\<rparr>\<rparr>"
  have h: "ms_holds (cd_clientID d) (nb_authentication x)"
    using assms(2) by (simp add: d_def ms_holds_def login_ok_def connectData_initializer_def)
  have l: "length (nb_authentication x) \<le> 249" and n: "MAX_PACKET_SIZE \<le> int (length (sn_sendbuf x))"
    using assms(2,3) by (simp_all add: login_ok_def sn_consts)
  have ser: "MQTTSNSerialize_connect (sn_sendbuf x) MAX_PACKET_SIZE d
      = Some (int (length (nb_authentication x)) + 6, login_wire c x @ drop (length (login_wire c x)) (sn_sendbuf x))"
    using connect_fits [OF h l n] assms(2) by (simp add: login_wire_def d_def login_ok_def sn_consts)
  have "\<not> sn_isconnected (x\<lparr>sn_duration := cd_duration d, sn_cleansession := cd_cleansession d \<noteq> 0\<rparr>)"
    using assms(1) by simp
  then have "sn_connect d x = Some (SUCCESS, loopConnect (int (length (nb_authentication x)) + 6)
      (x\<lparr>sn_duration := cd_duration d, sn_cleansession := (cd_cleansession d \<noteq> 0),
         sn_sendbuf := login_wire c x @ drop (length (login_wire c x)) (sn_sendbuf x)\<rparr>))"
    using assms(1) ser by (simp add: sn_connect_def)
  then show ?thesis
    using assms(1) by (simp add: mqttConnect_def sn_consts flip: d_def) (simp add: d_def)
qed

text \<open>What the network answers when the socket has been opened.\<close>

definition ip_answer :: "'w devices \<Rightarrow> ('w, 'm) nb \<Rightarrow> bool" where
  "ip_answer D x = fst (nw_isConnected D (snd (nw_isConnected D
     (if nb_gateway x \<noteq> [] then snd (nw_connect D (nb_gateway x @ [0]) (nb_mqttPort x) (ls_env x)) else ls_env x))))"

text \<open>
  Opening the socket: the network is asked twice whether it is connected, and the second answer
  decides.
\<close>

lemma dev_call_eq: "dev_call f x = (fst (f (ls_env x)), x\<lparr>ls_env := snd (f (ls_env x))\<rparr>)"
  by (simp add: dev_call_def split_def Let_def)

lemma ip_node:
  fixes x :: "('w, 'm) nb"
  assumes b: "nb_base D x"
  obtains y where "nb_frame (x\<lparr>nb_modemRestartOnError := 0\<rparr>) y" and "nb_errno y = nb_errno x"
    and "nb_cleanSession y = nb_cleanSession x" and "sn_isconnected y = sn_isconnected x"
    and "nb_authentication y = nb_authentication x" and "nb_keepAliveInterval y = nb_keepAliveInterval x"
    and "sn_sendbuf y = sn_sendbuf x"
    and "run_node (nb_view D) (nb_graph D) (NTransition m_isAttachedIpConnect) e x
      = run_node (nb_view D) (nb_graph D) (NTransition
          (if fst (nw_isConnected D (ls_env y)) then m_waitConnectIsConnected else m_isIpConnectedError)) e
          (snd (dev_call (nw_isConnected D) y))"
    and "fst (nw_isConnected D (ls_env y)) = ip_answer D x"
proof -
  define x1 where "x1 = x\<lparr>nb_modemRestartOnError := 0, nb_waitTimer := tm_clear (nb_waitTimer x)\<rparr>"
  define x2 where "x2 = (if nb_gateway x1 \<noteq> [] then snd (dev_call (nw_connect D (nb_gateway x1 @ [0]) (nb_mqttPort x1)) x1) else x1)"
  define y where "y = snd (dev_call (nw_isConnected D) x2)"
  have run: "run_node (nb_view D) (nb_graph D) (NTransition m_isAttachedIpConnect) e x
      = run_node (nb_view D) (nb_graph D) (NTransition
          (if fst (nw_isConnected D (ls_env y)) then m_waitConnectIsConnected else m_isIpConnectedError)) e
          (snd (dev_call (nw_isConnected D) y))"
    by (simp add: run_node_transition [of _ _ m_isAttachedIpConnect] run_node_guard run_action_def
        actionIsAttachedIpConnect_def actionIsIpConnected_def Let_def dev_call_eq split_def y_def x2_def x1_def)
  show ?thesis
  proof (rule that [OF _ _ _ _ _ _ _ run])
  qed (simp_all add: y_def x2_def x1_def dev_call_eq nb_frame_def ip_answer_def)
qed

lemma setTimeout_eq:
  fixes x :: "('w, 'm) nb"
  assumes "nb_base D x"
  obtains t where "setTimeout (nb_view D) ms x =
    x\<lparr>ls_env := snd (pf_clock (dv_platform D) (ls_env x)), nb_stm := (nb_stm x)\<lparr>as_stateTimeout := t\<rparr>\<rparr>"
proof -
  obtain t where t: "as_stateTimeout (nb_stm x) = Some t" using assms by (auto simp: nb_base_def)
  then have "setTimeout (nb_view D) ms x = x\<lparr>ls_env := snd (pf_clock (dv_platform D) (ls_env x)),
      nb_stm := (nb_stm x)\<lparr>as_stateTimeout := Some (tm_start_for (fst (pf_clock (dv_platform D) (ls_env x))) ms t)\<rparr>\<rparr>"
    by (simp add: setTimeout_def startStateTimer_def sn_clock_def nb_stm_update_at [of "\<lambda>m. m\<lparr>as_stateTimeout := _\<rparr>"] split_def Let_def)
  then show thesis by (rule that)
qed

text \<open>Entering one of the waiting states changes the machine and the environment only.\<close>

lemma enter_waiting:
  fixes x :: "('w, 'm) nb"
  assumes "nb_base D x" and "s = m_WaitForAttach \<or> s = m_WaitForConnect"
  obtains m w where "State_enter (nb_view D) (nb_graph D) s e x = Some (setEventState Handled e, x\<lparr>ls_env := w, nb_stm := m\<rparr>)"
    and "as_currentState m = Some s"
proof -
  have b: "nb_base D (nb_entered s x)" using assms(1) by simp
  obtain t where "setTimeout (nb_view D) timeoutOneMinute (nb_entered s x) = (nb_entered s x)
      \<lparr>ls_env := snd (pf_clock (dv_platform D) (ls_env (nb_entered s x))), nb_stm := (nb_stm (nb_entered s x))\<lparr>as_stateTimeout := t\<rparr>\<rparr>"
    using setTimeout_eq [OF b] .
  then have "State_enter (nb_view D) (nb_graph D) s e x = Some (setEventState Handled e,
      x\<lparr>ls_env := snd (pf_clock (dv_platform D) (ls_env x)), nb_stm := (nb_stm (nb_entered s x))\<lparr>as_stateTimeout := t\<rparr>\<rparr>)"
    using assms(2)
    by (auto simp: State_enter_nb run_action_def actionWaitForAttachEntry_def actionWaitForConnectEntry_def nb_entered_def)
  then show thesis by (rule that) simp
qed

text \<open>The outcome of the socket: a request for a session, or the error state.\<close>

lemma request_node:
  fixes x :: "('w, 'm) nb"
  assumes b: "nb_base D x" and "\<not> sn_isconnected x" and "login_ok x"
  obtains y where "run_node (nb_view D) (nb_graph D) (NTransition m_waitConnectIsConnected) e x = Some (setEventState Handled e, y)"
    and "as_currentState (nb_stm y) = Some m_WaitForConnect" and "nb_errno y = nb_errno x"
    and "Some LI_Connect \<in> set (sq_items (nl_clientList (ls_loop y)))"
    and "client_ctrl LI_Connect y = int (length (nb_authentication x)) + 6"
    and "sn_sendbuf y = login_wire (nb_cleanSession x) x @ drop (length (login_wire (nb_cleanSession x) x)) (sn_sendbuf x)"
    and "sn_cleansession y = (nb_cleanSession x \<noteq> 0)" and "nb_cleanSession y = nb_cleanSession x"
proof -
  define x1 where "x1 = loopConnect (int (length (nb_authentication x)) + 6)
      (x\<lparr>sn_duration := word_of_int (nb_keepAliveInterval x), sn_cleansession := (nb_cleanSession x \<noteq> 0),
         sn_sendbuf := login_wire (nb_cleanSession x) x @ drop (length (login_wire (nb_cleanSession x) x)) (sn_sendbuf x)\<rparr>)"
  have c: "mqttConnect (nb_cleanSession x) x = Some (True, x1)"
    using mqttConnect_request [OF assms(2,3)] b by (simp add: nb_base_def x1_def)
  have "nb_base D x1"
    using trAction_total [OF b, of m_waitConnectIsConnected e] c by (auto simp: run_action_def actionWaitConnectIsConnected_def)
  then obtain m w where "State_enter (nb_view D) (nb_graph D) m_WaitForConnect e x1
      = Some (setEventState Handled e, x1\<lparr>ls_env := w, nb_stm := m\<rparr>)" and m: "as_currentState m = Some m_WaitForConnect"
    using enter_waiting by blast
  then have "run_node (nb_view D) (nb_graph D) (NTransition m_waitConnectIsConnected) e x
      = Some (setEventState Handled e, x1\<lparr>ls_env := w, nb_stm := m\<rparr>)"
    using c by (simp add: run_node_transition run_node_state run_action_def actionWaitConnectIsConnected_def)
  then show thesis
    by (rule that)
      (simp_all add: m x1_def loopConnect_def register_client_def client_setTime_def lc_setValue_def
        registerLoopClient_def sq_append_def client_ctrl_def)
qed

text \<open>The entry of the error state restarts the modem, asks for the way out, or waits.\<close>

lemma error_entry:
  fixes x :: "('w, 'm) nb"
  assumes "nb_base D x"
  obtains y where "actionErrorEntry D e x = Some (False, y)"
    and "as_currentState (nb_stm y) = as_currentState (nb_stm x)" and "nb_errno y = nb_errno x"
    and "nb_cleanSession y = nb_cleanSession x"
    and "nb_initialized x \<longrightarrow> (if restartModemThreshold \<le> unat (nb_modemRestartOnError x)
      then nb_modemRestartOnError y = 0 \<and> ls_env y = snd (md_reboot D (ls_env x))
        \<and> nb_disp y = postPendingEvent (setCustomEventType ReInitializeEvent (StmEvent_new EvInvalid)) (nb_disp x)
      else nb_modemRestartOnError y = nb_modemRestartOnError x
        \<and> nb_disp y = postPendingEvent (setCustomEventType ErrorDisconnectEvent (StmEvent_new EvInvalid)) (nb_disp x))"
proof -
  obtain t where t: "setTimeout (nb_view D) timeoutOneMinute x = x
      \<lparr>ls_env := snd (pf_clock (dv_platform D) (ls_env x)), nb_stm := (nb_stm x)\<lparr>as_stateTimeout := t\<rparr>\<rparr>"
    using setTimeout_eq [OF assms] .
  define y where "y = (if nb_initialized x
      then (if restartModemThreshold \<le> unat (nb_modemRestartOnError x)
            then stm_postEvent ReInitializeEvent (snd (dev_call (md_reboot D) (x\<lparr>nb_modemRestartOnError := 0\<rparr>)))
            else stm_postEvent ErrorDisconnectEvent x)
      else setTimeout (nb_view D) timeoutOneMinute x)"
  have y: "as_currentState (nb_stm y) = as_currentState (nb_stm x)" "nb_errno y = nb_errno x"
    "nb_cleanSession y = nb_cleanSession x"
    by (simp_all add: y_def t dev_call_eq stm_postEvent_def)
  have "\<exists>n. actionErrorEntry D e x = Some (False, notify n y)"
    unfolding actionErrorEntry_def Let_def split_def y_def by (rule exI) (rule refl)
  then obtain n where "actionErrorEntry D e x = Some (False, notify n y)" ..
  then show thesis by (rule that) (auto simp: y notify_def y_def t dev_call_eq stm_postEvent_def)
qed

lemma no_ip_node:
  fixes x :: "('w, 'm) nb"
  assumes b: "nb_base D x"
  obtains y where "run_node (nb_view D) (nb_graph D) (NTransition m_isIpConnectedError) e x = Some (setEventState Handled e, y)"
    and "as_currentState (nb_stm y) = Some m_Error" and "nb_errno y = IpNotConnected"
    and "nb_cleanSession y = nb_cleanSession x"
proof -
  define x1 where "x1 = nb_entered m_Error (x\<lparr>nb_errno := IpNotConnected\<rparr>)"
  have "nb_base D (x\<lparr>nb_errno := IpNotConnected\<rparr>)" using b by (simp add: nb_base_def)
  then have "nb_base D x1" by (simp add: x1_def)
  then obtain y where y: "actionErrorEntry D e x1 = Some (False, y)" "as_currentState (nb_stm y) = as_currentState (nb_stm x1)"
    "nb_errno y = nb_errno x1" "nb_cleanSession y = nb_cleanSession x1"
    using error_entry by blast
  have "run_node (nb_view D) (nb_graph D) (NTransition m_isIpConnectedError) e x = Some (setEventState Handled e, y)"
    using y(1) by (simp add: run_node_transition run_node_state State_enter_nb run_action_def actionIsIpConnectedError_def x1_def)
  then show thesis by (rule that) (simp_all add: y, simp_all add: x1_def nb_entered_def)
qed

lemma wait_node:
  fixes x :: "('w, 'm) nb"
  assumes b: "nb_base D x"
  obtains y where "run_node (nb_view D) (nb_graph D) (NTransition m_isNotAttached) e x = Some (setEventState Handled e, y)"
    and "as_currentState (nb_stm y) = Some m_WaitForAttach" and "nb_errno y = nb_errno x"
    and "nb_cleanSession y = nb_cleanSession x" and "sn_isconnected y = sn_isconnected x"
    and "nb_authentication y = nb_authentication x"
    and "Some LI_Cgatt \<in> set (sq_items (nl_clientList (ls_loop y)))"
proof -
  obtain tm x1 where t: "sn_start_for (dv_platform D) timeoutOneMinute (nb_waitTimer x) x = (tm, x1)" by force
  define x2 where "x2 = doModemAttach (x1\<lparr>nb_waitTimer := tm\<rparr>)"
  have x1: "x1 = x\<lparr>ls_env := snd (pf_clock (dv_platform D) (ls_env x))\<rparr>"
    using t by (auto simp: sn_start_for_def sn_clock_def split_def Let_def)
  have a: "actionIsNotAttached D e x = Some (False, x2)" using t by (simp add: actionIsNotAttached_def x2_def)
  then have "nb_base D x2" using trAction_total [OF b, of m_isNotAttached e] by (auto simp: run_action_def)
  then obtain m w where "State_enter (nb_view D) (nb_graph D) m_WaitForAttach e x2
      = Some (setEventState Handled e, x2\<lparr>ls_env := w, nb_stm := m\<rparr>)" and m: "as_currentState m = Some m_WaitForAttach"
    using enter_waiting by blast
  then have "run_node (nb_view D) (nb_graph D) (NTransition m_isNotAttached) e x
      = Some (setEventState Handled e, x2\<lparr>ls_env := w, nb_stm := m\<rparr>)"
    using a by (simp add: run_node_transition run_node_state run_action_def)
  then show thesis
    by (rule that)
      (simp_all add: m x1 x2_def doModemAttach_def register_client_def client_setTime_def registerLoopClient_def sq_append_def)
qed

text \<open>The transition for \<open>ConnectEvent\<close>, up to the answer of the modem.\<close>

lemma connect_node:
  "run_node (nb_view D) (nb_graph D) (NTransition m_connect) e x =
     run_node (nb_view D) (nb_graph D) (NTransition
       (if fst (md_isAttached D (ls_env x)) then m_isAttachedIpConnect else m_isNotAttached)) e
       (x\<lparr>nb_errno := ErrSuccess, ls_env := snd (md_isAttached D (ls_env x))\<rparr>)"
  by (simp add: run_node_transition [of _ _ m_connect] run_node_guard run_action_def actionConnect_def
      actionIsAttached_def dev_call_eq)

lemma ip_answer_cong:
  "nb_gateway y = nb_gateway x \<Longrightarrow> nb_mqttPort y = nb_mqttPort x \<Longrightarrow> ls_env y = ls_env x \<Longrightarrow> ip_answer D y = ip_answer D x"
  by (simp add: ip_answer_def)

text \<open>Opening the socket, up to the state that it leads to.\<close>

lemma attached_node:
  fixes x :: "('w, 'm) nb"
  assumes b: "nb_base D x" and "\<not> sn_isconnected x" and "login_ok x"
  obtains y where "run_node (nb_view D) (nb_graph D) (NTransition m_isAttachedIpConnect) e x = Some (setEventState Handled e, y)"
    and "if ip_answer D x
      then as_currentState (nb_stm y) = Some m_WaitForConnect \<and> nb_errno y = nb_errno x
        \<and> Some LI_Connect \<in> set (sq_items (nl_clientList (ls_loop y)))
        \<and> client_ctrl LI_Connect y = int (length (nb_authentication x)) + 6
        \<and> sn_sendbuf y = login_wire (nb_cleanSession x) x @ drop (length (login_wire (nb_cleanSession x) x)) (sn_sendbuf x)
        \<and> sn_cleansession y = (nb_cleanSession x \<noteq> 0)
      else as_currentState (nb_stm y) = Some m_Error \<and> nb_errno y = IpNotConnected"
    and "nb_cleanSession y = nb_cleanSession x"
proof -
  obtain z where z: "nb_frame (x\<lparr>nb_modemRestartOnError := 0\<rparr>) z" "nb_errno z = nb_errno x"
    "nb_cleanSession z = nb_cleanSession x" "sn_isconnected z = sn_isconnected x"
    "nb_authentication z = nb_authentication x" "nb_keepAliveInterval z = nb_keepAliveInterval x"
    "sn_sendbuf z = sn_sendbuf x"
    and run: "run_node (nb_view D) (nb_graph D) (NTransition m_isAttachedIpConnect) e x
      = run_node (nb_view D) (nb_graph D) (NTransition
          (if fst (nw_isConnected D (ls_env z)) then m_waitConnectIsConnected else m_isIpConnectedError)) e
          (snd (dev_call (nw_isConnected D) z))"
    and ip: "fst (nw_isConnected D (ls_env z)) = ip_answer D x"
    using ip_node [OF b, of e] by blast
  define u where "u = snd (dev_call (nw_isConnected D) z)"
  have "nb_base D z" using z(1) b by (simp add: nb_base_def nb_frame_def)
  then have ub: "nb_base D u" by (simp add: u_def dev_call_eq nb_base_def)
  have u: "\<not> sn_isconnected u" "login_ok u" "nb_errno u = nb_errno x" "nb_cleanSession u = nb_cleanSession x"
    "nb_authentication u = nb_authentication x" "sn_sendbuf u = sn_sendbuf x" "login_wire c u = login_wire c x" for c
    using z assms(2,3) by (simp_all add: u_def dev_call_eq login_ok_def login_wire_def)
  show thesis
  proof (cases "ip_answer D x")
    case True
    from request_node [OF ub u(1,2)] obtain y where
      "run_node (nb_view D) (nb_graph D) (NTransition m_waitConnectIsConnected) e u = Some (setEventState Handled e, y)"
      "as_currentState (nb_stm y) = Some m_WaitForConnect" "nb_errno y = nb_errno u"
      "Some LI_Connect \<in> set (sq_items (nl_clientList (ls_loop y)))"
      "client_ctrl LI_Connect y = int (length (nb_authentication u)) + 6"
      "sn_sendbuf y = login_wire (nb_cleanSession u) u @ drop (length (login_wire (nb_cleanSession u) u)) (sn_sendbuf u)"
      "sn_cleansession y = (nb_cleanSession u \<noteq> 0)" "nb_cleanSession y = nb_cleanSession u" .
    then show thesis using that [of y] True run ip u by (simp flip: u_def)
  next
    case False
    from no_ip_node [OF ub] obtain y where
      "run_node (nb_view D) (nb_graph D) (NTransition m_isIpConnectedError) e u = Some (setEventState Handled e, y)"
      "as_currentState (nb_stm y) = Some m_Error" "nb_errno y = IpNotConnected" "nb_cleanSession y = nb_cleanSession u" .
    then show thesis using that [of y] False run ip u by (simp flip: u_def)
  qed
qed

lemma movePending_keeps [simp]:
  "nb_stm (nb_disp_update f x) = nb_stm x" "nb_errno (nb_disp_update f x) = nb_errno x"
  "ls_loop (nb_disp_update f x) = ls_loop x" "sn_sendbuf (nb_disp_update f x) = sn_sendbuf x"
  "client_ctrl c (nb_disp_update f x) = client_ctrl c x" "nb_cleanSession (nb_disp_update f x) = nb_cleanSession x"
  by (simp_all add: client_ctrl_def)

subsection \<open>A bench\<close>

text \<open>
  Devices for examples: the environment is the time in seconds, every command of the modem succeeds,
  and the parameter says whether it is attached to the network.
\<close>

definition bench_platform :: "nat platform" where
  "bench_platform = \<lparr>pf_clock = (\<lambda>w. (nt_new\<lparr>nt_timestamp := 5 + int w\<rparr>, w)), pf_write = (\<lambda>_ _ w. (True, w)),
     pf_read = (\<lambda>_ _ w. ((- 1, []), w))\<rparr>"

definition bench :: "bool \<Rightarrow> nat devices" where
  "bench attached = \<lparr>dv_platform = bench_platform, nw_connect = (\<lambda>_ _ w. (True, w)), nw_isConnected = Pair True,
     nw_disconnect = Pair True, md_reboot = Pair True, md_initialize = Pair True,
     md_getImsi = (\<lambda>_ w. ((True, [50]), w)), md_isAttached = Pair attached, md_attach = Pair True,
     md_switchModem = (\<lambda>_ w. (True, w))\<rparr>"

definition bench_new :: "nat nstm" where
  "bench_new = (nb_new 0 0 0)\<lparr>nb_authLogin := [49], nb_gateway := [49], nb_notifyHandler := True\<rparr>"

definition bench_run :: "bool \<Rightarrow> int list \<Rightarrow> nat nstm option" where
  "bench_run attached ts = fold (\<lambda>t x. Option.bind x (stm_sendEvent (bench attached) t)) ts
     (startStateMachine (bench attached) (setUpStateMachine bench_new))"

lemma bench_clock: "clock_running (bench b)"
  by (simp add: clock_running_def bench_def bench_platform_def nt_getMillis_def nt_new_def)

lemma bench_run_reachable: "bench_run b ts = Some x \<Longrightarrow> nb_reachable (bench b) x"
proof (induction ts arbitrary: x rule: rev_induct)
  case Nil
  have "nb_stm bench_new = astm_new (Some tm_new)" "nb_disp bench_new = evdisp_new" "length (sn_sendbuf bench_new) = 200"
    by (simp_all add: bench_new_def nb_new_def sn_new_def snsys.defs)
  with Nil show ?case by (auto simp: bench_run_def intro: nb_reachable.start)
next
  case (snoc t ts)
  then obtain y where "bench_run b ts = Some y" "stm_sendEvent (bench b) t y = Some x"
    by (auto simp: bench_run_def bind_eq_Some_conv)
  then show ?case using snoc.IH nb_reachable.send by blast
qed

declare getRoot.simps [code] run_node.simps [code] handle_events.simps [code]

lemma bench_waits:
  "map_option (\<lambda>x. (as_currentState (nb_stm x), sq_items (ed_events (nb_disp x)), as_stateTimeout (nb_stm x),
       sq_items (ed_pendingEvents (nb_disp x)), nb_initialized x))
     (bench_run False [ConnectEvent])
   = Some (Some m_WaitForAttach, [], Some \<lparr>tm_start_ms = 5000, tm_end_ms = 65000\<rparr>, [], True)"
  by code_simp

text \<open>The same, a minute later.\<close>

definition later :: "'w \<Rightarrow> ('w, 'm) nb \<Rightarrow> ('w, 'm) nb" where
  "later w x = x\<lparr>ls_env := w\<rparr>"

lemma later_reachable: "nb_reachable D x \<Longrightarrow> clock_running D \<Longrightarrow> nb_reachable D (later w x)"
  by (frule (1) nb_reachable_live, erule nb_reachable.outside) (auto simp: later_def nb_live_def nb_base_def)

text \<open>The event of a connect, up to the node that it runs.\<close>

lemma connect_event_node:
  assumes l: "nb_live D x" and s: "as_currentState (nb_stm x) = Some m_Disconnected"
    and q: "sq_items (ed_events (nb_disp x)) = []"
  obtains e i y where "nb_base D ((with_id i x)\<lparr>nb_errno := ErrSuccess, ls_env := snd (md_isAttached D (ls_env x))\<rparr>)"
    and "run_node (nb_view D) (nb_graph D) (NTransition
      (if fst (md_isAttached D (ls_env x)) then m_isAttachedIpConnect else m_isNotAttached)) e
      ((with_id i x)\<lparr>nb_errno := ErrSuccess, ls_env := snd (md_isAttached D (ls_env x))\<rparr>) = Some (setEventState Handled e, y)"
    and "stm_sendEvent D ConnectEvent x = Some (nb_disp_update movePending y)" and "nb_live D y"
proof -
  have "\<not> timer_armed x" using l s by (auto simp: nb_live_def)
  moreover have "List.find (\<lambda>t. nb_eventType t = ConnectEvent) (nb_transitions m_Disconnected) = Some m_connect"
    "CustomMin \<le> ConnectEvent" "ConnectEvent \<le> CustomMax"
    by (simp_all add: nb_events event_codes)
  ultimately obtain e i y where run: "run_node (nb_view D) (nb_graph D) (NTransition m_connect) e (with_id i x) = Some (setEventState Handled e, y)"
    and y: "stm_sendEvent D ConnectEvent x = Some (nb_disp_update movePending y)" and ly: "nb_live D y"
    using stm_sendEvent_single [OF l s q] by blast
  have env: "ls_env (with_id i x) = ls_env x" by (simp add: with_id_def)
  have "nb_base D ((with_id i x)\<lparr>nb_errno := ErrSuccess, ls_env := snd (md_isAttached D (ls_env x))\<rparr>)"
    using l by (simp add: with_id_def nb_live_def nb_base_def)
  from that [OF this run [unfolded connect_node env] y ly] show thesis .
qed

text \<open>A timeout that finds an empty queue: exactly its transition is run.\<close>

lemma nb_timeout_single:
  fixes x :: "('w, 'm) nb"
  assumes l: "nb_live D x" and s: "as_currentState (nb_stm x) = Some s" and q: "sq_items (ed_events (nb_disp x)) = []"
    and t: "as_stateTimeout (nb_stm x) = Some t" "tm_valid t" "tm_remaining (fst (pf_clock (dv_platform D) (ls_env x))) t = 0"
    and tr: "List.find (\<lambda>t. nb_eventType t = EvTimer) (nb_transitions s) = Some tr"
  obtains e w m d y where "nb_base D (x\<lparr>ls_env := w, nb_stm := m, nb_disp := d\<rparr>)"
    and "ed_pendingEvents d = ed_pendingEvents (nb_disp x)" and "sq_items (ed_events d) = []"
    and "run_node (nb_view D) (nb_graph D) (NTransition tr) e (x\<lparr>ls_env := w, nb_stm := m, nb_disp := d\<rparr>)
      = Some (setEventState Handled e, y)"
    and "nb_dispatch D x = Some (nb_disp_update movePending y)" and "sq_items (ed_events (nb_disp y)) = []"
    and "ev_type e = EvTimer"
proof -
  let ?clk = "\<lambda>w. fst (pf_clock (dv_platform D) w)" and ?w = "\<lambda>w. snd (pf_clock (dv_platform D) w)"
  let ?push = "pushEvent (StmEvent_new EvTimer)"
  define m where "m = (nb_stm x)\<lparr>as_stateTimeout := Some (tm_start_for (?clk (?w (?w (ls_env x))))
    (tm_expired (?clk (?w (ls_env x))) t) t)\<rparr>"
  define x1 where "x1 = x\<lparr>ls_env := ?w (?w (?w (ls_env x))), nb_stm := m, nb_disp := ?push (nb_disp x)\<rparr>"
  have x1: "checkTimeout (nb_view D) x = x1"
    using t
    by (simp add: checkTimeout_def startStateTimer_def sn_clock_def split_def Let_def x1_def m_def
        nb_stm_update_at [of "\<lambda>m. m\<lparr>as_stateTimeout := _\<rparr>"])
  obtain ev d where d: "takeEvent (nb_disp x1) = (ev, d)" by force
  have q1: "sq_items (ed_events (nb_disp x1)) = [StmEvent_new EvTimer]"
    using q by (simp add: x1_def pushEvent_def sq_append_def)
  note take = takeEvent_takes [OF q1 d]
  define x2 where "x2 = x\<lparr>ls_env := ?w (?w (?w (ls_env x))), nb_stm := m, nb_disp := d\<rparr>"
  have "nb_live D x1" using checkTimeout_live [OF l] x1 by simp
  then have b: "nb_base D x2" by (simp add: nb_live_def nb_base_def x1_def x2_def)
  define e where "e = setEventState Accepted ev"
  obtain y where y: "run_node (nb_view D) (nb_graph D) (NTransition tr) e x2 = Some (setEventState Handled e, y)"
    "sq_items (ed_events (nb_disp y)) = []"
    using trigger_live [of D e tr] b take(2) unfolding node_live_def by (fastforce simp: x2_def)
  have "Stm_handleEvent (nb_view D) (nb_graph D) ev x2 = Some (True, setEventState Handled e, y)"
    using s tr y(1) take(1)
    by (simp add: Stm_handleEvent_def State_handleEvent_def Transition_trigger_def e_def x2_def m_def StmEvent_new_def)
  moreover have "nb_disp_update (\<lambda>_. d) x1 = x2" by (simp add: x1_def x2_def)
  moreover have "handle_events (nb_view D) (nb_graph D) y = Some y"
    using y(2) by (subst handle_events.simps) (simp add: sq_count_def)
  ultimately have "handle_events (nb_view D) (nb_graph D) x1 = Some y"
    using d q1 by (subst handle_events.simps) (simp add: sq_count_def)
  then have "nb_dispatch D x = Some (nb_disp_update movePending y)"
    by (simp add: nb_dispatch_def dispatch_def x1)
  then show thesis
    using that [OF b [unfolded x2_def] _ take(2) y(1) [unfolded x2_def] _ y(2)] take(1,3)
    by (simp add: x1_def pushEvent_def e_def setEventState_def StmEvent_new_def)
qed

subsection \<open>Properties\<close>



text \<open>
  C2: The machine is never stuck: a state that waits for the modem, the gateway or the initialisation has
  a running timer, the error state has a timer or an event in the queue that leads out of it, and no
  other state has a timer.
\<close>

theorem machine_never_stuck:
  assumes "nb_reachable D x" and "clock_running D"
  shows "\<exists>s. as_currentState (nb_stm x) = Some s \<and>
    (if s \<in> {m_Initial, m_WaitForAttach, m_WaitForConnect, m_ConnectedAwake} \<or> s = m_Error \<and> \<not> nb_initialized x
     then timer_armed x
     else \<not> timer_armed x \<and> (s \<noteq> m_Error \<or>
       (\<exists>e \<in> set (sq_items (ed_events (nb_disp x)) @ sq_items (ed_pendingEvents (nb_disp x))).
          nb_edge m_Error (ev_type e) m_Disconnected \<or> nb_edge m_Error (ev_type e) m_Initial)))"
proof -
  obtain s where s: "as_currentState (nb_stm x) = Some s" "nb_state_ok s x"
    using nb_reachable_live [OF assms] by (auto simp: nb_live_def)
  have "\<exists>e \<in> set (sq_items (ed_events (nb_disp x)) @ sq_items (ed_pendingEvents (nb_disp x))).
      nb_edge m_Error (ev_type e) m_Disconnected \<or> nb_edge m_Error (ev_type e) m_Initial"
    if "error_events x \<noteq> []"
    using that by (auto simp: error_events_def filter_empty_conv)
  then show ?thesis using s by (cases s) (auto split: if_splits)
qed

lemma machine_never_stuck_witness:
  "\<exists>x. bench_run False [ConnectEvent] = Some x \<and> as_currentState (nb_stm x) = Some m_WaitForAttach \<and> timer_armed x"
proof -
  obtain x where x: "bench_run False [ConnectEvent] = Some x" "as_currentState (nb_stm x) = Some m_WaitForAttach"
    using bench_waits by (auto simp: map_option_case split: option.splits)
  from machine_never_stuck [OF bench_run_reachable [OF x(1)] bench_clock] show ?thesis
    using x by simp
qed




lemma bench_disconnected:
  "map_option (\<lambda>x. (as_currentState (nb_stm x), sq_items (ed_events (nb_disp x)), sn_isconnected x, nb_authentication x,
     nb_cleanSession x)) (bench_run False []) = Some (Some m_Disconnected, [], False, [49], 0)"
  by code_simp


text \<open>
  C7: A reconnect after sleeping asks for no clean session, but only until \<open>doReconnect\<close> returns. If the
  modem is not attached yet, the session is requested later, when the modem has attached, and then
  with the flag that the application gave before: with 1, the gateway drops the subscriptions.
\<close>

theorem reconnect_when_not_attached:
  assumes "nb_reachable D x" and "clock_running D" and s: "as_currentState (nb_stm x) = Some m_Disconnected"
    and q: "sq_items (ed_events (nb_disp x)) = []" and "\<not> sn_isconnected x" and "login_ok x"
    and "\<not> fst (md_isAttached D (ls_env x))"
  shows "\<exists>y. doReconnect D x = Some y \<and> as_currentState (nb_stm y) = Some m_WaitForAttach
    \<and> nb_cleanSession y = nb_cleanSession x
    \<and> (\<forall>e w. ip_answer D (later w y) \<longrightarrow>
        (\<exists>z. Transition_trigger (nb_view D) (nb_graph D) m_isAttachedIpConnect e (later w y) = Some (setEventState Handled e, z)
          \<and> as_currentState (nb_stm z) = Some m_WaitForConnect \<and> sn_cleansession z = (nb_cleanSession x \<noteq> 0)))"
proof -
  define x0 where "x0 = x\<lparr>nb_cleanSession := 0\<rparr>"
  have "nb_frame x x0" by (simp add: x0_def nb_frame_def)
  then have l: "nb_live D x0" using nb_live_frame nb_reachable_live [OF assms(1,2)] by blast
  have s0: "as_currentState (nb_stm x0) = Some m_Disconnected" and q0: "sq_items (ed_events (nb_disp x0)) = []"
    and na: "\<not> fst (md_isAttached D (ls_env x0))"
    using s q assms(7) by (simp_all add: x0_def)
  obtain e i y where
    b: "nb_base D ((with_id i x0)\<lparr>nb_errno := ErrSuccess, ls_env := snd (md_isAttached D (ls_env x0))\<rparr>)"
    and run: "run_node (nb_view D) (nb_graph D) (NTransition m_isNotAttached) e
      ((with_id i x0)\<lparr>nb_errno := ErrSuccess, ls_env := snd (md_isAttached D (ls_env x0))\<rparr>) = Some (setEventState Handled e, y)"
    and y: "stm_sendEvent D ConnectEvent x0 = Some (nb_disp_update movePending y)" and ly: "nb_live D y"
    using connect_event_node [OF l s0 q0] unfolding if_not_P [OF na] by blast
  define u where "u = (with_id i x0)\<lparr>nb_errno := ErrSuccess, ls_env := snd (md_isAttached D (ls_env x0))\<rparr>"
  obtain y' where "run_node (nb_view D) (nb_graph D) (NTransition m_isNotAttached) e u = Some (setEventState Handled e, y')"
    and y': "as_currentState (nb_stm y') = Some m_WaitForAttach" "sn_isconnected y' = sn_isconnected u"
      "nb_authentication y' = nb_authentication u"
    using wait_node [OF b [folded u_def], of e] by blast
  then have [simp]: "y' = y" using run by (simp add: u_def)
  define z where "z = (nb_disp_update movePending y)\<lparr>nb_cleanSession := nb_cleanSession x\<rparr>"
  have "doReconnect D x = Some z" using y by (simp add: doReconnect_def z_def x0_def)
  moreover have "as_currentState (nb_stm z) = Some m_WaitForAttach" "nb_cleanSession z = nb_cleanSession x"
    using y' by (simp_all add: z_def)
  moreover have "\<exists>v. run_node (nb_view D) (nb_graph D) (NTransition m_isAttachedIpConnect) e (later w z) = Some (setEventState Handled e, v)
      \<and> as_currentState (nb_stm v) = Some m_WaitForConnect \<and> sn_cleansession v = (nb_cleanSession x \<noteq> 0)"
    if ip: "ip_answer D (later w z)" for e w
  proof -
    have "nb_base D (later w z)" "\<not> sn_isconnected (later w z)" "login_ok (later w z)" "nb_cleanSession (later w z) = nb_cleanSession x"
      using ly y' assms(5,6) by (simp_all add: z_def later_def nb_live_def nb_base_def u_def x0_def with_id_def login_ok_def)
    with attached_node [of D "later w z" e] ip show ?thesis by metis
  qed
  ultimately show ?thesis unfolding Transition_trigger_def by blast
qed

lemma reconnect_when_not_attached_witness:
  "\<exists>x y. bench_run False [] = Some x \<and> doReconnect (bench False) (x\<lparr>nb_cleanSession := 1\<rparr>) = Some y
    \<and> as_currentState (nb_stm y) = Some m_WaitForAttach \<and> nb_cleanSession y = 1"
proof -
  obtain x where x: "bench_run False [] = Some x" "as_currentState (nb_stm x) = Some m_Disconnected"
    "sq_items (ed_events (nb_disp x)) = []" "\<not> sn_isconnected x" "login_ok x"
    using bench_disconnected by (auto simp: map_option_case login_ok_def split: option.splits)
  have "nb_reachable (bench False) (x\<lparr>nb_cleanSession := 1\<rparr>)"
    using bench_run_reachable [OF x(1)] nb_reachable_live [OF bench_run_reachable [OF x(1)] bench_clock]
    by (auto intro: nb_reachable.outside simp: nb_live_def nb_base_def)
  from reconnect_when_not_attached [OF this bench_clock] show ?thesis
    using x by (fastforce simp: login_ok_def bench_def)
qed

text \<open>
  C5: An attachment that does not come within its minute is an error, and the errors are counted: each
  takes the machine back to the disconnected state, the fifth in a row restarts the modem and
  initialises it again.
\<close>

theorem attach_timeout_counts:
  assumes "nb_reachable D x" and "clock_running D" and s: "as_currentState (nb_stm x) = Some m_WaitForAttach"
    and q: "sq_items (ed_events (nb_disp x)) = []" and p: "sq_items (ed_pendingEvents (nb_disp x)) = []"
    and "nb_initialized x"
    and t: "as_stateTimeout (nb_stm x) = Some t" "tm_valid t" "tm_remaining (fst (pf_clock (dv_platform D) (ls_env x))) t = 0"
  shows "\<exists>y. nb_dispatch D x = Some y \<and> as_currentState (nb_stm y) = Some m_Error \<and> nb_errno y = GprsNotConnected
    \<and> (if 5 \<le> unat (nb_modemRestartOnError x + 1)
       then nb_modemRestartOnError y = 0 \<and> (\<exists>w. ls_env y = snd (md_reboot D w))
         \<and> map ev_type (sq_items (ed_events (nb_disp y))) = [ReInitializeEvent]
       else nb_modemRestartOnError y = nb_modemRestartOnError x + 1
         \<and> map ev_type (sq_items (ed_events (nb_disp y))) = [ErrorDisconnectEvent])"
proof -
  note l = nb_reachable_live [OF assms(1,2)]
  have "List.find (\<lambda>t. nb_eventType t = EvTimer) (nb_transitions m_WaitForAttach) = Some m_isAttachedError"
    by (simp add: nb_events event_codes)
  from nb_timeout_single [OF l s q t this] obtain e w m d y where
    b: "nb_base D (x\<lparr>ls_env := w, nb_stm := m, nb_disp := d\<rparr>)"
    and d: "ed_pendingEvents d = ed_pendingEvents (nb_disp x)" "sq_items (ed_events d) = []"
    and run: "run_node (nb_view D) (nb_graph D) (NTransition m_isAttachedError) e (x\<lparr>ls_env := w, nb_stm := m, nb_disp := d\<rparr>)
      = Some (setEventState Handled e, y)"
    and y: "nb_dispatch D x = Some (nb_disp_update movePending y)" and "sq_items (ed_events (nb_disp y)) = []" and "ev_type e = EvTimer" .
  define x1 where "x1 = nb_entered m_Error (x\<lparr>ls_env := w, nb_stm := m, nb_disp := d, nb_errno := GprsNotConnected,
    nb_modemRestartOnError := nb_modemRestartOnError x + 1\<rparr>)"
  have x1: "nb_base D x1" "as_currentState (nb_stm x1) = Some m_Error" "nb_errno x1 = GprsNotConnected"
    "nb_modemRestartOnError x1 = nb_modemRestartOnError x + 1" "nb_initialized x1" "nb_disp x1 = d"
    using b assms(6) by (simp_all add: x1_def nb_base_def) (auto simp: nb_entered_def)
  from error_entry [OF x1(1), of e] obtain z where z: "actionErrorEntry D e x1 = Some (False, z)"
    "as_currentState (nb_stm z) = as_currentState (nb_stm x1)" "nb_errno z = nb_errno x1"
    and "nb_cleanSession z = nb_cleanSession x1"
    and cnt: "nb_initialized x1 \<longrightarrow> (if restartModemThreshold \<le> unat (nb_modemRestartOnError x1)
      then nb_modemRestartOnError z = 0 \<and> ls_env z = snd (md_reboot D (ls_env x1))
        \<and> nb_disp z = postPendingEvent (setCustomEventType ReInitializeEvent (StmEvent_new EvInvalid)) (nb_disp x1)
      else nb_modemRestartOnError z = nb_modemRestartOnError x1
        \<and> nb_disp z = postPendingEvent (setCustomEventType ErrorDisconnectEvent (StmEvent_new EvInvalid)) (nb_disp x1))" .
  note cnt = cnt [THEN mp, OF x1(5), unfolded x1(4,6) restartModemThreshold_def]
  have "run_node (nb_view D) (nb_graph D) (NTransition m_isAttachedError) e (x\<lparr>ls_env := w, nb_stm := m, nb_disp := d\<rparr>)
      = Some (setEventState Handled e, z)"
    using z(1) by (simp add: run_node_transition run_node_state State_enter_nb run_action_def actionIsAttachedError_def x1_def)
  then have [simp]: "z = y" using run by simp
  have "map ev_type (sq_items (ed_events (movePending (postPendingEvent (setCustomEventType ty (StmEvent_new EvInvalid)) d)))) = [ty]"
    if "CustomMin \<le> ty" "ty \<le> CustomMax" for ty
    using d p that by (simp add: movePending_def postPendingEvent_def sq_append_def setCustomEventType_def StmEvent_new_def)
  note posted = this [of ReInitializeEvent] this [of ErrorDisconnectEvent]
  have ty: "CustomMin \<le> ReInitializeEvent" "ReInitializeEvent \<le> CustomMax"
    "CustomMin \<le> ErrorDisconnectEvent" "ErrorDisconnectEvent \<le> CustomMax"
    by (simp_all add: nb_events event_codes)
  have y': "as_currentState (nb_stm y) = Some m_Error" "nb_errno y = GprsNotConnected" using z(2,3) x1 by simp_all
  show ?thesis
  proof (cases "5 \<le> unat (nb_modemRestartOnError x + 1)")
    case True
    with cnt have "nb_modemRestartOnError y = 0" "ls_env y = snd (md_reboot D (ls_env x1))"
      "nb_disp y = postPendingEvent (setCustomEventType ReInitializeEvent (StmEvent_new EvInvalid)) d"
      by simp_all
    then show ?thesis
      using True y y' posted(1) ty by (intro exI [of _ "nb_disp_update movePending y"]) auto
  next
    case False
    with cnt have "nb_modemRestartOnError y = nb_modemRestartOnError x + 1"
      "nb_disp y = postPendingEvent (setCustomEventType ErrorDisconnectEvent (StmEvent_new EvInvalid)) d"
      by simp_all
    then show ?thesis
      using False y y' posted(2) ty by (intro exI [of _ "nb_disp_update movePending y"]) auto
  qed
qed

lemma attach_timeout_counts_witness:
  "\<exists>x y. bench_run False [ConnectEvent] = Some x \<and> nb_dispatch (bench False) (later 90 x\<lparr>nb_modemRestartOnError := 4\<rparr>) = Some y
    \<and> as_currentState (nb_stm y) = Some m_Error \<and> nb_modemRestartOnError y = 0
    \<and> map ev_type (sq_items (ed_events (nb_disp y))) = [ReInitializeEvent]"
proof -
  obtain x where x: "bench_run False [ConnectEvent] = Some x" "as_currentState (nb_stm x) = Some m_WaitForAttach"
    "sq_items (ed_events (nb_disp x)) = []" "as_stateTimeout (nb_stm x) = Some \<lparr>tm_start_ms = 5000, tm_end_ms = 65000\<rparr>"
    "sq_items (ed_pendingEvents (nb_disp x)) = []" "nb_initialized x"
    using bench_waits by (auto simp: map_option_case split: option.splits)
  define x' where "x' = later 90 x\<lparr>nb_modemRestartOnError := 4\<rparr>"
  have r: "nb_reachable (bench False) x'"
    using bench_run_reachable [OF x(1)] nb_reachable_live [OF bench_run_reachable [OF x(1)] bench_clock]
    unfolding x'_def by (elim nb_reachable.outside) (auto simp: nb_live_def nb_base_def later_def)
  have "tm_remaining (fst (pf_clock (dv_platform (bench False)) (ls_env x'))) \<lparr>tm_start_ms = 5000, tm_end_ms = 65000\<rparr> = 0"
    by (simp add: tm_remaining_def bench_def bench_platform_def x'_def later_def nt_getMillis_def nt_new_def)
  from attach_timeout_counts [OF r bench_clock _ _ _ _ _ _ this] show ?thesis
    using x by (auto simp: x'_def later_def tm_valid_def)
qed

text \<open>
  C6: if the first initialisation fails, the retry after a minute initialises the modem but leaves out the
  login: the machine is initialised with the authentication that it had, none, and a later CONNECT
  carries an empty client id.
\<close>

theorem recovery_skips_login:
  assumes "nb_reachable D x" and "clock_running D" and s: "as_currentState (nb_stm x) = Some m_Error"
    and q: "sq_items (ed_events (nb_disp x)) = []" and p: "sq_items (ed_pendingEvents (nb_disp x)) = []"
    and t: "as_stateTimeout (nb_stm x) = Some t" "tm_valid t" "tm_remaining (fst (pf_clock (dv_platform D) (ls_env x))) t = 0"
    and ok: "\<forall>w. fst (md_initialize D w)"
  shows "\<exists>y. nb_dispatch D x = Some y \<and> as_currentState (nb_stm y) = Some m_Initial \<and> nb_initialized y
    \<and> nb_authentication y = nb_authentication x
    \<and> map ev_type (sq_items (ed_events (nb_disp y))) = [InitializeEvent]"
proof -
  note l = nb_reachable_live [OF assms(1,2)]
  have "List.find (\<lambda>t. nb_eventType t = EvTimer) (nb_transitions m_Error) = Some m_errorTimeout"
    by (simp add: nb_events event_codes)
  from nb_timeout_single [OF l s q t this] obtain e w m d y where
    b: "nb_base D (x\<lparr>ls_env := w, nb_stm := m, nb_disp := d\<rparr>)"
    and d: "ed_pendingEvents d = ed_pendingEvents (nb_disp x)" "sq_items (ed_events d) = []"
    and run: "run_node (nb_view D) (nb_graph D) (NTransition m_errorTimeout) e (x\<lparr>ls_env := w, nb_stm := m, nb_disp := d\<rparr>)
      = Some (setEventState Handled e, y)"
    and y: "nb_dispatch D x = Some (nb_disp_update movePending y)" and "sq_items (ed_events (nb_disp y)) = []"
    and e: "ev_type e = EvTimer" .
  define x1 where "x1 = nb_entered m_Initial (x\<lparr>ls_env := w, nb_stm := m, nb_disp := d\<rparr>)"
  have x1: "nb_base D x1" "as_currentState (nb_stm x1) = Some m_Initial" "nb_disp x1 = d"
    "nb_authentication x1 = nb_authentication x"
    using b by (simp_all add: x1_def) (simp add: nb_entered_def)
  define x2 where "x2 = (stm_postEvent InitializeEvent (snd (dev_call (md_initialize D) x1)))\<lparr>nb_initialized := True\<rparr>"
  define n where "n = \<lparr>no_state = InitialState, no_action = AcReInitialize, no_returnCode = RC_ACCEPTED, no_errorNumber = ErrSuccess\<rparr>"
  have entry: "actionInitialEntry D e x1 = Some (nb_initialized (setTimeout (nb_view D) timeoutOneMinute (notify n x2)),
      setTimeout (nb_view D) timeoutOneMinute (notify n x2))"
    using ok e by (simp add: actionInitialEntry_def initialModem_def dev_call_eq Let_def x2_def n_def)
  have x2: "nb_base D (notify n x2)" "as_currentState (nb_stm (notify n x2)) = Some m_Initial" "nb_initialized (notify n x2)"
    "nb_authentication (notify n x2) = nb_authentication x"
    "nb_disp (notify n x2) = postPendingEvent (setCustomEventType InitializeEvent (StmEvent_new EvInvalid)) d"
    using x1 by (simp_all add: x2_def notify_def stm_postEvent_def dev_call_eq nb_base_def)
  obtain t' where st: "setTimeout (nb_view D) timeoutOneMinute (notify n x2) = (notify n x2)
      \<lparr>ls_env := snd (pf_clock (dv_platform D) (ls_env (notify n x2))), nb_stm := (nb_stm (notify n x2))\<lparr>as_stateTimeout := t'\<rparr>\<rparr>"
    using setTimeout_eq [OF x2(1)] .
  have "run_node (nb_view D) (nb_graph D) (NTransition m_errorTimeout) e (x\<lparr>ls_env := w, nb_stm := m, nb_disp := d\<rparr>)
      = Some (setEventState Handled e, setTimeout (nb_view D) timeoutOneMinute (notify n x2))"
    using entry by (simp add: run_node_transition run_node_state State_enter_nb run_action_def x1_def)
  then have y': "y = setTimeout (nb_view D) timeoutOneMinute (notify n x2)" using run by simp
  have "map ev_type (sq_items (ed_events (movePending (postPendingEvent (setCustomEventType InitializeEvent (StmEvent_new EvInvalid)) d))))
      = [InitializeEvent]"
    using d p by (simp add: movePending_def postPendingEvent_def sq_append_def setCustomEventType_def StmEvent_new_def nb_events event_codes)
  then show ?thesis
    using y x2 by (intro exI [of _ "nb_disp_update movePending y"]) (simp add: y' st)
qed

lemma bench_not_started:
  "map_option (\<lambda>x. (as_currentState (nb_stm x), sq_items (ed_events (nb_disp x)), as_stateTimeout (nb_stm x),
       sq_items (ed_pendingEvents (nb_disp x)), nb_authLogin x, nb_authentication x))
     (startStateMachine (bench True\<lparr>md_reboot := Pair False\<rparr>) (setUpStateMachine bench_new))
   = Some (Some m_Error, [], Some \<lparr>tm_start_ms = 5000, tm_end_ms = 65000\<rparr>, [], [49], [])"
  by code_simp

lemma recovery_skips_login_witness:
  "\<exists>x y. startStateMachine (bench True\<lparr>md_reboot := Pair False\<rparr>) (setUpStateMachine bench_new) = Some x
    \<and> nb_dispatch (bench True\<lparr>md_reboot := Pair False\<rparr>) (later 90 x) = Some y
    \<and> nb_initialized y \<and> nb_authLogin x = [49] \<and> nb_authentication y = []"
proof -
  let ?D = "bench True\<lparr>md_reboot := Pair False\<rparr>"
  obtain x where x: "startStateMachine ?D (setUpStateMachine bench_new) = Some x" "as_currentState (nb_stm x) = Some m_Error"
    "sq_items (ed_events (nb_disp x)) = []" "as_stateTimeout (nb_stm x) = Some \<lparr>tm_start_ms = 5000, tm_end_ms = 65000\<rparr>"
    "sq_items (ed_pendingEvents (nb_disp x)) = []" "nb_authLogin x = [49]" "nb_authentication x = []"
    using bench_not_started by (auto simp: map_option_case split: option.splits)
  have c: "clock_running ?D"
    by (simp add: clock_running_def bench_def bench_platform_def nt_getMillis_def nt_new_def)
  have "nb_reachable ?D x"
    using x(1) by (rule nb_reachable.start [rotated 3])
      (simp_all add: bench_new_def nb_new_def sn_new_def snsys.defs)
  from later_reachable [OF this c] have r: "nb_reachable ?D (later 90 x)" .
  have "tm_remaining (fst (pf_clock (dv_platform ?D) (ls_env (later 90 x)))) \<lparr>tm_start_ms = 5000, tm_end_ms = 65000\<rparr> = 0"
    by (simp add: tm_remaining_def bench_def bench_platform_def later_def nt_getMillis_def nt_new_def)
  from recovery_skips_login [OF r c _ _ _ _ _ this] show ?thesis
    using x by (auto simp: later_def tm_valid_def bench_def)
qed

end
