(* ===== verification/NbiotMqtt.thy ===== *)
theory NbiotMqtt
  imports NbiotRuns
begin

text \<open>
  The library interface \<open>libNbiot/src/nbiotmqtt.cpp\<close>: the event loop that drives the loop controller
  and the connection state machine, the requests of the application, and the notifications of the
  MQTT-SN client. A call of a message handler of the application is a value appended to
  \<open>nq_delivered\<close>. A topic union that holds a name is read as an id in two places; the id is then the
  low half of the address of the name, given by the parameter \<open>B\<close>.
\<close>

record 'w nmqtt = "'w nstm" +
  nq_evLoopRc :: NbiotResult
  nq_pollInterval :: u16
  nq_delivered :: "handler_call list"

type_synonym ('w, 'm) mq = "('w, 'm) nmqtt_scheme"

type_synonym name_bits = "byte list option \<Rightarrow> u16"

datatype NbiotEventMode = EventModeActive | EventModeAsleep

definition tenSecondsMs :: int where "tenSecondsMs = 10000"
definition halfSecondMs :: int where "halfSecondMs = 500"
definition oneSecondMs :: int where "oneSecondMs = 1000"
definition invalidTopicId :: u16 where "invalidTopicId = 0xFFFF"

fun union_as_id :: "name_bits \<Rightarrow> topic_union \<Rightarrow> u16" where
  "union_as_id B (ULong name len) = B name"
| "union_as_id B (UId i) = i"
| "union_as_id B (UShort a b) = word_of_int (uint a + 256 * uint b)"

subsection \<open>The state of the connection\<close>

definition in_state :: "StateIds list \<Rightarrow> ('w, 'm) mq \<Rightarrow> bool option" where
  "in_state ids x = map_option (\<lambda>i. i \<in> set ids) (stm_getCurrentStateId x)"

definition mq_isConnected :: "('w, 'm) mq \<Rightarrow> bool option" where
  "mq_isConnected x = in_state [ConnectedState] x"

definition mq_isDisconnected :: "('w, 'm) mq \<Rightarrow> bool option" where
  "mq_isDisconnected x = in_state [DisconnectedState] x"

definition mq_isConSleeping :: "('w, 'm) mq \<Rightarrow> bool option" where
  "mq_isConSleeping x = in_state [ConnectedSleepState] x"

definition mq_isConAwake :: "('w, 'm) mq \<Rightarrow> bool option" where
  "mq_isConAwake x = in_state [ConnectedAwakeState] x"

definition mq_isDisSleeping :: "('w, 'm) mq \<Rightarrow> bool option" where
  "mq_isDisSleeping x = in_state [DisconnectedSleepState] x"

definition mq_isSleeping :: "('w, 'm) mq \<Rightarrow> bool option" where
  "mq_isSleeping x = in_state [ConnectedSleepState, ConnectedAwakeState, DisconnectedSleepState] x"

definition mq_hasSubscription :: "('w, 'm) mq \<Rightarrow> bool" where
  "mq_hasSubscription x = registry_hasAnyTopic REG_SUB (nb_registry x)"

definition mq_hasSubscriptionTo :: "byte list \<Rightarrow> ('w, 'm) mq \<Rightarrow> bool" where
  "mq_hasSubscriptionTo name x = registry_hasTopic name REG_SUB (nb_registry x)"

definition mq_getMessageCount :: "('w, 'm) mq \<Rightarrow> nat" where
  "mq_getMessageCount x = rg_messageCount (nb_registry x)"

definition eventLoopStatus :: "('w, 'm) mq \<Rightarrow> NbiotResult" where
  "eventLoopStatus x = (if nq_evLoopRc x = LC_Pending \<or> isBusy (ls_loop x) then LC_Pending else LC_Idle)"

text \<open>\<open>topicCount() < m_maxTopics\<close>\<close>

definition room_for_topic :: "('w, 'm) mq \<Rightarrow> bool" where
  "room_for_topic x \<longleftrightarrow> sq_count (rg_list (nb_registry x)) < uint (nb_maxTopics x)"

definition setAutoPoll :: "'w devices \<Rightarrow> int \<Rightarrow> ('w, 'm) mq \<Rightarrow> ('w, 'm) mq" where
  "setAutoPoll D autoPoll x =
     (let (t, x) = sn_start_for (dv_platform D) (to_ulong (autoPoll * oneSecondMs)) (nb_autoPollTimer x)
            (x\<lparr>nb_autoPollInterval := autoPoll\<rparr>)
      in x\<lparr>nb_autoPollTimer := t\<rparr>)"

text \<open>The restart of the timer for the automatic poll.\<close>

definition restartAutoPoll :: "'w devices \<Rightarrow> ('w, 'm) mq \<Rightarrow> ('w, 'm) mq" where
  "restartAutoPoll D x =
     (let (t, x) = sn_start_for (dv_platform D) (to_ulong (nb_autoPollInterval x * oneSecondMs)) (nb_autoPollTimer x) x
      in x\<lparr>nb_autoPollTimer := t\<rparr>)"

subsection \<open>Requests of the application\<close>

definition mq_connect :: "'w devices \<Rightarrow> byte \<Rightarrow> ('w, 'm) mq \<Rightarrow> (ErrorNumber \<times> ('w, 'm) mq) option" where
  "mq_connect D cleanSession x =
     (if nb_initialized x
      then do {
        con \<leftarrow> mq_isConnected x;
        slp \<leftarrow> mq_isSleeping x;
        x \<leftarrow> (if \<not> con \<and> \<not> slp then stm_sendEvent D ConnectEvent (x\<lparr>nb_cleanSession := cleanSession\<rparr>)
              else if slp then stm_sendEvent D WakeupEvent x else Some x);
        Some (nb_errno x, x)
      }
      else Some (InitializeError, x))"

definition mq_wake :: "'w devices \<Rightarrow> ('w, 'm) mq \<Rightarrow> ('w, 'm) mq option" where
  "mq_wake D x = do { slp \<leftarrow> mq_isSleeping x; if slp then stm_sendEvent D WakeupEvent x else Some x }"

definition mq_poll :: "'w devices \<Rightarrow> u16 \<Rightarrow> ('w, 'm) mq \<Rightarrow> ('w, 'm) mq option" where
  "mq_poll D pollInterval x = do {
     con \<leftarrow> mq_isConnected x;
     slp \<leftarrow> mq_isSleeping x;
     if con \<or> slp
     then do {
       x \<leftarrow> mq_wake D x;
       let ms = (if \<not> mq_hasSubscription x then halfSecondMs
                 else if pollInterval = 0 then uint (nq_pollInterval x) else uint pollInterval);
       let (_, x) = sn_yield ms x;
       Some (restartAutoPoll D x)
     }
     else Some x
   }"

text \<open>
  \<open>publish\<close>: first the topic, with the result of \<open>registerTopic\<close> for one that the registry does not
  know; then the message.
\<close>

definition publish_topic :: "byte list \<Rightarrow> ('w, 'm) mq \<Rightarrow> (int \<times> ('w, 'm) mq) option" where
  "publish_topic name x =
     (let x = x\<lparr>nb_errno := ErrSuccess, sn_topicName := \<lparr>tp_type = TNormal, tp_data = UId invalidTopicId\<rparr>\<rparr>;
          index = registry_findTopic name (nb_registry x)
      in if index < 0
         then if room_for_topic x
              then let x = x\<lparr>nb_currentTopic := topic_assign (topic_of_name name) (nb_currentTopic x)\<rparr>;
                       x = x\<lparr>sn_topicName := topic_toSNTopic TOPIC_NAME (nb_currentTopic x)\<rparr>
                   in sn_registerTopic (sn_topicName x) x
              else Some (FAILURE, x\<lparr>nb_errno := MaxTopicsExceeded\<rparr>)
         else let x = (if \<not> topic_isReg REG_PUB (registry_at index (nb_registry x))
                       then x\<lparr>nb_registry := registry_setTopicFlag index REG_PUB (nb_registry x)\<rparr> else x);
                  x = x\<lparr>nb_currentTopic := topic_assign (registry_at index (nb_registry x)) (nb_currentTopic x)\<rparr>
              in Some (SUCCESS, x\<lparr>sn_topicName := topic_toSNTopic TOPIC_ID (nb_currentTopic x)\<rparr>))"

definition mq_publish ::
  "'w devices \<Rightarrow> byte list \<Rightarrow> byte list option \<Rightarrow> int \<Rightarrow> int \<Rightarrow> ('w, 'm) mq \<Rightarrow> (ErrorNumber \<times> ('w, 'm) mq) option" where
  "mq_publish D name data len qos x =
     (if nb_initialized x
      then do {
        x \<leftarrow> mq_wake D x;
        con \<leftarrow> mq_isConnected x;
        if \<not> con then Some (ConnectionError, x)
        else if isBusy (ls_loop x) then Some (LoopCtrlBusyError, x)
        else do {
          let message = \<lparr>mg_qos = qos, mg_retained = False, mg_payload = data, mg_payloadlen = len\<rparr>;
          (rc, x) \<leftarrow> publish_topic name x;
          x \<leftarrow>
            (if SUCCESS = rc
             then (let (rc, x) = sn_publish (dv_platform D) (sn_topicName x) message x
                   in if rc < 0 then stm_sendEvent D DisconnectEvent (x\<lparr>nb_errno := ConnectionError\<rparr>)
                      else mq_poll D 0 x)
             else stm_sendEvent D DisconnectEvent
                    (if nb_errno x = ErrSuccess then x\<lparr>nb_errno := ConnectionError\<rparr> else x));
          Some (nb_errno x, x)
        }
      }
      else Some (InitializeError, x))"

text \<open>The request for a subscription, with the handler that it is for.\<close>

definition subscribe_request ::
  "'w devices \<Rightarrow> topic \<Rightarrow> nat option \<Rightarrow> ('w, 'm) mq \<Rightarrow> ErrorNumber \<times> ('w, 'm) mq" where
  "subscribe_request D t mh x =
     (let x = x\<lparr>nb_currentTopic := topic_assign t (nb_currentTopic x)\<rparr>;
          x = x\<lparr>sn_topicName := topic_toSNTopic TOPIC_NAME (nb_currentTopic x)\<rparr>;
          (rc, x) = sn_subscribe (dv_platform D) (sn_topicName x) QOS1 x
      in if SUCCESS \<noteq> rc then (ConnectionError, x)
         else (ErrSuccess, x\<lparr>nb_currentTopic := (nb_currentTopic x)\<lparr>to_mh := mh\<rparr>\<rparr>))"

definition mq_subscribe ::
  "'w devices \<Rightarrow> byte list \<Rightarrow> nat option \<Rightarrow> ('w, 'm) mq \<Rightarrow> (ErrorNumber \<times> ('w, 'm) mq) option" where
  "mq_subscribe D name mh x = do {
     con \<leftarrow> mq_isConnected x;
     Some
      (if \<not> con then (ConnectionError, x)
       else if isBusy (ls_loop x) then (LoopCtrlBusyError, x)
       else let index = registry_findTopic name (nb_registry x)
            in if index = - 1
               then if room_for_topic x then subscribe_request D (topic_of_name name) mh x
                    else (MaxTopicsExceeded, x)
               else let nbTopic = registry_at index (nb_registry x)
                    in if \<not> topic_isReg REG_SUB nbTopic then subscribe_request D nbTopic mh x
                       else (ErrSuccess, x\<lparr>nb_registry := snd (registry_attachMessageHandler index mh (nb_registry x))\<rparr>))
   }"

definition mq_unsubscribe :: "byte list \<Rightarrow> ('w, 'm) mq \<Rightarrow> (ErrorNumber \<times> ('w, 'm) mq) option" where
  "mq_unsubscribe name x = do {
     con \<leftarrow> mq_isConnected x;
     if con \<and> mq_hasSubscriptionTo name x
     then do {
       let index = registry_findTopic name (nb_registry x);
       (rc, x) \<leftarrow> sn_unsubscribe (topic_toSNTopic TOPIC_NAME (registry_at index (nb_registry x))) x;
       Some (if SUCCESS \<noteq> rc then (ConnectionError, x)
             else let x = x\<lparr>nb_registry := registry_removeTopic index (nb_registry x)\<rparr>
                  in (ErrSuccess, if \<not> mq_hasSubscription x then x\<lparr>nb_hasSubscription := False\<rparr> else x))
     }
     else Some (ConnectionError, x)
   }"

definition mq_disconnect :: "'w devices \<Rightarrow> ('w, 'm) mq \<Rightarrow> ('w, 'm) mq option" where
  "mq_disconnect D x = do {
     con \<leftarrow> mq_isConnected x;
     slp \<leftarrow> mq_isSleeping x;
     if con \<or> slp then do { x \<leftarrow> mq_wake D x; stm_sendEvent D DisconnectEvent x } else Some x
   }"

definition mq_sleep :: "'w devices \<Rightarrow> u16 \<Rightarrow> ('w, 'm) mq \<Rightarrow> ('w, 'm) mq option" where
  "mq_sleep D duration x = do {
     con \<leftarrow> mq_isConnected x;
     dis \<leftarrow> mq_isDisconnected x;
     if con \<or> dis then stm_sendEvent D SleepEvent (x\<lparr>nb_duration := duration, nb_autoReconnect := False\<rparr>) else Some x
   }"

definition mq_hibernate :: "'w devices \<Rightarrow> u16 \<Rightarrow> ('w, 'm) mq \<Rightarrow> ('w, 'm) mq option" where
  "mq_hibernate D duration x = do {
     con \<leftarrow> mq_isConnected x;
     dis \<leftarrow> mq_isDisconnected x;
     slp \<leftarrow> mq_isSleeping x;
     if con \<or> dis \<or> slp
     then do {
       x \<leftarrow> mq_wake D x;
       con \<leftarrow> mq_isConnected x;
       stm_sendEvent D HibernateEvent (x\<lparr>nb_duration := duration, nb_autoReconnect := (con \<and> 0 < duration)\<rparr>)
     }
     else Some x
   }"

definition mq_wakeup :: "'w devices \<Rightarrow> ('w, 'm) mq \<Rightarrow> ('w, 'm) mq option" where
  "mq_wakeup D x = do {
     slp \<leftarrow> mq_isSleeping x;
     x \<leftarrow>
       (if slp
        then do {
          aw \<leftarrow> mq_isConAwake x;
          x \<leftarrow> (if aw then stm_sendEvent D AwakeSleepEvent x else Some x);
          stm_sendEvent D WakeupEvent x
        }
        else do {
          deep \<leftarrow> in_state [DeepSleepState] x;
          if deep then stm_sendEvent D ReInitializeEvent x else Some x
        });
     x \<leftarrow> (if nb_autoReconnect x then map_option (\<lambda>x. x\<lparr>nb_autoReconnect := False\<rparr>) (doReconnect D x) else Some x);
     Some (x\<lparr>nb_duration := 0\<rparr>)
   }"

subsection \<open>Notifications of the client\<close>

text \<open>A notification that names the current state.\<close>

definition notify_state :: "NbiotAction \<Rightarrow> int \<Rightarrow> ErrorNumber \<Rightarrow> ('w, 'm) mq \<Rightarrow> ('w, 'm) mq option" where
  "notify_state act rc err x =
     (if nb_notifyHandler x
      then do {
        st \<leftarrow> stm_getCurrentStateId x;
        Some (notify \<lparr>no_state = st, no_action = act, no_returnCode = rc, no_errorNumber = err\<rparr> x)
      }
      else Some x)"

definition pubackNotify :: "topic \<Rightarrow> ('w, 'm) mq \<Rightarrow> ('w, 'm) mq option" where
  "pubackNotify t x = do {
     let rc = uint (to_returnCode t);
     x \<leftarrow> notify_state AcPublish rc
       (if rc \<noteq> RC_ACCEPTED then if rc = RC_REJECTED_INVALID_TOPIC_ID then InvalidTopicID else ConnectionError
        else ErrSuccess) x;
     Some (if rc = RC_REJECTED_INVALID_TOPIC_ID
           then let index = registry_findId (to_id t) (nb_registry x)
                in if 0 \<le> index then x\<lparr>nb_registry := registry_removeTopic index (nb_registry x)\<rparr> else x
           else x)
   }"

definition registerNotify :: "topic \<Rightarrow> ('w, 'm) mq \<Rightarrow> (int \<times> ('w, 'm) mq) option" where
  "registerNotify t x =
     (let index = registry_findTopic (to_topicName t) (nb_registry x);
          attached = snd (registry_attachWildcardMessageHandler t (nb_registry x))
      in if index \<noteq> - 1
         then let t = (if to_mh (registry_at index (nb_registry x)) = None then attached else t)
              in Some (RC_ACCEPTED, x\<lparr>nb_registry := registry_insertTopic t (nb_registry x)\<rparr>)
         else if room_for_topic x
         then Some (RC_ACCEPTED, x\<lparr>nb_registry := registry_insertTopic attached (nb_registry x)\<rparr>)
         else map_option (Pair RC_REJECTED_NOT_SUPPORTED)
                (notify_state AcRegisterTopic RC_REJECTED_NOT_SUPPORTED MaxTopicsExceeded x))"

definition disconnectNotify :: "'w devices \<Rightarrow> int \<Rightarrow> ('w, 'm) mq \<Rightarrow> ('w, 'm) mq option" where
  "disconnectNotify D duration x = do {
     expected \<leftarrow> in_state [ConnectedSleepState, ConnectedAwakeState] x;
     x \<leftarrow> notify_state AcDisconnect RC_ACCEPTED (if expected then ErrSuccess else ConnectionError) x;
     if duration \<le> 0 \<and> \<not> expected then mq_disconnect D x else Some x
   }"

definition pingRespNotify :: "'w devices \<Rightarrow> int \<Rightarrow> ('w, 'm) mq \<Rightarrow> ('w, 'm) mq option" where
  "pingRespNotify D duration x = do {
     aw \<leftarrow> mq_isConAwake x;
     if aw then map_option stopYield (stm_sendEvent D AwakeSleepEvent x) else Some x
   }"

text \<open>
  The default message handler: the dispatcher of the registry, with the message that a handler of the
  application is given. A payload of negative length is not determined.
\<close>

definition messageArrived :: "name_bits \<Rightarrow> publish_out \<Rightarrow> ('w, 'm) mq \<Rightarrow> (int \<times> ('w, 'm) mq) option" where
  "messageArrived B msg x =
     (if po_payloadlen msg < 0 then None
      else let m = \<lparr>me_qos = po_qos msg, me_retained = (po_retained msg \<noteq> 0), me_dup = (po_dup msg \<noteq> 0),
                 me_id = po_packetid msg, me_payload = deref_bytes (po_payload msg) (po_payloadlen msg)\<rparr>;
               (rc, call, r) = registry_messageDispatcher (union_as_id B (tp_data (po_topic msg))) m (nb_registry x)
           in Some (rc, x\<lparr>nb_registry := r,
                nq_delivered := nq_delivered x @ (case call of Some c \<Rightarrow> [c] | None \<Rightarrow> [])\<rparr>))"

definition mq_handlers :: "name_bits \<Rightarrow> 'w devices \<Rightarrow> ('w, ('m nmqtt_ext) nstm_ext) sn_handlers" where
  "mq_handlers B D = \<lparr>nh_message = Some (messageArrived B), nh_puback = Some pubackNotify,
     nh_register = Some registerNotify, nh_disconnect = Some (disconnectNotify D), nh_pingResp = Some (pingRespNotify D)\<rparr>"

definition mq_loops :: "name_bits \<Rightarrow> 'w devices \<Rightarrow> (NbiotLoopId, 'w, (('m nmqtt_ext) nstm_ext) snsys_ext) iloop" where
  "mq_loops B D = LoopClient (sn_loops (dv_platform D) (mq_handlers B D) (attach_handlers D))"

subsection \<open>The event loop\<close>

text \<open>The handling of the sleep mode.\<close>

definition loop_asleep :: "'w devices \<Rightarrow> NbiotEventMode \<Rightarrow> ('w, 'm) mq \<Rightarrow> ('w, 'm) mq option" where
  "loop_asleep D mode x =
     (if mode = EventModeAsleep
      then do {
        slp \<leftarrow> mq_isConSleeping x;
        if slp
        then do {
          x \<leftarrow> stm_sendEvent D ConnectedAwakeEvent x;
          (_, x) \<leftarrow> sn_pmPing (dv_platform D) (Some (nb_authLogin x @ [0])) x;
          let (_, x) = sn_yield 15000 x;
          Some (restartAutoPoll D x)
        }
        else Some x
      }
      else Some x)"

text \<open>A loop has failed: what is left of it is cleared.\<close>

definition loop_failed :: "'w devices \<Rightarrow> ('w, 'm) mq \<Rightarrow> ('w, 'm) mq option" where
  "loop_failed D x = do {
     x \<leftarrow>
       (if nl_loopId (ls_loop x) = LI_Disconnect then Some (finishDisconnect D x)
        else if nl_loopId (ls_loop x) = LI_Publish
        then do {
          let x = x\<lparr>nb_currentTopic := (nb_currentTopic x)\<lparr>to_returnCode := word_of_int (nl_loopValue (ls_loop x))\<rparr>\<rparr>;
          x \<leftarrow> pubackNotify (nb_currentTopic x) x;
          Some (if uint (to_returnCode (nb_currentTopic x)) \<noteq> RC_REJECTED_INVALID_TOPIC_ID
                then stm_postEvent DisconnectEvent (x\<lparr>nb_errno := ConnectionError\<rparr>) else x)
        }
        else Some x);
     Some (on_loop (registerLoopClient None) x)
   }"

text \<open>A loop has succeeded: what its result means for the topics.\<close>

definition loop_topic :: "NbiotLoopId \<Rightarrow> ('w, 'm) mq \<Rightarrow> ('w, 'm) mq option" where
  "loop_topic loopId x = do {
     let x = (if loopId = LI_Register
              then x\<lparr>nb_currentTopic := topic_setReg REG_PUB
                     (snd (registry_attachWildcardMessageHandler (nb_currentTopic x) (nb_registry x)))\<rparr>
              else if loopId = LI_Subscribe then x\<lparr>nb_currentTopic := topic_setReg REG_SUB (nb_currentTopic x)\<rparr>
              else x);
     let x = (if loopId = LI_Register \<or> loopId = LI_Subscribe
              then x\<lparr>nb_registry := registry_insertTopic (nb_currentTopic x) (nb_registry x)\<rparr> else x);
     let x = (if loopId = LI_Subscribe
              then x\<lparr>nb_registry := snd (registry_updateWildcardMessageHandler (nb_currentTopic x) (nb_registry x)),
                     nb_hasSubscription := True\<rparr> else x);
     if loopId = LI_Publish
     then do {
       let x = x\<lparr>nb_currentTopic := (nb_currentTopic x)\<lparr>to_returnCode := word_of_int RC_ACCEPTED\<rparr>\<rparr>;
       pubackNotify (nb_currentTopic x) x
     }
     else Some x
   }"

definition loop_done :: "name_bits \<Rightarrow> 'w devices \<Rightarrow> NbiotLoopId \<Rightarrow> ('w, 'm) mq \<Rightarrow> ('w, 'm) mq option" where
  "loop_done B D loopId x = do {
     let x = x\<lparr>nb_currentTopic := (nb_currentTopic x)\<lparr>to_id := union_as_id B (tp_data (sn_topicName x))\<rparr>\<rparr>;
     x \<leftarrow> (if topic_valid (nb_currentTopic x) then loop_topic loopId x else Some x);
     let x = (if loopId = LI_Connect \<and> sn_isconnected x then stm_postEvent ConnectedEvent x else x);
     Some (if loopId = LI_Disconnect then finishDisconnect D x else x)
   }"

text \<open>No loop is pending: the dispatcher of the state machine, and the automatic poll.\<close>

definition loop_idle :: "'w devices \<Rightarrow> ('w, 'm) mq \<Rightarrow> ('w, 'm) mq option" where
  "loop_idle D x = do {
     x \<leftarrow> nb_dispatch D x;
     Some (if 0 < nb_autoPollInterval x \<and> sn_isconnected x
           then let (left, x) = sn_remaining (dv_platform D) (nb_autoPollTimer x) x
                in if left \<le> 0 then restartAutoPoll D (snd (sn_yield halfSecondMs x)) else x
           else x)
   }"

text \<open>What the lock protects.\<close>

definition loop_body :: "name_bits \<Rightarrow> 'w devices \<Rightarrow> NbiotEventMode \<Rightarrow> ('w, 'm) mq \<Rightarrow> ('w, 'm) mq option" where
  "loop_body B D mode x = do {
     x \<leftarrow> loop_asleep D mode x;
     (loopResult, x) \<leftarrow> nbiotLoop (mq_loops B D) x;
     x \<leftarrow> (if loopResult = LC_Fail then loop_failed D x else Some x);
     let loopId = nl_loopId (ls_loop x);
     (loopResult, x) \<leftarrow>
       (if loopResult = LC_Idle \<and> loopId \<noteq> LI_Unknown
        then map_option (Pair LC_Pending) (loop_done B D loopId x) else Some (loopResult, x));
     if loopResult \<noteq> LC_Pending
     then map_option (\<lambda>x. x\<lparr>nq_evLoopRc := LC_Idle\<rparr>) (loop_idle D x)
     else Some (x\<lparr>nq_evLoopRc := LC_Pending\<rparr>)
   }"

definition mq_eventLoop ::
  "name_bits \<Rightarrow> 'w devices \<Rightarrow> NbiotEventMode \<Rightarrow> ('w, 'm) mq \<Rightarrow> (NbiotResult \<times> ('w, 'm) mq) option" where
  "mq_eventLoop B D mode x =
     (if 0 < nb_eventLoopExecInterval x
      then do {
        st \<leftarrow> stm_getCurrentStateId x;
        x \<leftarrow>
          (if st \<noteq> InvalidState \<and> \<not> nb_eventLoopLock x
           then let (left, x) = sn_remaining (dv_platform D) (nb_eventLoopTimer x) x
                in if left \<le> 0
                   then let (t, x) = sn_start_for (dv_platform D) (nb_eventLoopExecInterval x) (nb_eventLoopTimer x) x
                        in map_option (\<lambda>x. x\<lparr>nb_eventLoopLock := False\<rparr>)
                             (loop_body B D mode (x\<lparr>nb_eventLoopTimer := t, nb_eventLoopLock := True\<rparr>))
                   else Some x
           else Some x);
        let x = (if st \<noteq> InvalidState \<and> nq_evLoopRc x = LC_Idle \<and> isBusy (ls_loop x)
                 then x\<lparr>nq_evLoopRc := LC_Pending\<rparr> else x);
        Some (nq_evLoopRc x, x)
      }
      else Some (nq_evLoopRc x, x))"

text \<open>The constructor. What the client leaves uninitialised is an argument, as in \<open>sn_new\<close>.\<close>

definition mq_new :: "u16 \<Rightarrow> int \<Rightarrow> 'w \<Rightarrow> 'w nmqtt" where
  "mq_new duration inflightLen w =
     nstm.extend (nb_new duration inflightLen w)
       \<lparr>nq_evLoopRc = LC_Idle, nq_pollInterval = word_of_int oneSecondMs, nq_delivered = []\<rparr>"

subsection \<open>Configuration and start\<close>

text \<open>
  \<open>libnbiot.cpp\<close>: the configuration is checked field by field; a field that is out of its range sets
  its bit of the result and leaves the setting alone. Texts are given without their terminating zero.
\<close>

record nbiot_conf =
  cf_notify :: bool
  cf_keepAliveInterval :: int
  cf_autoPollInterval :: int
  cf_maxTopicCount :: u16
  cf_pollInterval :: u16
  cf_gateway :: "byte list option"
  cf_port :: u16
  cf_maxResend :: u16
  cf_login :: "byte list option"
  cf_password :: "byte list option"

definition NoError :: int where "NoError = 0"
definition ErrorKeepAliveInt :: int where "ErrorKeepAliveInt = 64"
definition ErrorAutoPollInt :: int where "ErrorAutoPollInt = 128"
definition ErrorMaxTopicCount :: int where "ErrorMaxTopicCount = 256"
definition ErrorPollInterval :: int where "ErrorPollInterval = 512"
definition ErrorGateway :: int where "ErrorGateway = 1024"
definition ErrorPort :: int where "ErrorPort = 2048"
definition ErrorMaxResend :: int where "ErrorMaxResend = 4096"
definition ErrorMultipleConfig :: int where "ErrorMultipleConfig = 16384"
definition ErrorNoConfig :: int where "ErrorNoConfig = 32768"

lemmas config_errors = NoError_def ErrorKeepAliveInt_def ErrorAutoPollInt_def ErrorMaxTopicCount_def
  ErrorPollInterval_def ErrorGateway_def ErrorPort_def ErrorMaxResend_def ErrorMultipleConfig_def ErrorNoConfig_def

record 'w nlib =
  lb_mqtt :: "'w nmqtt"
  lb_configError :: int

definition lib_new :: "'w nmqtt \<Rightarrow> 'w nlib" where
  "lib_new x = \<lparr>lb_mqtt = x, lb_configError = ErrorNoConfig\<rparr>"

text \<open>The checks, in the order of the code: the bit, whether the field is in its range, and its setter.\<close>

definition config_checks :: "'w devices \<Rightarrow> nbiot_conf \<Rightarrow> (int \<times> bool \<times> ('w nmqtt \<Rightarrow> 'w nmqtt)) list" where
  "config_checks D c =
     [(ErrorKeepAliveInt, 60 \<le> cf_keepAliveInterval c \<and> cf_keepAliveInterval c \<le> 86400,
         \<lambda>x. x\<lparr>nb_keepAliveInterval := cf_keepAliveInterval c\<rparr>),
      (ErrorAutoPollInt, cf_autoPollInterval c \<le> 86399 \<and> cf_autoPollInterval c < cf_keepAliveInterval c,
         setAutoPoll D (cf_autoPollInterval c)),
      (ErrorMaxTopicCount, 1 \<le> cf_maxTopicCount c \<and> cf_maxTopicCount c \<le> 256,
         \<lambda>x. x\<lparr>nb_maxTopics := cf_maxTopicCount c\<rparr>),
      (ErrorPollInterval, 1000 \<le> cf_pollInterval c, \<lambda>x. x\<lparr>nq_pollInterval := cf_pollInterval c\<rparr>),
      (ErrorGateway, cf_gateway c \<noteq> None \<and> cf_gateway c \<noteq> Some [],
         \<lambda>x. x\<lparr>nb_gateway := the (cf_gateway c)\<rparr>),
      (ErrorPort, 1024 \<le> cf_port c, \<lambda>x. x\<lparr>nb_mqttPort := cf_port c\<rparr>),
      (ErrorMaxResend, cf_maxResend c \<le> 10, \<lambda>x. x\<lparr>sn_maxRetry := cf_maxResend c\<rparr>)]"

fun config_fold :: "(int \<times> bool \<times> ('x \<Rightarrow> 'x)) list \<Rightarrow> int \<Rightarrow> 'x \<Rightarrow> int \<times> 'x" where
  "config_fold [] result x = (result, x)"
| "config_fold ((flag, ok, put) # cs) result x =
     (if ok then config_fold cs result (put x) else config_fold cs (or result flag) x)"

definition nbiotConfig :: "'w devices \<Rightarrow> nbiot_conf \<Rightarrow> 'w nlib \<Rightarrow> int \<times> 'w nlib" where
  "nbiotConfig D c l =
     (if lb_configError l = ErrorNoConfig
      then let x = (if cf_notify c then (lb_mqtt l)\<lparr>nb_notifyHandler := True\<rparr> else lb_mqtt l);
               (result, x) = config_fold (config_checks D c) NoError x;
               x = (case cf_login c of Some n \<Rightarrow> x\<lparr>nb_authLogin := n\<rparr> | None \<Rightarrow> x);
               x = (case cf_password c of Some n \<Rightarrow> x\<lparr>nb_authPasswd := n\<rparr> | None \<Rightarrow> x)
           in (result, \<lparr>lb_mqtt = x, lb_configError = result\<rparr>)
      else (ErrorMultipleConfig, l))"

definition nbiotStart :: "'w devices \<Rightarrow> 'w nlib \<Rightarrow> (byte \<times> 'w nlib) option" where
  "nbiotStart D l =
     (if lb_configError l = NoError \<and> as_currentState (nb_stm (lb_mqtt l)) = None
      then map_option (\<lambda>x. (1, l\<lparr>lb_mqtt := x\<rparr>)) (startStateMachine D (setUpStateMachine (lb_mqtt l)))
      else Some (0, l))"

definition isNbiotConnected :: "'w nlib \<Rightarrow> byte option" where
  "isNbiotConnected l =
     map_option (\<lambda>b. if b then 1 else 0) (in_state [ConnectedState, ConnectedSleepState, ConnectedAwakeState] (lb_mqtt l))"

definition isNbiotReady :: "'w nlib \<Rightarrow> byte" where
  "isNbiotReady l = (if nb_initialized (lb_mqtt l) then 1 else 0)"

definition hasNbiotSubscription :: "'w nlib \<Rightarrow> byte" where
  "hasNbiotSubscription l = (if mq_hasSubscription (lb_mqtt l) then 1 else 0)"

definition isNbiotSubscribedTo :: "byte list \<Rightarrow> 'w nlib \<Rightarrow> byte" where
  "isNbiotSubscribedTo name l = (if mq_hasSubscriptionTo name (lb_mqtt l) then 1 else 0)"

end
