(* ===== verification/MqttRuns.thy ===== *)
theory MqttRuns
  imports NbiotMqtt
begin

text \<open>
  The library interface at work: what the requests of the application lead to, across the event loop,
  the state machine, the client and the registry.
\<close>

subsection \<open>Leaving the connection\<close>

text \<open>Entering the disconnected state forgets the error number.\<close>

lemma disconnect_node:
  fixes x :: "('w, 'm) nb"
  assumes b: "nb_base D x"
  obtains y where "run_node (nb_view D) (nb_graph D) (NTransition m_disconnect) e x = Some (setEventState Handled e, y)"
    and "as_currentState (nb_stm y) = Some m_Disconnected" and "nb_errno y = ErrSuccess"
proof -
  define x1 where "x1 = nb_entered m_Disconnected x"
  have "length (sn_sendbuf x1) = 200" using b by (simp add: x1_def nb_base_def)
  then obtain z where z: "doDisconnect D x1 = Some z" "nb_frame x1 z" using doDisconnect_total by blast
  define y where "y = (notify \<lparr>no_state = DisconnectedState, no_action = AcDisconnect, no_returnCode = RC_ACCEPTED,
    no_errorNumber = nb_errno z\<rparr> z)\<lparr>nb_errno := ErrSuccess\<rparr>"
  have "actionDisconnectedEntry D e x1 = Some (True, y)" using z(1) by (simp add: actionDisconnectedEntry_def y_def)
  then have "run_node (nb_view D) (nb_graph D) (NTransition m_disconnect) e x = Some (setEventState Handled e, y)"
    by (simp add: run_node_transition run_node_state State_enter_nb run_action_def x1_def)
  moreover have "as_currentState (nb_stm y) = Some m_Disconnected"
    using z(2) by (simp add: y_def notify_def nb_frame_def x1_def)
  ultimately show thesis by (rule that) (simp add: y_def)
qed

lemma send_disconnect:
  fixes x :: "('w, 'm) nb"
  assumes l: "nb_live D x" and s: "as_currentState (nb_stm x) = Some m_Connected"
    and q: "sq_items (ed_events (nb_disp x)) = []"
  obtains y where "stm_sendEvent D DisconnectEvent x = Some y" and "as_currentState (nb_stm y) = Some m_Disconnected"
    and "nb_errno y = ErrSuccess"
proof -
  have "\<not> timer_armed x" using l s by (auto simp: nb_live_def)
  moreover have "List.find (\<lambda>t. nb_eventType t = DisconnectEvent) (nb_transitions m_Connected) = Some m_disconnect"
    "CustomMin \<le> DisconnectEvent" "DisconnectEvent \<le> CustomMax"
    by (simp_all add: nb_events event_codes)
  ultimately obtain e i y where run: "run_node (nb_view D) (nb_graph D) (NTransition m_disconnect) e (with_id i x) = Some (setEventState Handled e, y)"
    and y: "stm_sendEvent D DisconnectEvent x = Some (nb_disp_update movePending y)"
    using stm_sendEvent_single [OF l s q] by blast
  have "nb_base D (with_id i x)" using l by (simp add: with_id_def nb_live_def nb_base_def)
  then obtain y' where "run_node (nb_view D) (nb_graph D) (NTransition m_disconnect) e (with_id i x) = Some (setEventState Handled e, y')"
    "as_currentState (nb_stm y') = Some m_Disconnected" "nb_errno y' = ErrSuccess"
    using disconnect_node by blast
  then show thesis using run by (intro that [OF y]) auto
qed

text \<open>The state of the connection, from the state of the machine.\<close>

lemma in_state_current:
  "as_currentState (nb_stm x) = Some s \<Longrightarrow> in_state ids x = Some (nb_stateId s \<in> set ids)"
  by (simp add: in_state_def stm_getCurrentStateId_def)

lemma connected_state:
  assumes "as_currentState (nb_stm x) = Some m_Connected"
  shows "mq_isConnected x = Some True" and "mq_isSleeping x = Some False" and "mq_wake D x = Some x"
  using assms by (simp_all add: mq_isConnected_def mq_isSleeping_def in_state_current mq_wake_def)

subsection \<open>Requests in the queue of loops\<close>

text \<open>A registration flag does not move a topic.\<close>

lemma first_match_cong:
  "map eq xs = map eq ys \<Longrightarrow> map_option fst (first_match eq n xs) = map_option fst (first_match eq n ys)"
proof (induction xs arbitrary: ys n)
  case (Cons a xs)
  then show ?case by (cases ys) auto
qed simp

lemma findTopic_setTopicFlag: "registry_findTopic name (registry_setTopicFlag i fl r) = registry_findTopic name r"
proof -
  have "sq_indexOf P xs = sq_indexOf P ys" if "map P xs = map P ys" for P :: "topic \<Rightarrow> bool" and xs ys
    using first_match_cong [OF that, of 0] by (auto simp: sq_indexOf_def split: option.splits)
  moreover have "map (topic_eq_name name) (xs[k := topic_setReg fl (xs ! k)]) = map (topic_eq_name name) xs" for xs k
  proof (rule nth_equalityI)
    fix i assume "i < length (map (topic_eq_name name) (xs[k := topic_setReg fl (xs ! k)]))"
    moreover have "topic_eq_name name (topic_setReg fl t) = topic_eq_name name t" for t
      by (simp add: topic_eq_name_def topic_setReg_def)
    ultimately show "map (topic_eq_name name) (xs[k := topic_setReg fl (xs ! k)]) ! i = map (topic_eq_name name) xs ! i"
      by (cases "i = k") simp_all
  qed simp
  ultimately have "sq_indexOf (topic_eq_name name) (xs[k := topic_setReg fl (xs ! k)]) = sq_indexOf (topic_eq_name name) xs" for xs k
    by blast
  then show ?thesis
    by (simp add: registry_findTopic_def registry_indexOf_def registry_setTopicFlag_def sq_index_def sq_modify_def)
qed

lemma registerTopic_requests:
  fixes x :: "('w, 'm) mq"
  assumes "length (sn_sendbuf x) = 200" and "0 \<notin> set name" and "length name \<le> 194"
    and tn: "tn = \<lparr>tp_type = TNormal, tp_data = ULong (Some (name @ [0])) l\<rparr>"
  obtains n buf t v where "sn_registerTopic tn x = Some (SUCCESS, register_client LI_Register
      (client_setTime LI_Register t (lc_setValue LI_Register v (x\<lparr>sn_packetid := n, sn_sendbuf := buf, sn_topicName := tn\<rparr>))))"
    and "length buf = 200"
proof -
  obtain i m where id: "PacketId_getNext (sn_packetid x) = (i, m)" by force
  define s where "s = \<lparr>ms_cstring = Some (name @ [0]), ms_len = l, ms_data = None\<rparr>"
  have h: "ms_holds (s\<lparr>ms_len := 0\<rparr>) name" using assms(2) by (simp add: s_def ms_holds_def)
  define w where "w = register_wire (0, word_of_int i, name)"
  have len: "length w = length name + 6"
    using length_register_wire [of 0 "word_of_int i" name] by (simp add: w_def)
  have "MQTTSNSerialize_register (sn_sendbuf x) MAX_PACKET_SIZE 0 (word_of_int i) s
      = MQTTSNSerialize_register (sn_sendbuf x) MAX_PACKET_SIZE 0 (word_of_int i) (s\<lparr>ms_len := 0\<rparr>)"
    by (simp only: MQTTSNSerialize_register_def s_def mstring.simps option.case)
  also have "\<dots> = Some (int (length name) + 6, w @ drop (length w) (sn_sendbuf x))"
    using assms(1,3) by (subst MQTTSNSerialize_register_form [OF h]) (simp_all add: sn_consts w_def)
  finally have ser: "MQTTSNSerialize_register (sn_sendbuf x) MAX_PACKET_SIZE 0 (word_of_int i)
      \<lparr>ms_cstring = Some (name @ [0]), ms_len = l, ms_data = None\<rparr>
      = Some (int (length name) + 6, w @ drop (length w) (sn_sendbuf x))" by (simp add: s_def)
  show thesis
  proof (rule that)
    show "sn_registerTopic tn x = Some (SUCCESS, register_client LI_Register
      (client_setTime LI_Register (sn_command_timeout x) (lc_setValue LI_Register (int (length name) + 6)
        (x\<lparr>sn_packetid := m, sn_sendbuf := w @ drop (length w) (sn_sendbuf x), sn_topicName := tn\<rparr>))))"
      using ser by (simp add: sn_registerTopic_def tn next_id_def id)
    show "length (w @ drop (length w) (sn_sendbuf x)) = 200" using len assms(1,3) by simp
  qed
qed

text \<open>The request to publish, and the poll behind it.\<close>

lemma publish_poll_requests:
  fixes x :: "('w, 'm) mq"
  assumes "sn_isconnected x" and s: "as_currentState (nb_stm x) = Some m_Connected"
  obtains y z where "sn_publish (dv_platform D) tn m x = (SUCCESS, y)" and "mq_poll D 0 y = Some z"
    and "sq_items (nl_clientList (ls_loop z)) = sq_items (nl_clientList (ls_loop x)) @ [Some LI_Publish, Some LI_Yield]"
    and "as_currentState (nb_stm z) = Some m_Connected" and "nb_errno z = nb_errno x" and "sn_topicName z = tn"
    and "sn_payload z = mg_payload m" and "sn_payloadlen z = mg_payloadlen m" and "sn_qos z = mg_qos m"
    and "nb_registry z = nb_registry x" and "nb_currentTopic z = nb_currentTopic x"
proof -
  let ?clk = "\<lambda>w. fst (pf_clock (dv_platform D) w)" and ?w = "\<lambda>w. snd (pf_clock (dv_platform D) w)"
  define w where "w = ?w (?w (ls_env x))"
  define tm where "tm = tm_remaining (?clk (?w (ls_env x))) (tm_start_for (?clk (ls_env x)) (sn_command_timeout x) tm_new)"
  obtain i n where id: "(if QOS1 = mg_qos m then next_id (x\<lparr>ls_env := ?w (ls_env x)\<rparr>) else (0, x\<lparr>ls_env := ?w (ls_env x)\<rparr>))
      = (i, x\<lparr>ls_env := ?w (ls_env x), sn_packetid := n\<rparr>)"
  proof (cases "QOS1 = mg_qos m")
    case True
    then show thesis by (intro that) (simp add: next_id_def split_def Let_def)
  next
    case False
    have "x\<lparr>ls_env := w\<rparr> = x\<lparr>ls_env := w, sn_packetid := sn_packetid x\<rparr>" for w by (cases x) simp
    then show thesis using False by (intro that [of 0 "sn_packetid x"]) simp
  qed
  have pub: "sn_publish (dv_platform D) tn m x = (SUCCESS, loopPublish i tm
      (x\<lparr>ls_env := w, sn_packetid := n, sn_topicName := tn, sn_payload := mg_payload m, sn_payloadlen := mg_payloadlen m,
         sn_retained := mg_retained m, sn_qos := mg_qos m\<rparr>))"
    using assms(1) id
    by (cases x; cases "QOS1 = mg_qos m")
      (simp_all add: sn_publish_def sn_Timer_def sn_start_for_def sn_remaining_def sn_clock_def split_def Let_def w_def tm_def)
  define y where "y = loopPublish i tm (x\<lparr>ls_env := w, sn_packetid := n, sn_topicName := tn, sn_payload := mg_payload m,
    sn_payloadlen := mg_payloadlen m, sn_retained := mg_retained m, sn_qos := mg_qos m\<rparr>)"
  have cur: "as_currentState (nb_stm y) = Some m_Connected"
    using s by (simp add: y_def loopPublish_def register_client_def client_setTime_def lc_setValue_def)
  define ms where "ms = (if \<not> mq_hasSubscription y then halfSecondMs else uint (nq_pollInterval y))"
  have poll: "mq_poll D 0 y = Some (restartAutoPoll D (loopYield ms y))"
    using connected_state [OF cur] by (simp add: mq_poll_def sn_yield_def ms_def Let_def)
  from pub [folded y_def] poll show thesis
    by (rule that)
      (simp_all add: cur restartAutoPoll_def sn_start_for_def sn_clock_def split_def Let_def,
       simp_all add: s y_def loopYield_def loopPublish_def register_client_def client_setTime_def lc_setValue_def
         registerLoopClient_def sq_append_def)
qed

subsection \<open>A publish without an answer\<close>

text \<open>The time of the loop \<open>c\<close> is over, for this reading of the clock and the next.\<close>

definition loop_expired :: "'w platform \<Rightarrow> NbiotLoopId \<Rightarrow> ('w, 'm) sn \<Rightarrow> bool" where
  "loop_expired P c s \<longleftrightarrow> fst (client_remaining P c s) = 0
     \<and> fst (client_remaining P c (snd (client_remaining P c s))) = 0"

lemma publish_step_expired:
  assumes "loop_running LI_Publish s" and "loop_expired P LI_Publish s" and "sn_qos s \<noteq> QOS0" and "sn_pubRetryCount s = 0"
  obtains w l objs where "nbiotLoop (LoopClient (sn_loops P N A)) s = Some (LC_Fail, s\<lparr>ls_env := w, ls_loop := l, ls_objs := objs\<rparr>)"
    and "l = (ls_loop s)\<lparr>nl_loopValue := 0, nl_loopClient := None\<rparr>"
proof -
  define w where "w = snd (pf_clock P (snd (pf_clock P (ls_env s))))"
  define s1 where "s1 = lc_setValue LI_Publish 0 (s\<lparr>ls_env := w\<rparr>)"
  have r: "client_remaining P LI_Publish s = (0, s\<lparr>ls_env := snd (pf_clock P (ls_env s))\<rparr>)"
    and "client_remaining P LI_Publish (s\<lparr>ls_env := snd (pf_clock P (ls_env s))\<rparr>) = (0, s\<lparr>ls_env := w\<rparr>)"
    using assms(2) by (simp_all add: loop_expired_def client_remaining_def sn_remaining_def sn_clock_def split_def Let_def w_def)
  then have "loop_cycle P N LI_Publish (msg_code PUBACK) (s\<lparr>ls_env := snd (pf_clock P (ls_env s))\<rparr>) = Some (False, s1)"
    by (simp add: loop_cycle_def loopWait_def loopInterval_def to_int_def s1_def)
  then have f: "doPubLoop P N s = Some (False, s1)" using r assms(3,4) by (simp add: doPubLoop_def)
  have g: "finishPubLoop s1 = Some (False, s1)"
    using assms(3) by (simp add: finishPubLoop_def s1_def lc_setValue_def client_ctrl_def)
  define l where "l = (ls_loop s)\<lparr>nl_loopValue := 0, nl_loopClient := None\<rparr>"
  define objs where "objs = (ls_objs s)(LI_Publish := (ls_objs s LI_Publish)\<lparr>lc_ctrl := 0, lc_result := LC_Fail\<rparr>)"
  have "s1\<lparr>ls_objs := (ls_objs s1)(LI_Publish := (ls_objs s1 LI_Publish)\<lparr>lc_result := LC_Fail\<rparr>), ls_loop := l\<rparr>
      = s\<lparr>ls_env := w, ls_loop := l, ls_objs := objs\<rparr>"
    by (cases s) (simp add: s1_def objs_def lc_setValue_def)
  moreover have "lc_ctrl (ls_objs s1 LI_Publish) = 0" "ls_loop s1 = ls_loop s" "lc_result (ls_objs s1 LI_Publish) = LC_Pending"
    using assms(1) by (simp_all add: s1_def lc_setValue_def loop_running_def)
  ultimately have "nbiotLoop (LoopClient (sn_loops P N A)) s = Some (LC_Fail, s\<lparr>ls_env := w, ls_loop := l, ls_objs := objs\<rparr>)"
    using assms(1) f g
      nbiotLoop_last_step [where s = s and H = "sn_loops P N A" and c = LI_Publish and f = "doPubLoop P N" and g = finishPubLoop
        and ?s1.0 = s1 and ?s2.0 = s1 and b = False]
    by (simp add: loop_running_def l_def)
  then show thesis by (rule that) (simp add: l_def)
qed

text \<open>A dispatch that finds no event: what was posted moves to the queue.\<close>

lemma nb_dispatch_none:
  assumes "\<not> timer_armed x" and "sq_items (ed_events (nb_disp x)) = []"
  shows "nb_dispatch D x = Some (nb_disp_update movePending x)"
proof -
  have "handle_events (nb_view D) (nb_graph D) x = Some x"
    using assms(2) by (subst handle_events.simps) (simp add: sq_count_def)
  then show ?thesis by (simp add: nb_dispatch_def dispatch_def checkTimeout_unarmed [OF assms(1)])
qed

text \<open>The automatic poll behind the dispatcher.\<close>

lemma loop_idle_none:
  fixes x :: "('w, 'm) mq"
  assumes "\<not> timer_armed x" and "sq_items (ed_events (nb_disp x)) = []"
  obtains y where "loop_idle D x = Some y" and "nb_stm y = nb_stm x" and "nb_disp y = movePending (nb_disp x)"
    and "nb_errno y = nb_errno x" and "nb_notified y = nb_notified x"
proof -
  define z where "z = nb_disp_update movePending x"
  define y where "y = (if 0 < nb_autoPollInterval z \<and> sn_isconnected z
     then let (left, z) = sn_remaining (dv_platform D) (nb_autoPollTimer z) z
          in if left \<le> 0 then restartAutoPoll D (snd (sn_yield halfSecondMs z)) else z
     else z)"
  have "loop_idle D x = Some y" by (simp add: loop_idle_def nb_dispatch_none [OF assms] y_def flip: z_def)
  moreover have "nb_stm y = nb_stm z \<and> nb_disp y = nb_disp z \<and> nb_errno y = nb_errno z \<and> nb_notified y = nb_notified z"
    by (simp add: y_def restartAutoPoll_def sn_yield_def loopYield_def lc_setValue_def register_client_def sn_start_for_def
        sn_remaining_def sn_clock_def split_def Let_def)
  ultimately show thesis by (intro that [of y]) (simp_all add: z_def)
qed

subsection \<open>A bench\<close>

definition mq_bench :: "nat nmqtt" where
  "mq_bench = (mq_new 0 0 0)\<lparr>nb_authLogin := [49], nb_gateway := [49], nb_notifyHandler := True\<rparr>"

definition mq_run :: "int list \<Rightarrow> nat nmqtt option" where
  "mq_run ts = fold (\<lambda>t x. Option.bind x (stm_sendEvent (bench True) t)) ts
     (startStateMachine (bench True) (setUpStateMachine mq_bench))"

lemma mq_run_reachable: "mq_run ts = Some x \<Longrightarrow> nb_reachable (bench True) x"
proof (induction ts arbitrary: x rule: rev_induct)
  case Nil
  have "nb_stm mq_bench = astm_new (Some tm_new)" "nb_disp mq_bench = evdisp_new" "length (sn_sendbuf mq_bench) = 200"
    by (simp_all add: mq_bench_def mq_new_def nstm.defs nb_new_def sn_new_def snsys.defs)
  with Nil show ?case by (auto simp: mq_run_def intro: nb_reachable.start)
next
  case (snoc t ts)
  then obtain y where "mq_run ts = Some y" "stm_sendEvent (bench True) t y = Some x"
    by (auto simp: mq_run_def bind_eq_Some_conv)
  then show ?case using snoc.IH nb_reachable.send by blast
qed

lemma mq_connected:
  "map_option (\<lambda>x. (as_currentState (nb_stm x), sq_items (ed_events (nb_disp x)), nb_initialized x,
       sq_items (nl_clientList (ls_loop x)), nl_loopId (ls_loop x), sq_items (rg_list (nb_registry x)), to_mh (nb_currentTopic x)))
     (mq_run [ConnectEvent, ConnectedEvent])
   = Some (Some m_Connected, [], True, [Some LI_Connect], LI_Unknown, [], None)"
  by code_simp

text \<open>The same when the loop of the request is over and the client is connected.\<close>

definition served :: "nat nmqtt \<Rightarrow> nat nmqtt" where
  "served x = on_loop (\<lambda>l. l\<lparr>nl_clientList := (nl_clientList l)\<lparr>sq_items := []\<rparr>\<rparr>) (x\<lparr>sn_isconnected := True\<rparr>)"

lemma reachable_outside:
  assumes "nb_reachable D x" and "clock_running D" and "nb_frame x y"
  shows "nb_reachable D y"
  using assms nb_reachable_live [OF assms(1,2)]
  by (intro nb_reachable.outside [OF assms(1)]) (auto simp: nb_frame_def nb_live_def nb_base_def)

lemma bench_connected:
  obtains x where "nb_reachable (bench True) x" and "as_currentState (nb_stm x) = Some m_Connected"
    and "sq_items (ed_events (nb_disp x)) = []" and "nb_initialized x" and "sq_items (nl_clientList (ls_loop x)) = []"
    and "nl_loopId (ls_loop x) = LI_Unknown" and "sq_items (rg_list (nb_registry x)) = []"
    and "sn_isconnected (x :: nat nmqtt)" and "to_mh (nb_currentTopic x) = None"
proof -
  obtain y where y: "mq_run [ConnectEvent, ConnectedEvent] = Some y" "as_currentState (nb_stm y) = Some m_Connected"
    "sq_items (ed_events (nb_disp y)) = []" "nb_initialized y" "nl_loopId (ls_loop y) = LI_Unknown"
    "sq_items (rg_list (nb_registry y)) = []" "to_mh (nb_currentTopic y) = None"
    using mq_connected by (auto simp: map_option_case split: option.splits)
  have "nb_frame y (served y)" by (simp add: served_def nb_frame_def)
  from reachable_outside [OF mq_run_reachable [OF y(1)] bench_clock this] show thesis
    by (rule that) (simp_all add: served_def y)
qed

subsection \<open>Properties\<close>

text \<open>
  C10: a publish that finds no room for its topic disconnects, and returns the code for success: the error
  number is read after the entry of the disconnected state has reset it.
\<close>

theorem publish_without_room:
  assumes "nb_reachable D x" and "clock_running D" and s: "as_currentState (nb_stm x) = Some m_Connected"
    and q: "sq_items (ed_events (nb_disp x)) = []" and "nb_initialized x" and "\<not> isBusy (ls_loop x)"
    and "registry_findTopic name (nb_registry x) < 0" and "\<not> room_for_topic x"
  shows "\<exists>y. mq_publish D name data len qos x = Some (ErrSuccess, y) \<and> as_currentState (nb_stm y) = Some m_Disconnected"
proof -
  define x1 where "x1 = x\<lparr>nb_errno := MaxTopicsExceeded, sn_topicName := \<lparr>tp_type = TNormal, tp_data = UId invalidTopicId\<rparr>\<rparr>"
  have "nb_frame x x1" by (simp add: x1_def nb_frame_def)
  then have l: "nb_live D x1" using nb_live_frame nb_reachable_live [OF assms(1,2)] by blast
  have "publish_topic name x = Some (FAILURE, x1)"
    using assms(7,8) by (simp add: publish_topic_def x1_def room_for_topic_def Let_def)
  moreover obtain y where "stm_sendEvent D DisconnectEvent x1 = Some y" "as_currentState (nb_stm y) = Some m_Disconnected"
    "nb_errno y = ErrSuccess"
    using send_disconnect [OF l] s q by (auto simp: x1_def)
  moreover have "nb_errno x1 \<noteq> ErrSuccess" by (simp add: x1_def)
  ultimately show ?thesis
    using assms(5,6) connected_state [OF s] by (simp add: mq_publish_def sn_consts)
qed

lemma publish_without_room_witness:
  "\<exists>x y. mq_publish (bench True) [97] (Some [98]) 1 1 x = Some (ErrSuccess, y)
    \<and> as_currentState (nb_stm (x :: nat nmqtt)) = Some m_Connected \<and> as_currentState (nb_stm y) = Some m_Disconnected"
proof -
  obtain x :: "nat nmqtt" where x: "nb_reachable (bench True) x" "as_currentState (nb_stm x) = Some m_Connected"
    "sq_items (ed_events (nb_disp x)) = []" "nb_initialized x" "sq_items (nl_clientList (ls_loop x)) = []"
    "nl_loopId (ls_loop x) = LI_Unknown" "sq_items (rg_list (nb_registry x)) = []"
    by (rule bench_connected)
  define y where "y = x\<lparr>nb_maxTopics := 0\<rparr>"
  have r: "nb_reachable (bench True) y"
    using reachable_outside [OF x(1) bench_clock, of y] by (simp add: y_def nb_frame_def)
  have p: "as_currentState (nb_stm y) = Some m_Connected" "sq_items (ed_events (nb_disp y)) = []" "nb_initialized y"
    "\<not> isBusy (ls_loop y)" "registry_findTopic [97] (nb_registry y) < 0" "\<not> room_for_topic y"
    using x by (simp_all add: y_def isBusy_def sq_count_def room_for_topic_def registry_findTopic_def
        registry_indexOf_def sq_index_def sq_indexOf_def)
  from publish_without_room [OF r bench_clock p, of "Some [98]" 1 1] p(1) show ?thesis by blast
qed



text \<open>
  C9: a publish without an answer is reported as published. When the time of the loop is over and no
  retransmission is left, the event loop notifies the application of an accepted publish without an
  error, although it takes the connection for lost, sets the error number and posts the event to disconnect.
\<close>

theorem silent_publish_reported:
  fixes x :: "('w, 'm) mq"
  assumes "nb_reachable D x" and "clock_running D" and s: "as_currentState (nb_stm x) = Some m_Connected"
    and q: "sq_items (ed_events (nb_disp x)) = []" and n: "nb_notifyHandler x"
    and run: "loop_running LI_Publish x" "nl_loopId (ls_loop x) = LI_Publish" "loop_expired (dv_platform D) LI_Publish x"
    and "sn_qos x \<noteq> QOS0" and "sn_pubRetryCount x = 0"
  shows "\<exists>y ev. loop_body B D EventModeActive x = Some y
    \<and> nb_notified y = nb_notified x @ [\<lparr>no_state = ConnectedState, no_action = AcPublish, no_returnCode = RC_ACCEPTED, no_errorNumber = ErrSuccess\<rparr>]
    \<and> nb_errno y = ConnectionError \<and> sq_items (ed_events (nb_disp y)) = sq_items (ed_pendingEvents (nb_disp x)) @ [ev] \<and> ev_type ev = DisconnectEvent"
proof -
  have u: "\<not> timer_armed x" using nb_reachable_live [OF assms(1,2)] s by (auto simp: nb_live_def)
  obtain w l objs where step: "nbiotLoop (mq_loops B D) x = Some (LC_Fail, x\<lparr>ls_env := w, ls_loop := l, ls_objs := objs\<rparr>)"
    and l: "l = (ls_loop x)\<lparr>nl_loopValue := 0, nl_loopClient := None\<rparr>"
    unfolding mq_loops_def by (rule publish_step_expired [OF run(1,3) assms(9,10)])
  define x1 where "x1 = x\<lparr>ls_env := w, ls_loop := l, ls_objs := objs\<rparr>"
  define n where "n = \<lparr>no_state = ConnectedState, no_action = AcPublish, no_returnCode = RC_ACCEPTED, no_errorNumber = ErrSuccess\<rparr>"
  define x2 where "x2 = on_loop (registerLoopClient None) (stm_postEvent DisconnectEvent
    (x1\<lparr>nb_currentTopic := (nb_currentTopic x)\<lparr>to_returnCode := 0\<rparr>, nb_notified := nb_notified x @ [n], nb_errno := ConnectionError\<rparr>))"
  have "loop_failed D x1 = Some x2"
    using run(2) l s assms(5)
    by (simp add: loop_failed_def pubackNotify_def notify_state_def notify_def stm_getCurrentStateId_def x1_def x2_def n_def
        RC_ACCEPTED_def RC_REJECTED_INVALID_TOPIC_ID_def)
  moreover have "nl_loopId (ls_loop x2) = LI_Unknown"
    by (simp add: x2_def registerLoopClient_def nl_clear_def)
  moreover have "\<not> timer_armed x2" "sq_items (ed_events (nb_disp x2)) = []"
    using u q by (simp_all add: x2_def x1_def stm_postEvent_def postPendingEvent_def timer_armed_def)
  then obtain y where "loop_idle D x2 = Some y" "nb_disp y = movePending (nb_disp x2)" "nb_errno y = nb_errno x2"
    "nb_notified y = nb_notified x2"
    by (rule loop_idle_none)
  ultimately show ?thesis
    using step q
    by (intro exI [of _ "y\<lparr>nq_evLoopRc := LC_Idle\<rparr>"] exI [of _ "setCustomEventType DisconnectEvent (StmEvent_new EvInvalid)"])
      (simp add: loop_body_def loop_asleep_def x2_def n_def stm_postEvent_def postPendingEvent_def movePending_def sq_append_def
        setCustomEventType_def StmEvent_new_def nb_events event_codes flip: x1_def, simp add: x1_def)
qed

lemma silent_publish_reported_witness:
  "\<exists>x y. loop_body (\<lambda>_. 0) (bench True) EventModeActive (x :: nat nmqtt) = Some y \<and> nb_errno y = ConnectionError
    \<and> last (nb_notified y) = \<lparr>no_state = ConnectedState, no_action = AcPublish, no_returnCode = RC_ACCEPTED, no_errorNumber = ErrSuccess\<rparr>"
proof -
  obtain x :: "nat nmqtt" where x: "nb_reachable (bench True) x" "as_currentState (nb_stm x) = Some m_Connected"
    "sq_items (ed_events (nb_disp x)) = []"
    by (rule bench_connected)
  have len: "length (sn_sendbuf x) = 200" using nb_reachable_live [OF x(1) bench_clock] by (simp add: nb_live_def nb_base_def)
  define y where "y = x\<lparr>nb_notifyHandler := True, sn_qos := QOS1, sn_pubRetryCount := 0, sn_readbuf := replicate 200 0,
    ls_loop := nloop_new\<lparr>nl_loopClient := Some LI_Publish, nl_loopId := LI_Publish\<rparr>,
    ls_objs := lclient_new(LI_Publish := (lclient_new LI_Publish)\<lparr>lc_result := LC_Pending,
      lc_timer := tm_start_for (nt_new\<lparr>nt_timestamp := 4\<rparr>) 500 tm_new\<rparr>)\<rparr>"
  have r: "nb_reachable (bench True) y"
    using reachable_outside [OF x(1) bench_clock, of y] by (simp add: y_def nb_frame_def)
  have p: "as_currentState (nb_stm y) = Some m_Connected" "sq_items (ed_events (nb_disp y)) = []" "nb_notifyHandler y"
    "loop_running LI_Publish y" "nl_loopId (ls_loop y) = LI_Publish" "loop_expired (dv_platform (bench True)) LI_Publish y"
    "sn_qos y \<noteq> QOS0" "sn_pubRetryCount y = 0"
    using x len
    by (simp_all add: y_def loop_running_def nloop_new_def lclient_new_def loop_expired_def client_remaining_def sn_remaining_def
        sn_clock_def bench_def bench_platform_def tm_start_for_def tm_remaining_def nt_getMillis_def nt_new_def tm_new_def to_ulong_def
        ulong_mod_def sn_consts Let_def)
  from silent_publish_reported [OF r bench_clock p, of "\<lambda>_. 0"] show ?thesis by fastforce
qed

end
