(* ===== verification/MqttConfig.thy ===== *)
theory MqttConfig
  imports MqttRuns
begin

text \<open>
  The configuration of the library (\<open>libNbiot/src/libnbiot.cpp\<close>): what it accepts, what it stores and
  what becomes of an accepted setting in the CONNECT packet.
\<close>

text \<open>The documented range of each field, with the flag for a field outside of it.\<close>

definition config_fields :: "nbiot_conf \<Rightarrow> (int \<times> bool) list" where
  "config_fields c =
     [(64, cf_keepAliveInterval c \<in> {60..86400}), (128, cf_autoPollInterval c < min 86400 (cf_keepAliveInterval c)),
      (256, cf_maxTopicCount c \<in> {1..256}), (512, 1000 \<le> cf_pollInterval c),
      (1024, cf_gateway c \<notin> {None, Some []}), (2048, 1024 \<le> cf_port c), (4096, cf_maxResend c \<le> 10)]"

definition config_flags :: "nbiot_conf \<Rightarrow> int" where
  "config_flags c = (\<Sum>(flag, ok) \<leftarrow> config_fields c. if ok then 0 else flag)"

lemma config_fold_split:
  "config_fold cs r x = (fold (\<lambda>(f, ok, p) r. if ok then r else or r f) cs r, fold (\<lambda>(f, ok, p) x. if ok then p x else x) cs x)"
  by (induction cs r x rule: config_fold.induct) auto

lemma flags_or:
  "fold (\<lambda>(f, ok, p) r. if ok then r else or r f)
     [(64, a, p1), (128, b, p2), (256, c, p3), (512, d, p4), (1024, e, p5), (2048, f, p6), (4096, g, p7)] (0 :: int)
   = (\<Sum>(f, ok) \<leftarrow> [(64, a), (128, b), (256, c), (512, d), (1024, e), (2048, f), (4096, g)]. if ok then 0 else f)"
  by (cases a; cases b; cases c; cases d; cases e; cases f; cases g; simp)

lemma config_result: "fst (config_fold (config_checks D c) NoError x) = config_flags c"
  by (simp only: config_fold_split fst_conv config_checks_def config_errors flags_or)
    (simp add: config_flags_def config_fields_def less_le_not_le min_def, presburger)

lemma config_flags_bounds: "0 \<le> config_flags c" "config_flags c < 16384"
  "config_flags c = 0 \<longleftrightarrow> list_all snd (config_fields c)"
  by (auto simp: config_flags_def config_fields_def)

text \<open>What the checks store.\<close>

lemma config_stores:
  fixes x :: "'w nmqtt" and D :: "'w devices" and c :: nbiot_conf
  defines "y \<equiv> snd (config_fold (config_checks D c) NoError x)"
  shows "nb_keepAliveInterval y = (if cf_keepAliveInterval c \<in> {60..86400} then cf_keepAliveInterval c else nb_keepAliveInterval x)"
    and "nb_autoPollInterval y = (if cf_autoPollInterval c < min 86400 (cf_keepAliveInterval c) then cf_autoPollInterval c else nb_autoPollInterval x)"
    and "nb_maxTopics y = (if cf_maxTopicCount c \<in> {1..256} then cf_maxTopicCount c else nb_maxTopics x)"
    and "nq_pollInterval y = (if 1000 \<le> cf_pollInterval c then cf_pollInterval c else nq_pollInterval x)"
    and "nb_gateway y = (if cf_gateway c \<notin> {None, Some []} then the (cf_gateway c) else nb_gateway x)"
    and "nb_mqttPort y = (if 1024 \<le> cf_port c then cf_port c else nb_mqttPort x)"
    and "sn_maxRetry y = (if cf_maxResend c \<le> 10 then cf_maxResend c else sn_maxRetry x)"
    and "nb_stm y = nb_stm x"
proof -
  have set: "g (if b then f z else z) = (if b then g (f z) else g z)" for g :: "'w nmqtt \<Rightarrow> 'b" and b f z by simp
  note step = y_def config_fold_split config_checks_def setAutoPoll_def sn_start_for_def sn_clock_def split_def Let_def
  show "nb_keepAliveInterval y = (if cf_keepAliveInterval c \<in> {60..86400} then cf_keepAliveInterval c else nb_keepAliveInterval x)"
    by (simp add: step set [of nb_keepAliveInterval])
  show "nb_autoPollInterval y = (if cf_autoPollInterval c < min 86400 (cf_keepAliveInterval c) then cf_autoPollInterval c else nb_autoPollInterval x)"
    by (simp add: step set [of nb_autoPollInterval])
  show "nb_maxTopics y = (if cf_maxTopicCount c \<in> {1..256} then cf_maxTopicCount c else nb_maxTopics x)"
    by (simp add: step set [of nb_maxTopics])
  show "nq_pollInterval y = (if 1000 \<le> cf_pollInterval c then cf_pollInterval c else nq_pollInterval x)"
    by (simp add: step set [of nq_pollInterval])
  show "nb_gateway y = (if cf_gateway c \<notin> {None, Some []} then the (cf_gateway c) else nb_gateway x)"
    by (simp add: step set [of nb_gateway])
  show "nb_mqttPort y = (if 1024 \<le> cf_port c then cf_port c else nb_mqttPort x)"
    by (simp add: step set [of nb_mqttPort])
  show "sn_maxRetry y = (if cf_maxResend c \<le> 10 then cf_maxResend c else sn_maxRetry x)"
    by (simp add: step set [of sn_maxRetry])
  show "nb_stm y = nb_stm x"
    by (simp add: step set [of nb_stm])
qed

text \<open>The first configuration: its result, and the settings after it.\<close>

lemma nbiotConfig_first:
  assumes "lb_configError l = ErrorNoConfig"
  obtains x where "nbiotConfig D c l = (config_flags c, \<lparr>lb_mqtt = x, lb_configError = config_flags c\<rparr>)"
    and "nb_keepAliveInterval x = (if cf_keepAliveInterval c \<in> {60..86400} then cf_keepAliveInterval c else nb_keepAliveInterval (lb_mqtt l))"
    and "nb_autoPollInterval x = (if cf_autoPollInterval c < min 86400 (cf_keepAliveInterval c) then cf_autoPollInterval c else nb_autoPollInterval (lb_mqtt l))"
    and "nb_maxTopics x = (if cf_maxTopicCount c \<in> {1..256} then cf_maxTopicCount c else nb_maxTopics (lb_mqtt l))"
    and "nq_pollInterval x = (if 1000 \<le> cf_pollInterval c then cf_pollInterval c else nq_pollInterval (lb_mqtt l))"
    and "nb_gateway x = (if cf_gateway c \<notin> {None, Some []} then the (cf_gateway c) else nb_gateway (lb_mqtt l))"
    and "nb_mqttPort x = (if 1024 \<le> cf_port c then cf_port c else nb_mqttPort (lb_mqtt l))"
    and "sn_maxRetry x = (if cf_maxResend c \<le> 10 then cf_maxResend c else sn_maxRetry (lb_mqtt l))"
proof -
  define x0 where "x0 = (if cf_notify c then (lb_mqtt l)\<lparr>nb_notifyHandler := True\<rparr> else lb_mqtt l)"
  define x1 where "x1 = snd (config_fold (config_checks D c) NoError x0)"
  define x2 where "x2 = (case cf_login c of Some n \<Rightarrow> x1\<lparr>nb_authLogin := n\<rparr> | None \<Rightarrow> x1)"
  define x where "x = (case cf_password c of Some n \<Rightarrow> x2\<lparr>nb_authPasswd := n\<rparr> | None \<Rightarrow> x2)"
  have "config_fold (config_checks D c) NoError x0 = (config_flags c, x1)"
    by (simp add: prod_eq_iff config_result x1_def)
  then have r: "nbiotConfig D c l = (config_flags c, \<lparr>lb_mqtt = x, lb_configError = config_flags c\<rparr>)"
    using assms by (simp add: nbiotConfig_def x2_def x_def Let_def split: option.split flip: x0_def)
  note stores = config_stores [of D c x0, folded x1_def]
  have x: "nb_keepAliveInterval x = nb_keepAliveInterval x1" "nb_autoPollInterval x = nb_autoPollInterval x1"
    "nb_maxTopics x = nb_maxTopics x1" "nq_pollInterval x = nq_pollInterval x1" "nb_gateway x = nb_gateway x1"
    "nb_mqttPort x = nb_mqttPort x1" "sn_maxRetry x = sn_maxRetry x1"
    by (simp_all add: x_def x2_def split: option.split)
  have x0: "nb_keepAliveInterval x0 = nb_keepAliveInterval (lb_mqtt l)" "nb_autoPollInterval x0 = nb_autoPollInterval (lb_mqtt l)"
    "nb_maxTopics x0 = nb_maxTopics (lb_mqtt l)" "nq_pollInterval x0 = nq_pollInterval (lb_mqtt l)"
    "nb_gateway x0 = nb_gateway (lb_mqtt l)" "nb_mqttPort x0 = nb_mqttPort (lb_mqtt l)" "sn_maxRetry x0 = sn_maxRetry (lb_mqtt l)"
    by (simp_all add: x0_def)
  show thesis by (rule that [OF r]) (simp_all only: x stores x0)
qed

subsection \<open>Properties\<close>

text \<open>
  C11: the first configuration returns the sum of the flags of the fields that are outside of their
  ranges and keeps it; every field inside of its range is stored and any other leaves its setting as it was. A
  second configuration is refused, and unless the result is zero the library does not start.
\<close>

theorem config_outcome:
  assumes "lb_configError l = ErrorNoConfig"
  shows "\<exists>l'. nbiotConfig D c l = (config_flags c, l') \<and> nbiotConfig D d l' = (ErrorMultipleConfig, l')
    \<and> (config_flags c = 0 \<or> nbiotStart D l' = Some (0, l'))
    \<and> (let x = lb_mqtt l; y = lb_mqtt l'
       in nb_keepAliveInterval y = (if cf_keepAliveInterval c \<in> {60..86400} then cf_keepAliveInterval c else nb_keepAliveInterval x)
        \<and> nb_autoPollInterval y = (if cf_autoPollInterval c < min 86400 (cf_keepAliveInterval c) then cf_autoPollInterval c else nb_autoPollInterval x)
        \<and> nb_maxTopics y = (if cf_maxTopicCount c \<in> {1..256} then cf_maxTopicCount c else nb_maxTopics x)
        \<and> nq_pollInterval y = (if 1000 \<le> cf_pollInterval c then cf_pollInterval c else nq_pollInterval x)
        \<and> nb_gateway y = (if cf_gateway c \<notin> {None, Some []} then the (cf_gateway c) else nb_gateway x)
        \<and> nb_mqttPort y = (if 1024 \<le> cf_port c then cf_port c else nb_mqttPort x)
        \<and> sn_maxRetry y = (if cf_maxResend c \<le> 10 then cf_maxResend c else sn_maxRetry x))"
proof -
  obtain x where x: "nbiotConfig D c l = (config_flags c, \<lparr>lb_mqtt = x, lb_configError = config_flags c\<rparr>)"
    and "nb_keepAliveInterval x = (if cf_keepAliveInterval c \<in> {60..86400} then cf_keepAliveInterval c else nb_keepAliveInterval (lb_mqtt l))"
    "nb_autoPollInterval x = (if cf_autoPollInterval c < min 86400 (cf_keepAliveInterval c) then cf_autoPollInterval c else nb_autoPollInterval (lb_mqtt l))"
    "nb_maxTopics x = (if cf_maxTopicCount c \<in> {1..256} then cf_maxTopicCount c else nb_maxTopics (lb_mqtt l))"
    "nq_pollInterval x = (if 1000 \<le> cf_pollInterval c then cf_pollInterval c else nq_pollInterval (lb_mqtt l))"
    "nb_gateway x = (if cf_gateway c \<notin> {None, Some []} then the (cf_gateway c) else nb_gateway (lb_mqtt l))"
    "nb_mqttPort x = (if 1024 \<le> cf_port c then cf_port c else nb_mqttPort (lb_mqtt l))"
    "sn_maxRetry x = (if cf_maxResend c \<le> 10 then cf_maxResend c else sn_maxRetry (lb_mqtt l))"
    using nbiotConfig_first [OF assms, of D c] by blast
  moreover have "config_flags c \<noteq> ErrorNoConfig" using config_flags_bounds [of c] by (simp add: config_errors)
  then have "nbiotConfig D d \<lparr>lb_mqtt = x, lb_configError = config_flags c\<rparr>
      = (ErrorMultipleConfig, \<lparr>lb_mqtt = x, lb_configError = config_flags c\<rparr>)"
    by (simp add: nbiotConfig_def)
  moreover have "config_flags c = 0 \<or> nbiotStart D \<lparr>lb_mqtt = x, lb_configError = config_flags c\<rparr>
      = Some (0, \<lparr>lb_mqtt = x, lb_configError = config_flags c\<rparr>)"
    by (simp add: nbiotStart_def NoError_def)
  ultimately show ?thesis by (intro exI [of _ "\<lparr>lb_mqtt = x, lb_configError = config_flags c\<rparr>"]) (simp only: Let_def nlib.simps simp_thms)
qed

definition conf_example :: "int \<Rightarrow> u16 \<Rightarrow> nbiot_conf" where
  "conf_example keepAlive port = \<lparr>cf_notify = True, cf_keepAliveInterval = keepAlive, cf_autoPollInterval = 10, cf_maxTopicCount = 5,
     cf_pollInterval = 1000, cf_gateway = Some [49], cf_port = port, cf_maxResend = 3, cf_login = Some [50], cf_password = None\<rparr>"

lemma mq_bench_keepAlive: "nb_keepAliveInterval mq_bench = 60"
  by (simp add: mq_bench_def mq_new_def nstm.defs nb_new_def sn_new_def snsys.defs)

lemma config_outcome_witness:
  "\<exists>l'. nbiotConfig (bench True) (conf_example 30 80) (lib_new mq_bench) = (64 + 2048, l') \<and> nbiotStart (bench True) l' = Some (0, l')
    \<and> nb_maxTopics (lb_mqtt l') = 5 \<and> nb_keepAliveInterval (lb_mqtt l') = 60"
proof -
  have "lb_configError (lib_new mq_bench) = ErrorNoConfig" by (simp add: lib_new_def)
  moreover have "config_flags (conf_example 30 80) = 64 + 2048"
    by (simp add: config_flags_def config_fields_def conf_example_def)
  moreover have "nb_keepAliveInterval (lb_mqtt (lib_new mq_bench)) = 60" by (simp add: lib_new_def mq_bench_keepAlive)
  ultimately show ?thesis
    using config_outcome [of "lib_new mq_bench" "bench True" "conf_example 30 80"] by (force simp: conf_example_def Let_def)
qed

text \<open>
  C12: a keep-alive interval of more than 65535 seconds is accepted, but the CONNECT packet and the
  client take it modulo 65536: the duration that the gateway is told is shorter by 65536 seconds, and 65536
  itself becomes 0.
\<close>

theorem keepalive_wraps:
  fixes x :: "('w, 'm) nb"
  assumes "lb_configError l = ErrorNoConfig" and r: "nbiotConfig D c l = (NoError, l')" and k: "65535 < cf_keepAliveInterval c"
    and x: "nb_keepAliveInterval x = nb_keepAliveInterval (lb_mqtt l')" "\<not> sn_isconnected x" "login_ok x" "length (sn_sendbuf x) = 200"
  shows "\<exists>y. mqttConnect cleanSession x = Some (True, y) \<and> uint (sn_duration y) = cf_keepAliveInterval c - 65536
    \<and> take 2 (drop 4 (sn_sendbuf y)) = be16 (cf_keepAliveInterval c - 65536)"
proof -
  define k where "k = cf_keepAliveInterval c"
  obtain z where z: "nbiotConfig D c l = (config_flags c, \<lparr>lb_mqtt = z, lb_configError = config_flags c\<rparr>)"
    "nb_keepAliveInterval z = (if k \<in> {60..86400} then k else nb_keepAliveInterval (lb_mqtt l))"
    using nbiotConfig_first [OF assms(1), of D c] unfolding k_def by metis
  have "list_all snd (config_fields c)" using r z(1) config_flags_bounds(3) [of c] by (simp add: NoError_def)
  then have k: "65535 < k" "k \<le> 86400" using assms(3) by (simp_all add: config_fields_def k_def)
  then have x1: "nb_keepAliveInterval x = k" using x(1) r z by auto
  have "k mod 65536 = (k - 65536) mod 65536" by (rule minus_mod_self2 [symmetric])
  also have "\<dots> = k - 65536" using k by (intro mod_pos_pos_trivial) simp_all
  finally have u: "uint (word_of_int k :: u16) = k - 65536" by (simp add: uint_word_of_int)
  show ?thesis
    using mqttConnect_request [OF x(2,3,4), of cleanSession] u x1
    by (simp add: login_wire_def string_wire_def be16_def loopConnect_def register_client_def client_setTime_def lc_setValue_def
        flip: k_def)
qed

lemma keepalive_wraps_witness:
  "\<exists>l' x y. nbiotConfig (bench True) (conf_example 65536 1883) (lib_new mq_bench) = (NoError, l')
    \<and> nb_keepAliveInterval (x :: nat nmqtt) = nb_keepAliveInterval (lb_mqtt l') \<and> mqttConnect 1 x = Some (True, y) \<and> sn_duration y = 0"
proof -
  have e: "lb_configError (lib_new mq_bench) = ErrorNoConfig" by (simp add: lib_new_def)
  obtain l' where l: "nbiotConfig (bench True) (conf_example 65536 1883) (lib_new mq_bench) = (NoError, l')"
    using nbiotConfig_first [OF e, of "bench True" "conf_example 65536 1883"]
    by (auto simp: config_flags_def config_fields_def conf_example_def NoError_def)
  define x where "x = mq_bench\<lparr>nb_keepAliveInterval := nb_keepAliveInterval (lb_mqtt l'), sn_isconnected := False,
    nb_authentication := [50], sn_sendbuf := replicate 200 0\<rparr>"
  have "nb_keepAliveInterval x = nb_keepAliveInterval (lb_mqtt l')" "\<not> sn_isconnected x" "login_ok x" "length (sn_sendbuf x) = 200"
    "65535 < cf_keepAliveInterval (conf_example 65536 1883)"
    by (simp_all add: x_def login_ok_def conf_example_def)
  from keepalive_wraps [OF e l this(5,1-4), of 1] obtain y where
    "mqttConnect 1 x = Some (True, y)" "uint (sn_duration y) = 0" by (auto simp: conf_example_def)
  then show ?thesis using l by (intro exI [of _ l'] exI [of _ x] exI [of _ y]) (simp add: x_def unsigned_eq_0_iff)
qed

end
