(* ===== verification/SerialPort.thy ===== *)
theory SerialPort
  imports NbiotString Clock
begin

text \<open>
  The serial port \<open>libNbiotCore/src/serial.cpp\<close> with its filters for unsolicited messages
  (\<open>urcfilterlist.h\<close>). The functions of the board that read and write the UART are functions on the
  environment, \<open>None\<close> is the null pointer. A string object is given by its text (the theory
  NbiotString shows that the objects implement texts). A handler of a filter is an object of its own:
  the parameter \<open>ua_handle\<close> is what its call does to the state, which can be extended.
  The loops that wait for the UART end when the clock says so; \<open>None\<close> is a loop that does not end.
\<close>

subsection \<open>Types\<close>

datatype SerialError = SeNoError | SeReadError | SeWriteError | SeLineParsingError | SeReadTimeout
  | SeNoReadFunction | SeNoWriteFunction

datatype SerialReadMode = Normal | Simple | Ignore

datatype LineStatus = line_empty | line_data | line_complete

datatype WriteStatus = tx_empty | tx_hasBytes | tx_full

text \<open>\<open>ReadStatus\<close> is a set of bits.\<close>

definition rx_avail :: byte where "rx_avail = 1"
definition rx_error :: byte where "rx_error = 2"

text \<open>A function pointer holds a function, a method of an object, or nothing; either is a number here.\<close>

record urc_filter =
  uf_urc :: "byte list"
  uf_handler :: "nat option"

record 'w serial =
  se_readStatus :: "('w \<Rightarrow> byte \<times> 'w) option"
  se_readByte :: "('w \<Rightarrow> byte \<times> 'w) option"
  se_putChar :: "(byte \<Rightarrow> 'w \<Rightarrow> 'w) option"
  se_writeStatus :: "('w \<Rightarrow> WriteStatus \<times> 'w) option"
  se_error :: SerialError
  se_filterList :: "urc_filter useq"
  se_env :: 'w

text \<open>The clock of the timers, and the handlers.\<close>

record ('w, 'm) uart =
  ua_clock :: "'w \<Rightarrow> ntime \<times> 'w"
  ua_handle :: "nat \<Rightarrow> byte list \<Rightarrow> ('w, 'm) serial_scheme \<Rightarrow> ('w, 'm) serial_scheme option"

definition txBufferWaitTimeout :: int where "txBufferWaitTimeout = 1000"

definition serial_new :: "'w \<Rightarrow> 'w serial" where
  "serial_new w = \<lparr>se_readStatus = None, se_readByte = None, se_putChar = None, se_writeStatus = None,
     se_error = SeNoError, se_filterList = \<lparr>sq_items = [], sq_invalid = \<lparr>uf_urc = [], uf_handler = None\<rparr>\<rparr>, se_env = w\<rparr>"

text \<open>A call of a function of the board.\<close>

definition board_call :: "('w \<Rightarrow> 'a \<times> 'w) \<Rightarrow> ('w, 'm) serial_scheme \<Rightarrow> 'a \<times> ('w, 'm) serial_scheme" where
  "board_call f s = (let (r, w) = f (se_env s) in (r, s\<lparr>se_env := w\<rparr>))"

definition setError :: "SerialError \<Rightarrow> ('w, 'm) serial_scheme \<Rightarrow> ('w, 'm) serial_scheme" where
  "setError e s = s\<lparr>se_error := e\<rparr>"

definition clearError :: "('w, 'm) serial_scheme \<Rightarrow> ('w, 'm) serial_scheme" where
  "clearError s = setError SeNoError s"

definition configSetReadStatus :: "('w \<Rightarrow> byte \<times> 'w) option \<Rightarrow> ('w, 'm) serial_scheme \<Rightarrow> ('w, 'm) serial_scheme" where
  "configSetReadStatus f s = (if f \<noteq> None then s\<lparr>se_readStatus := f\<rparr> else setError SeNoReadFunction s)"

definition configSetReadByte :: "('w \<Rightarrow> byte \<times> 'w) option \<Rightarrow> ('w, 'm) serial_scheme \<Rightarrow> ('w, 'm) serial_scheme" where
  "configSetReadByte f s = (if f \<noteq> None then s\<lparr>se_readByte := f\<rparr> else setError SeNoReadFunction s)"

definition configSetPutChar :: "(byte \<Rightarrow> 'w \<Rightarrow> 'w) option \<Rightarrow> ('w, 'm) serial_scheme \<Rightarrow> ('w, 'm) serial_scheme" where
  "configSetPutChar f s = (if f \<noteq> None then s\<lparr>se_putChar := f\<rparr> else setError SeNoWriteFunction s)"

definition configSetWriteStatus :: "('w \<Rightarrow> WriteStatus \<times> 'w) option \<Rightarrow> ('w, 'm) serial_scheme \<Rightarrow> ('w, 'm) serial_scheme" where
  "configSetWriteStatus f s = (if f \<noteq> None then s\<lparr>se_writeStatus := f\<rparr> else s)"

text \<open>The timers.\<close>

definition se_remaining :: "('w, 'm) uart \<Rightarrow> ntimer \<Rightarrow> ('w, 'm) serial_scheme \<Rightarrow> int \<times> ('w, 'm) serial_scheme" where
  "se_remaining U t s = (let (clk, s) = board_call (ua_clock U) s in (tm_remaining clk t, s))"

definition se_expired :: "('w, 'm) uart \<Rightarrow> ntimer \<Rightarrow> ('w, 'm) serial_scheme \<Rightarrow> int \<times> ('w, 'm) serial_scheme" where
  "se_expired U t s = (let (clk, s) = board_call (ua_clock U) s in (tm_expired clk t, s))"

definition se_Timer :: "('w, 'm) uart \<Rightarrow> int \<Rightarrow> ('w, 'm) serial_scheme \<Rightarrow> ntimer \<times> ('w, 'm) serial_scheme" where
  "se_Timer U ms s = (let (clk, s) = board_call (ua_clock U) s in (tm_start_for clk ms tm_new, s))"

subsection \<open>Filters\<close>

text \<open>The string object with the text \<open>xs\<close>, and the text of a string object.\<close>

definition of_text :: "byte list \<Rightarrow> nstring" where
  "of_text xs = st_new\<lparr>st_data := Some (xs @ [0]), st_sz := length xs, st_mem := length xs + 1\<rparr>"

definition text_of :: "nstring \<Rightarrow> byte list" where
  "text_of s = (case st_data s of Some d \<Rightarrow> take (st_sz s) d | None \<Rightarrow> [])"

text \<open>\<open>UrcFilter::operator==\<close> for a received line: it starts with the text of the filter.\<close>

definition uf_matches :: "byte list \<Rightarrow> urc_filter \<Rightarrow> bool" where
  "uf_matches line f \<longleftrightarrow> st_find (Some (uf_urc f @ [0])) (of_text line) = Some 0"

definition uf_named :: "byte list \<Rightarrow> urc_filter \<Rightarrow> bool" where
  "uf_named urc f \<longleftrightarrow> uf_urc f = urc"

definition uf_setHandler :: "nat \<Rightarrow> urc_filter \<Rightarrow> urc_filter" where
  "uf_setHandler h f = f\<lparr>uf_handler := Some h\<rparr>"

definition uf_call :: "('w, 'm) uart \<Rightarrow> urc_filter \<Rightarrow> byte list \<Rightarrow> ('w, 'm) serial_scheme \<Rightarrow> ('w, 'm) serial_scheme option" where
  "uf_call U f line s = (case uf_handler f of Some h \<Rightarrow> ua_handle U h line s | None \<Rightarrow> Some s)"

definition hasFilter :: "('w, 'm) serial_scheme \<Rightarrow> bool" where
  "hasFilter s \<longleftrightarrow> sq_items (se_filterList s) \<noteq> []"

definition clearFilter :: "('w, 'm) serial_scheme \<Rightarrow> ('w, 'm) serial_scheme" where
  "clearFilter s = s\<lparr>se_filterList := sq_clear (se_filterList s)\<rparr>"

definition addUrcFilter :: "byte list \<Rightarrow> nat \<Rightarrow> ('w, 'm) serial_scheme \<Rightarrow> bool \<times> ('w, 'm) serial_scheme" where
  "addUrcFilter urc h s =
     (let index = sq_index (uf_named urc) (se_filterList s)
      in if index < 0
         then (True, s\<lparr>se_filterList := sq_append \<lparr>uf_urc = urc, uf_handler = Some h\<rparr> (se_filterList s)\<rparr>)
         else (False, s\<lparr>se_filterList := sq_modify index (uf_setHandler h) (se_filterList s)\<rparr>))"

definition removeUrcFilter :: "byte list \<Rightarrow> ('w, 'm) serial_scheme \<Rightarrow> bool \<times> ('w, 'm) serial_scheme" where
  "removeUrcFilter urc s =
     (let index = sq_index (uf_named urc) (se_filterList s)
      in if 0 \<le> index then (True, s\<lparr>se_filterList := sq_remove index (se_filterList s)\<rparr>) else (False, s))"

subsection \<open>Reading\<close>

text \<open>\<open>readRaw\<close>: the byte that was read, if any, for a buffer that is not a null pointer.\<close>

partial_function (option) raw_loop ::
  "('w, 'm) uart \<Rightarrow> ('w \<Rightarrow> byte \<times> 'w) \<Rightarrow> ('w \<Rightarrow> byte \<times> 'w) \<Rightarrow> ntimer \<Rightarrow> ('w, 'm) serial_scheme
     \<Rightarrow> (byte option \<times> ('w, 'm) serial_scheme) option" where
  "raw_loop U status read timer s =
     (let (left, s) = se_remaining U timer s
      in if 0 < left
         then let (st, s) = board_call status s;
                  (c, s) = (if and rx_avail st \<noteq> 0 then let (c, s) = board_call read s in (Some c, s) else (None, s))
              in if c \<noteq> None \<and> and rx_error st = 0 then Some (c, s)
                 else let (left, s) = se_remaining U timer s
                      in if left = 0 then Some (None, setError SeReadTimeout s) else raw_loop U status read timer s
         else Some (None, s))"

definition readRaw :: "('w, 'm) uart \<Rightarrow> int \<Rightarrow> ('w, 'm) serial_scheme \<Rightarrow> (byte option \<times> ('w, 'm) serial_scheme) option" where
  "readRaw U timeout_ms s =
     (case (se_readStatus s, se_readByte s) of
        (Some status, Some read) \<Rightarrow> let (timer, s) = se_Timer U timeout_ms s in raw_loop U status read timer s
      | _ \<Rightarrow> Some (None, setError SeNoReadFunction s))"

partial_function (option) tx_wait ::
  "('w, 'm) uart \<Rightarrow> ('w \<Rightarrow> WriteStatus \<times> 'w) \<Rightarrow> ntimer \<Rightarrow> int \<Rightarrow> ('w, 'm) serial_scheme \<Rightarrow> ('w, 'm) serial_scheme option" where
  "tx_wait U status timer expired s =
     (let (left, s) = se_remaining U timer s
      in if 0 < left
         then let (e, s) = se_expired U timer s
              in if expired < e
                 then let (expired, s) = se_expired U timer s; (st, s) = board_call status s
                      in if st = tx_empty then Some s else tx_wait U status timer expired s
                 else tx_wait U status timer expired s
         else Some s)"

definition waitForTx :: "('w, 'm) uart \<Rightarrow> ('w, 'm) serial_scheme \<Rightarrow> ('w, 'm) serial_scheme option" where
  "waitForTx U s =
     (case se_writeStatus s of
        Some status \<Rightarrow>
          let (st, s) = board_call status s
          in if st \<noteq> tx_empty
             then let (timer, s) = se_Timer U txBufferWaitTimeout s; (expired, s) = se_expired U timer s
                  in tx_wait U status timer expired s
             else Some s
      | None \<Rightarrow> Some s)"

text \<open>
  What \<open>readLine\<close> does with a byte that is not zero: whether it leaves the loop, with the line, the
  number of bytes stored and the status of the line.
\<close>

definition line_byte ::
  "('w, 'm) uart \<Rightarrow> byte \<Rightarrow> byte list \<times> nat \<times> LineStatus \<Rightarrow> ('w, 'm) serial_scheme
     \<Rightarrow> (bool \<times> (byte list \<times> nat \<times> LineStatus) \<times> ('w, 'm) serial_scheme) option" where
  "line_byte U c L s =
     (case L of (line, index, status) \<Rightarrow>
        if c = 13 then Some (False, L, s)
        else if c = 10 \<and> status = line_empty then Some (False, (line, index, line_data), s)
        else if c = 10 \<and> status = line_data
        then if 0 < index
             then if hasFilter s
                  then let filterIndex = sq_index (uf_matches line) (se_filterList s)
                       in if 0 \<le> filterIndex
                          then map_option (\<lambda>s. (False, ([], 0, line_data), s)) (uf_call U (sq_at filterIndex (se_filterList s)) line s)
                          else Some (True, (line, index, line_complete), s)
                  else Some (True, (line, index, line_complete), s)
             else Some (False, L, s)
        else if status = line_data then Some (False, (line @ [c], index + 1, status), s)
        else Some (False, L, s))"

partial_function (option) line_loop ::
  "('w, 'm) uart \<Rightarrow> ntimer \<Rightarrow> byte list \<times> nat \<times> LineStatus \<Rightarrow> ('w, 'm) serial_scheme
     \<Rightarrow> (byte list \<times> nat \<times> ('w, 'm) serial_scheme) option" where
  "line_loop U timer L s =
     (let (left, s) = se_remaining U timer s
      in if 0 < left
         then let (left, s) = se_remaining U timer s
              in Option.bind (readRaw U (left mod 65536) s) (\<lambda>(b, s).
                Option.bind (case b of Some c \<Rightarrow> if c \<noteq> 0 then line_byte U c L s else Some (False, L, s) | None \<Rightarrow> Some (False, L, s))
                  (\<lambda>(stop, L, s).
                    if stop then Some (fst L, fst (snd L), s)
                    else let (left, s) = se_remaining U timer s
                         in if left = 0 then Some (fst L, fst (snd L), setError SeReadTimeout s) else line_loop U timer L s))
         else Some (fst L, fst (snd L), s))"

text \<open>\<open>readLine\<close>: the number of bytes, and the line, which continues the text that it held before.\<close>

definition readLine ::
  "('w, 'm) uart \<Rightarrow> byte list \<Rightarrow> int \<Rightarrow> SerialReadMode \<Rightarrow> ('w, 'm) serial_scheme
     \<Rightarrow> (nat \<times> byte list \<times> ('w, 'm) serial_scheme) option" where
  "readLine U line timeout_ms readMode s = do {
     (line, index, s) \<leftarrow>
       (if se_readStatus s \<noteq> None \<and> se_readByte s \<noteq> None
        then do {
          let (timer, s) = se_Timer U timeout_ms s;
          s \<leftarrow> waitForTx U s;
          line_loop U timer (line, 0, if readMode = Simple then line_data else line_empty) s
        }
        else Some (line, 0, setError SeNoReadFunction s));
     Some (index, if readMode = Ignore then [] else line, s)
   }"

subsection \<open>Writing\<close>

definition write_char :: "byte \<Rightarrow> ('w, 'm) serial_scheme \<Rightarrow> nat \<times> ('w, 'm) serial_scheme" where
  "write_char c s =
     (case se_putChar s of
        Some put \<Rightarrow> (1, s\<lparr>se_env := put c (se_env s)\<rparr>)
      | None \<Rightarrow> (0, setError SeNoWriteFunction s))"

text \<open>\<open>write(buffer, size)\<close> for a block of memory; \<open>n\<close> bytes are written.\<close>

fun write_buffer :: "byte list \<Rightarrow> nat \<Rightarrow> nat \<Rightarrow> ('w, 'm) serial_scheme \<Rightarrow> (nat \<times> ('w, 'm) serial_scheme) option" where
  "write_buffer buffer 0 n s = Some (n, s)"
| "write_buffer buffer (Suc len) n s = do {
     c \<leftarrow> load buffer n;
     let (k, s) = write_char c s;
     if k \<noteq> 0 then write_buffer buffer len (n + 1) s else Some (n, s)
   }"

text \<open>\<open>write(str)\<close> for the characters of a string that are left.\<close>

fun write_text :: "byte list \<Rightarrow> nat \<Rightarrow> ('w, 'm) serial_scheme \<Rightarrow> nat \<times> ('w, 'm) serial_scheme" where
  "write_text [] n s = (n, s)"
| "write_text (c # cs) n s =
     (let (k, s) = write_char c s in if k \<noteq> 0 then write_text cs (n + 1) s else (n, s))"

end
