(* ===== verification/AtCommands.thy ===== *)
theory AtCommands
  imports SerialPort
begin

text \<open>
  The commands for a modem \<open>libNbiotCore/src/atcommands.cpp\<close> over the serial port, the parts of the C
  library that the drivers use with them, and the modem driver \<open>nbiotmodemtools.cpp\<close>.
\<close>

datatype ExpectedReply = REPLY_OK | REPLY_ANY | REPLY_COPY | REPLY_EXACT | REPLY_IGNORE | REPLY_NONE

record 'w atcmd = "'w serial" +
  at_response :: "byte list"

type_synonym ('w, 'm) atc = "('w, 'm) atcmd_scheme"

text \<open>A text of the source.\<close>

definition ascii :: "string \<Rightarrow> byte list" where "ascii = map of_char"

definition okReply :: "byte list" where "okReply = ascii ''OK''"
definition errReply :: "byte list" where "errReply = ascii ''ERROR''"
definition defaultTimeout :: int where "defaultTimeout = 500"
definition at_oneSecond :: int where "at_oneSecond = 1000"

definition sendCommand :: "byte list \<Rightarrow> ('w, 'm) serial_scheme \<Rightarrow> bool \<times> ('w, 'm) serial_scheme" where
  "sendCommand cmd s =
     (let (sz, s) = write_text cmd 0 (clearError s) in (length cmd = sz \<and> se_error s = SeNoError, s))"

text \<open>\<open>sendCommand(const char*)\<close> adds the carriage return.\<close>

definition sendCommand_cstr :: "byte list \<Rightarrow> ('w, 'm) serial_scheme \<Rightarrow> bool \<times> ('w, 'm) serial_scheme" where
  "sendCommand_cstr command s = sendCommand (command @ [13]) s"

text \<open>The loop of \<open>REPLY_COPY\<close>: lines are collected until one is a result code, or none comes.\<close>

partial_function (option) copy_loop ::
  "('w, 'm atcmd_ext) uart \<Rightarrow> ntimer \<Rightarrow> bool \<Rightarrow> ('w, 'm) atc \<Rightarrow> (bool \<times> ('w, 'm) atc) option" where
  "copy_loop U timer result s =
     (let (left, s) = se_remaining U timer s
      in Option.bind (readLine U [] (left mod 65536) Simple s) (\<lambda>(i, resp, s).
        if 0 < i
        then let s = s\<lparr>at_response := at_response s @ resp @ [13, 10]\<rparr>
             in if resp = okReply \<or> resp = errReply then Some (True, s)
                else let (clk, s) = board_call (ua_clock U) s;
                         timer = tm_start_for clk at_oneSecond (tm_clear timer);
                         (left, s) = se_remaining U timer s
                     in if 0 < left then copy_loop U timer True s else Some (True, s)
        else Some (result, s)))"

partial_function (option) ignore_loop ::
  "('w, 'm atcmd_ext) uart \<Rightarrow> ntimer \<Rightarrow> ('w, 'm) atc \<Rightarrow> ('w, 'm) atc option" where
  "ignore_loop U timer s =
     (let (left, s) = se_remaining U timer s
      in Option.bind (readLine U [] (left mod 65536) Ignore s) (\<lambda>(i, resp, s).
        if 0 < i then if se_error s \<noteq> SeNoError then Some s else ignore_loop U timer s else Some s))"

definition readResponse ::
  "('w, 'm atcmd_ext) uart \<Rightarrow> ExpectedReply \<Rightarrow> int \<Rightarrow> ('w, 'm) atc \<Rightarrow> (bool \<times> ('w, 'm) atc) option" where
  "readResponse U expected timeout_ms s =
     (let s = (clearError s)\<lparr>at_response := []\<rparr>
      in case expected of
        REPLY_OK \<Rightarrow> do {
          (n, line, s) \<leftarrow> readLine U [] timeout_ms Normal s;
          let s = s\<lparr>at_response := line\<rparr>;
          Some (length okReply = n \<and> se_error s = SeNoError \<and> line = okReply, s)
        }
      | REPLY_ANY \<Rightarrow> do {
          (i, line, s) \<leftarrow> readLine U [] timeout_ms Normal s;
          let s = s\<lparr>at_response := line\<rparr>;
          (result, s) \<leftarrow>
            (if 0 < i \<and> se_error s = SeNoError
             then do {
               (n, ok, s) \<leftarrow> readLine U [] timeout_ms Simple s;
               Some (length okReply = n \<and> se_error s = SeNoError \<and> ok = okReply, s)
             }
             else Some (False, s));
          Some (result, if result then s else s\<lparr>at_response := []\<rparr>)
        }
      | REPLY_COPY \<Rightarrow> (let (timer, s) = se_Timer U timeout_ms s in copy_loop U timer False s)
      | REPLY_EXACT \<Rightarrow> do {
          (i, line, s) \<leftarrow> readLine U [] timeout_ms Normal s;
          let s = s\<lparr>at_response := line\<rparr>;
          Some (0 < i \<and> se_error s = SeNoError, s)
        }
      | REPLY_NONE \<Rightarrow> do {
          (b, s) \<leftarrow> readRaw U timeout_ms s;
          Some (b = None \<and> (se_error s = SeNoError \<or> se_error s = SeReadTimeout), s)
        }
      | REPLY_IGNORE \<Rightarrow> do {
          let (timer, s) = se_Timer U timeout_ms s;
          s \<leftarrow> ignore_loop U timer s;
          Some (se_error s = SeNoError, s)
        })"

text \<open>
  \<open>readUntil\<close>: \<open>find\<close> of a text in a line that holds no text does not find it, and \<open>==\<close> compares the
  texts.
\<close>

definition response_is :: "byte list \<Rightarrow> bool \<Rightarrow> byte list \<Rightarrow> bool" where
  "response_is expected exact response \<longleftrightarrow>
     (if exact then response = expected else st_find (Some (expected @ [0])) (of_text response) = Some 0)"

partial_function (option) until_loop ::
  "('w, 'm atcmd_ext) uart \<Rightarrow> byte list \<Rightarrow> bool \<Rightarrow> ntimer \<Rightarrow> ('w, 'm) atc \<Rightarrow> (bool \<times> ('w, 'm) atc) option" where
  "until_loop U expected exact timer s =
     (let (left, s) = se_remaining U timer s
      in if 0 < left \<and> se_error s = SeNoError
         then let (left, s) = se_remaining U timer s
              in Option.bind (readLine U (at_response s) (left mod 65536) Simple s) (\<lambda>(n, line, s).
                let s = s\<lparr>at_response := line\<rparr>
                in if response_is expected exact line then Some (True, s)
                   else until_loop U expected exact timer (s\<lparr>at_response := []\<rparr>))
         else Some (False, s))"

definition readUntil ::
  "('w, 'm atcmd_ext) uart \<Rightarrow> byte list \<Rightarrow> int \<Rightarrow> bool \<Rightarrow> ('w, 'm) atc \<Rightarrow> (bool \<times> ('w, 'm) atc) option" where
  "readUntil U expected timeout_ms exact s =
     (let (timer, s) = se_Timer U timeout_ms ((clearError s)\<lparr>at_response := []\<rparr>)
      in until_loop U expected exact timer s)"

subsection \<open>The C library\<close>

text \<open>
  \<open>atoi\<close>: white space, a sign, digits. A number outside of the range of \<open>int\<close> is undefined behaviour,
  the value \<open>None\<close>.
\<close>

definition c_isspace :: "byte \<Rightarrow> bool" where
  "c_isspace c \<longleftrightarrow> c = 32 \<or> 9 \<le> c \<and> c \<le> 13"

definition c_isdigit :: "byte \<Rightarrow> bool" where
  "c_isdigit c \<longleftrightarrow> 48 \<le> c \<and> c \<le> 57"

definition digits_value :: "byte list \<Rightarrow> int" where
  "digits_value ds = foldl (\<lambda>n d. 10 * n + (uint d - 48)) 0 ds"

definition c_atoi :: "byte list \<Rightarrow> int option" where
  "c_atoi str =
     (let xs = dropWhile c_isspace str;
          neg = (xs \<noteq> [] \<and> hd xs = 45);
          xs = (if xs \<noteq> [] \<and> (hd xs = 45 \<or> hd xs = 43) then tl xs else xs);
          n = digits_value (takeWhile c_isdigit xs);
          n = (if neg then - n else n)
      in if - 2147483648 \<le> n \<and> n \<le> 2147483647 then Some n else None)"

text \<open>\<open>%d\<close>\<close>

fun dec_digits :: "nat \<Rightarrow> byte list" where
  "dec_digits n = (if n < 10 then [] else dec_digits (n div 10)) @ [of_nat (48 + n mod 10)]"

declare dec_digits.simps [simp del]

definition c_dec :: "int \<Rightarrow> byte list" where
  "c_dec n = (if n < 0 then 45 # dec_digits (nat (- n)) else dec_digits (nat n))"

text \<open>\<open>string::Printf\<close> of a text that is already formatted.\<close>

definition PRINTF_BUFFER_SIZE :: nat where "PRINTF_BUFFER_SIZE = 80"

definition st_Printf :: "byte list \<Rightarrow> byte list" where
  "st_Printf formatted = (if 0 < length formatted \<and> length formatted < PRINTF_BUFFER_SIZE then formatted else [])"

end
