(* ===== verification/ModemTools.thy ===== *)
theory ModemTools
  imports AtCommands
begin

text \<open>
  The modem driver \<open>libNbiotCore/src/nbiotmodemtools.cpp\<close>: its commands, and what it reads from the
  answers. \<open>None\<close> is a loop of the serial port that does not end, or a number in an answer that is
  outside of the range of \<open>int\<close>.
\<close>

datatype ModemState = MODEM_OFF | MODEM_ON

record 'w modem = "'w atcmd" +
  md_apn :: "byte list"
  md_apnuser :: "byte list"
  md_apnpwd :: "byte list"
  md_operMccMnc :: "byte list"
  md_imsi :: "byte list"
  md_imsipwd :: "byte list"
  md_deviceId :: "byte list"

type_synonym ('w, 'm) mt = "('w, 'm) modem_scheme"
type_synonym ('w, 'm) mt_uart = "('w, ('m modem_ext) atcmd_ext) uart"

definition cmdNRB :: "byte list" where "cmdNRB = ascii ''AT+NRB''"
definition cmdCFUN1 :: "byte list" where "cmdCFUN1 = ascii ''AT+CFUN=1''"
definition cmdCGDCONT :: "byte list \<Rightarrow> byte list" where
  "cmdCGDCONT apn = ascii ''AT+CGDCONT=1,'' @ [34] @ ascii ''IP'' @ [34, 44, 34] @ apn @ [34, 13]"
definition cmdCOPS :: "byte list \<Rightarrow> byte list" where
  "cmdCOPS oper = ascii ''AT+COPS=1,2,'' @ [34] @ oper @ [34, 13]"
definition cmdCFUN :: "int \<Rightarrow> byte list" where "cmdCFUN n = ascii ''AT+CFUN='' @ c_dec n @ [13]"
definition cmdCFUNquery :: "byte list" where "cmdCFUNquery = ascii ''AT+CFUN?''"
definition cmdCGATT0 :: "byte list" where "cmdCGATT0 = ascii ''AT+CGATT=0''"
definition cmdCGATTquery :: "byte list" where "cmdCGATTquery = ascii ''AT+CGATT?''"
definition respCGATTquery :: "byte list" where "respCGATTquery = ascii ''+CGATT:''"
definition cmdCIMI :: "byte list" where "cmdCIMI = ascii ''AT+CIMI''"

definition md_oneSecond :: int where "md_oneSecond = 1000"
definition md_threeSeconds :: int where "md_threeSeconds = 3000"
definition md_fiveSeconds :: int where "md_fiveSeconds = 5000"
definition md_tenSeconds :: int where "md_tenSeconds = 10000"
definition md_sixtyfiveSeconds :: int where "md_sixtyfiveSeconds = 65000"

text \<open>What most of the commands end with: the rest of the answer is read and forgotten.\<close>

definition ignore_rest :: "('w, 'm atcmd_ext) uart \<Rightarrow> 'r \<Rightarrow> ('w, 'm) atc \<Rightarrow> ('r \<times> ('w, 'm) atc) option" where
  "ignore_rest U r s = map_option (\<lambda>(_, s). (r, s)) (readResponse U REPLY_IGNORE md_oneSecond s)"

definition sendAtCommand ::
  "('w, 'm) mt_uart \<Rightarrow> byte list \<Rightarrow> byte list option \<Rightarrow> nat \<Rightarrow> int \<Rightarrow> ('w, 'm) mt
     \<Rightarrow> (bool \<times> byte list option \<times> ('w, 'm) mt) option" where
  "sendAtCommand U command response len timeout s =
     (let (ok, s) = sendCommand_cstr command s
      in if ok
         then do {
           (ok, s) \<leftarrow> readResponse U REPLY_COPY timeout s;
           if ok \<and> length (at_response s) \<le> len
           then do { (_, response) \<leftarrow> st_copy response len (of_text (at_response s)); Some (True, response, s) }
           else Some (False, response, s)
         }
         else Some (False, response, s))"

definition md_reboot_cmd :: "('w, 'm) mt_uart \<Rightarrow> ('w, 'm) mt \<Rightarrow> (bool \<times> ('w, 'm) mt) option" where
  "md_reboot_cmd U s =
     (let (ok, s) = sendCommand_cstr cmdNRB s
      in do {
        (ok, s) \<leftarrow> (if ok then readUntil U okReply md_sixtyfiveSeconds False s else Some (False, s));
        ignore_rest U ok s
      })"

definition isModemOn :: "('w, 'm) mt_uart \<Rightarrow> ('w, 'm) mt \<Rightarrow> (ModemState \<times> ('w, 'm) mt) option" where
  "isModemOn U s =
     (let (ok, s) = sendCommand_cstr cmdCFUNquery s
      in do {
        (ret, s) \<leftarrow>
          (if ok
           then do {
             (ok, s) \<leftarrow> readResponse U REPLY_ANY md_fiveSeconds s;
             if ok
             then do {
               list \<leftarrow> st_split (Some [58, 0]) False (of_text (at_response s));
               if 1 < sq_count list
               then do {
                 n \<leftarrow> c_atoi (text_of (sq_at (sq_count list - 1) list));
                 Some (if n = 1 then MODEM_ON else MODEM_OFF, s)
               }
               else Some (MODEM_OFF, s)
             }
             else Some (MODEM_OFF, s)
           }
           else Some (MODEM_OFF, s));
        ignore_rest U ret s
      })"

definition md_initialize_cmd :: "('w, 'm) mt_uart \<Rightarrow> ('w, 'm) mt \<Rightarrow> (bool \<times> ('w, 'm) mt) option" where
  "md_initialize_cmd U s =
     (let (ok, s) = sendCommand_cstr cmdCFUN1 s
      in do {
        (ok, s) \<leftarrow> (if ok then readUntil U okReply md_tenSeconds False s else Some (False, s));
        (ok, s) \<leftarrow> ignore_rest U ok s;
        (ok, s) \<leftarrow> (if ok then map_option (\<lambda>(st, s). (st \<noteq> MODEM_OFF, s)) (isModemOn U s) else Some (False, s));
        (ok, s) \<leftarrow>
          (if ok
           then let (ok, s) = sendCommand (st_Printf (cmdCGDCONT (md_apn s))) s
                in if ok then readResponse U REPLY_OK defaultTimeout s else Some (False, s)
           else Some (False, s));
        ignore_rest U ok s
      })"

definition md_attach_cmd :: "('w, 'm) mt_uart \<Rightarrow> ('w, 'm) mt \<Rightarrow> (bool \<times> ('w, 'm) mt) option" where
  "md_attach_cmd U s =
     (let (ok, s) = sendCommand (st_Printf (cmdCOPS (md_operMccMnc s))) s
      in do {
        (ok, s) \<leftarrow> (if ok then readResponse U REPLY_OK md_tenSeconds s else Some (False, s));
        ignore_rest U ok s
      })"

definition md_detach_cmd :: "('w, 'm) mt_uart \<Rightarrow> ('w, 'm) mt \<Rightarrow> (bool \<times> ('w, 'm) mt) option" where
  "md_detach_cmd U s =
     (let (ok, s) = sendCommand_cstr cmdCGATT0 s
      in do {
        (ok, s) \<leftarrow> (if ok then readResponse U REPLY_OK md_tenSeconds s else Some (False, s));
        ignore_rest U ok s
      })"

text \<open>The number behind the colon of \<open>+CGATT:\<close>, \<open>-1\<close> if there is none.\<close>

definition attach_number :: "byte list \<Rightarrow> int option" where
  "attach_number response = do {
     pos \<leftarrow> st_find_char 58 (of_text response);
     if pos \<noteq> npos
     then (let number = dropWhile (\<lambda>c. c = 32) (drop (pos + 1) response)
           in if number \<noteq> [] then c_atoi number else Some (- 1))
     else Some (- 1)
   }"

definition getAttachState :: "('w, 'm) mt_uart \<Rightarrow> ('w, 'm) mt \<Rightarrow> (int \<times> ('w, 'm) mt) option" where
  "getAttachState U s =
     (let (ok, s) = sendCommand_cstr cmdCGATTquery s
      in do {
        (ret, s) \<leftarrow>
          (if ok
           then do {
             (ok, s) \<leftarrow> readUntil U respCGATTquery md_tenSeconds False s;
             if ok then do { n \<leftarrow> attach_number (at_response s); Some (n, s) } else Some (- 1, s)
           }
           else Some (- 1, s));
        ignore_rest U ret s
      })"

definition md_isAttached_cmd :: "('w, 'm) mt_uart \<Rightarrow> ('w, 'm) mt \<Rightarrow> (bool \<times> ('w, 'm) mt) option" where
  "md_isAttached_cmd U s = map_option (\<lambda>(n, s). (n = 1, s)) (getAttachState U s)"

text \<open>\<open>getImsi\<close>: the result and the text that \<open>imsi\<close> holds then.\<close>

definition md_getImsi_cmd ::
  "('w, 'm) mt_uart \<Rightarrow> byte list \<Rightarrow> bool \<Rightarrow> ('w, 'm) mt \<Rightarrow> ((bool \<times> byte list) \<times> ('w, 'm) mt) option" where
  "md_getImsi_cmd U imsi usePw s = do {
     ((ret, imsi), s) \<leftarrow>
       (if md_imsi s = []
        then let (ok, s) = sendCommand_cstr cmdCIMI s
             in do {
               (ok, s) \<leftarrow> (if ok then readResponse U REPLY_ANY md_threeSeconds s else Some (False, s));
               ignore_rest U (if ok then (True, at_response s) else (False, imsi)) s
             }
        else Some ((True, md_imsi s), s));
     Some ((ret, if usePw then imsi @ md_imsipwd s else imsi), s)
   }"

definition getDeviceId :: "('w, 'm) mt_uart \<Rightarrow> ('w, 'm) mt \<Rightarrow> (byte list \<times> ('w, 'm) mt) option" where
  "getDeviceId U s = do {
     s \<leftarrow> (if md_deviceId s = []
           then map_option (\<lambda>((_, imsi), s). s\<lparr>md_deviceId := imsi\<rparr>) (md_getImsi_cmd U (md_deviceId s) False s)
           else Some s);
     Some (md_deviceId s, s)
   }"

definition md_switchModem_cmd :: "('w, 'm) mt_uart \<Rightarrow> ModemState \<Rightarrow> ('w, 'm) mt \<Rightarrow> (ModemState \<times> ('w, 'm) mt) option" where
  "md_switchModem_cmd U state s = do {
     (ret, s) \<leftarrow> isModemOn U s;
     if ret \<noteq> state
     then let (ok, s) = sendCommand (st_Printf (cmdCFUN (if state = MODEM_ON then 1 else 0))) s
          in do {
            (ok, s) \<leftarrow> (if ok then readResponse U REPLY_OK md_tenSeconds s else Some (False, s));
            ignore_rest U (if ok then state else ret) s
          }
     else Some (ret, s)
   }"

end
