(* ===== verification/Network.thy ===== *)
theory Network
  imports ModemTools CircularBuffer
begin

text \<open>
  The network class of the BC95 driver (\<open>modems/BC95-G_BC68_B300SP2/network.cpp\<close>): a UDP socket of the
  modem. Received datagrams come as unsolicited lines, which the filter of the serial port hands to
  \<open>parseFilterResult\<close>; it decodes them into the ring buffer, from which \<open>read\<close> takes them.
\<close>

text \<open>A \<open>size_t\<close>.\<close>

type_synonym u32 = "32 word"

record 'w network = "'w atcmd" +
  nt_connectionNumber :: int
  nt_hostname :: "byte list"
  nt_port :: u16
  nt_bytesAvail :: u32
  nt_nsonmi :: "byte list"
  nt_lastListenPort :: u16
  nt_buffer :: cbuf

type_synonym ('w, 'm) net = "('w, 'm) network_scheme"

definition nt_bufSize :: nat where "nt_bufSize = 512"
definition maxSocket :: int where "maxSocket = 7"
definition listenPortBase :: int where "listenPortBase = 10001"
definition byteCountMask :: u32 where "byteCountMask = 0xFFFF"
definition nt_readInterval :: int where "nt_readInterval = 250"

definition cmdNSOCR :: "int \<Rightarrow> byte list" where "cmdNSOCR p = ascii ''AT+NSOCR=DGRAM,17,'' @ c_dec p @ [13]"
definition respNSONMI :: "int \<Rightarrow> byte list" where "respNSONMI n = ascii ''+NSONMI:'' @ c_dec n @ [44]"
definition cmdNSOST :: "int \<Rightarrow> byte list \<Rightarrow> int \<Rightarrow> int \<Rightarrow> byte list" where
  "cmdNSOST n host p len = ascii ''AT+NSOST='' @ c_dec n @ [44] @ host @ [44] @ c_dec p @ [44] @ c_dec len @ [44]"
definition cmdNSOCL :: "int \<Rightarrow> byte list" where "cmdNSOCL n = ascii ''AT+NSOCL='' @ c_dec n @ [13]"

definition network_new :: "'w \<Rightarrow> 'w network" where
  "network_new w = serial.extend (serial_new w)
     \<lparr>at_response = [], nt_connectionNumber = - 1, nt_hostname = [], nt_port = 0, nt_bytesAvail = 0, nt_nsonmi = [],
      nt_lastListenPort = word_of_int (listenPortBase - 1),
      nt_buffer = \<lparr>m_buffer = replicate nt_bufSize 0, m_head = 0, m_tail = 0, m_full = False\<rparr>\<rparr>"

definition ipAvailable :: "('w, 'm) net \<Rightarrow> int" where
  "ipAvailable s = uint (and (nt_bytesAvail s) byteCountMask)"

text \<open>\<open>parseFilterResult\<close>: what it does with the decoded data of a datagram of its own socket, and the line.\<close>

definition store_datagram :: "int \<Rightarrow> byte list \<Rightarrow> ('w, 'm) net \<Rightarrow> ('w, 'm) net option" where
  "store_datagram n hex s =
     (let s = s\<lparr>nt_bytesAvail := word_of_int n\<rparr>
      in if 0 < nt_bytesAvail s
         then let s = (if cb_capacity (nt_buffer s) < unat (nt_bytesAvail s)
                       then s\<lparr>nt_bytesAvail := of_nat (cb_capacity (nt_buffer s))\<rparr> else s)
              in do {
                t \<leftarrow> st_strip 34 (of_text hex);
                d \<leftarrow> st_data t;
                d \<leftarrow> st_fromHex d;
                d \<leftarrow> st_data d;
                (_, b) \<leftarrow> cb_put_bytes d (unat (nt_bytesAvail s)) (nt_buffer s);
                Some (s\<lparr>nt_buffer := b\<rparr>)
              }
         else Some s)"

definition parseFilterResult :: "byte list \<Rightarrow> ('w, 'm) net \<Rightarrow> ('w, 'm) net option" where
  "parseFilterResult strFilterResult s = do {
     list \<leftarrow> st_split_char 44 False (of_text strFilterResult);
     if sq_count list = 3
     then do {
       pos \<leftarrow> st_find_char 58 (sq_at 0 list);
       number \<leftarrow> st_substr ((pos + 1) mod size_t_mod) npos (sq_at 0 list);
       n \<leftarrow> c_atoi (text_of number);
       if nt_connectionNumber s = n
       then do {
         len \<leftarrow> c_atoi (text_of (sq_at 1 list));
         store_datagram len (text_of (sq_at 2 list)) s
       }
       else Some s
     }
     else Some s
   }"

definition net_uart :: "('w \<Rightarrow> ntime \<times> 'w) \<Rightarrow> ('w, ('m network_ext) atcmd_ext) uart" where
  "net_uart clock = \<lparr>ua_clock = clock, ua_handle = (\<lambda>_. parseFilterResult)\<rparr>"

text \<open>Bytes are taken from the ring buffer one by one. What \<open>get\<close> of an empty buffer leaves in \<open>c\<close> is not determined.\<close>

fun take_bytes :: "nat \<Rightarrow> byte list \<Rightarrow> ('w, 'm) net \<Rightarrow> (byte list \<times> ('w, 'm) net) option" where
  "take_bytes 0 data s = Some (data, s)"
| "take_bytes (Suc n) data s = do {
     (c, b) \<leftarrow> cb_get (nt_buffer s);
     take_bytes n (data @ [case c of Some x \<Rightarrow> x | None \<Rightarrow> 0])
       (s\<lparr>nt_buffer := b, nt_bytesAvail := nt_bytesAvail s - 1\<rparr>)
   }"

text \<open>The loop that waits for enough bytes: the data, their number and the bytes that are still in the ring buffer.\<close>

partial_function (option) read_wait ::
  "('w, ('m network_ext) atcmd_ext) uart \<Rightarrow> ntimer \<Rightarrow> int \<Rightarrow> byte list \<times> int \<times> int \<Rightarrow> ('w, 'm) net
     \<Rightarrow> ((byte list \<times> int \<times> int) \<times> ('w, 'm) net) option" where
  "read_wait U timer reqLen R s =
     (case R of (data, bytes, dgmLen) \<Rightarrow>
       (let (left, s) = se_remaining U timer s
        in if nt_readInterval < left \<and> bytes < reqLen
           then Option.bind (readResponse U REPLY_IGNORE nt_readInterval s) (\<lambda>(_, s).
             let dgmLen = ipAvailable s
             in if dgmLen = 0 then read_wait U timer reqLen (data, bytes, dgmLen) s
                else if reqLen \<le> dgmLen + bytes then Some ((data, bytes, dgmLen), s)
                else Option.bind (take_bytes (nat dgmLen) data s) (\<lambda>(data, s).
                  read_wait U timer reqLen (data, bytes + dgmLen, 0) s))
           else Some ((data, bytes, dgmLen), s)))"

text \<open>\<open>read\<close>: the return code and the buffer of the caller afterwards.\<close>

definition net_read ::
  "('w, ('m network_ext) atcmd_ext) uart \<Rightarrow> byte list \<Rightarrow> int \<Rightarrow> int \<Rightarrow> ('w, 'm) net
     \<Rightarrow> (int \<times> byte list option \<times> ('w, 'm) net) option" where
  "net_read U buffer len timeout_ms s =
     (let (timer, s) = se_Timer U timeout_ms s
      in if 0 \<le> len
         then do {
           ((data, bytes, dgmLen), s) \<leftarrow> read_wait U timer len ([], 0, ipAvailable s) s;
           (rc, data, s) \<leftarrow>
             (if 0 < dgmLen \<and> bytes < len
              then map_option (\<lambda>(data, s). (len, data, s)) (take_bytes (nat (len - bytes)) data s)
              else Some (bytes, data, s));
           buffer \<leftarrow> (if 0 < rc then map_option snd (st_copy (Some buffer) (nat rc) (of_text data)) else Some (Some buffer));
           Some (rc, buffer, s)
         }
         else Some (- 1, Some buffer, s))"

definition net_connect ::
  "('w, ('m network_ext) atcmd_ext) uart \<Rightarrow> byte list \<Rightarrow> u16 \<Rightarrow> ('w, 'm) net \<Rightarrow> (bool \<times> ('w, 'm) net) option" where
  "net_connect U hostname port s =
     (let listenPort = (if 0 \<le> nt_connectionNumber s \<and> nt_connectionNumber s < maxSocket
            then word_of_int (listenPortBase + nt_connectionNumber s) else nt_lastListenPort s);
          (ok, s) = sendCommand (st_Printf (cmdNSOCR (uint listenPort))) s
      in do {
        (ret, s) \<leftarrow> (if ok then readResponse U REPLY_ANY md_threeSeconds s else Some (False, s));
        (ret, s) \<leftarrow>
          (if ret
           then do {
             n \<leftarrow> c_atoi (at_response s);
             Some (if 0 \<le> n \<and> n < maxSocket
                   then (True, s\<lparr>nt_connectionNumber := n, nt_hostname := hostname, nt_port := port, nt_lastListenPort := listenPort\<rparr>)
                   else (False, s\<lparr>nt_connectionNumber := - 1, nt_hostname := [], nt_port := 0\<rparr>))
           }
           else Some (False, s));
        (ret, s) \<leftarrow> ignore_rest U ret s;
        Some (ret, if ret
                   then let s = s\<lparr>nt_nsonmi := st_Printf (respNSONMI (nt_connectionNumber s))\<rparr>
                        in snd (addUrcFilter (nt_nsonmi s) 0 s)
                   else s)
      })"

definition net_write ::
  "('w, ('m network_ext) atcmd_ext) uart \<Rightarrow> byte list \<Rightarrow> nat \<Rightarrow> int \<Rightarrow> ('w, 'm) net \<Rightarrow> (bool \<times> ('w, 'm) net) option" where
  "net_write U buffer len timeout s = do {
     (ret, s) \<leftarrow>
       (if nt_hostname s \<noteq> [] \<and> 0 < nt_port s
        then do {
          let data = st_Printf (cmdNSOST (nt_connectionNumber s) (nt_hostname s) (uint (nt_port s)) (to_int (int len)));
          t \<leftarrow> st_of (Some buffer) len;
          hex \<leftarrow> st_toHex t;
          let (ok, s) = sendCommand_cstr (data @ text_of hex) s;
          if ok then readResponse U REPLY_ANY timeout s else Some (False, s)
        }
        else Some (False, s));
     ignore_rest U ret s
   }"

definition net_disconnect :: "('w, ('m network_ext) atcmd_ext) uart \<Rightarrow> ('w, 'm) net \<Rightarrow> (bool \<times> ('w, 'm) net) option" where
  "net_disconnect U s = do {
     (ret, s) \<leftarrow>
       (if 0 \<le> nt_connectionNumber s
        then let (ok, s) = sendCommand (st_Printf (cmdNSOCL (nt_connectionNumber s))) s
             in if ok then readResponse U REPLY_OK md_tenSeconds s else Some (False, s)
        else Some (True, s));
     let s = (if ret
              then let s = s\<lparr>nt_hostname := [], nt_port := 0, nt_connectionNumber := - 1\<rparr>;
                       s = snd (removeUrcFilter (nt_nsonmi s) s)
                   in s\<lparr>nt_nsonmi := []\<rparr>
              else s);
     ignore_rest U ret s
   }"

definition net_isConnected :: "('w, 'm) net \<Rightarrow> bool" where
  "net_isConnected s \<longleftrightarrow> 0 \<le> nt_connectionNumber s"

end
