(* ===== verification/SerialRuns.thy ===== *)
theory SerialRuns
  imports Network
begin

text \<open>
  What the serial port reads from a board that has its bytes ready: lines, unsolicited messages and
  result codes.
\<close>

subsection \<open>A board that has its bytes ready\<close>

text \<open>
  The bytes \<open>st w\<close> wait in the UART. Each is reported as available without an error, and reading it takes
  it away; the time of the clock is \<open>clk\<close>.
\<close>

definition prompt_clock :: "('w, 'm) uart \<Rightarrow> ('w \<Rightarrow> byte list) \<Rightarrow> ntime \<Rightarrow> bool" where
  "prompt_clock U st clk \<longleftrightarrow> (\<forall>w. fst (ua_clock U w) = clk \<and> st (snd (ua_clock U w)) = st w) \<and> 0 \<le> nt_getMillis clk"

definition prompt_board :: "('w \<Rightarrow> byte list) \<Rightarrow> ('w, 'm) serial_scheme \<Rightarrow> bool" where
  "prompt_board st s \<longleftrightarrow> se_writeStatus s = None \<and>
     (\<exists>status read. se_readStatus s = Some status \<and> se_readByte s = Some read
       \<and> (\<forall>w c cs. st w = c # cs \<longrightarrow> fst (status w) = rx_avail \<and> st (snd (status w)) = c # cs)
       \<and> (\<forall>w c cs. st w = c # cs \<longrightarrow> fst (read w) = c \<and> st (snd (read w)) = cs))"

lemma prompt_board_env [simp]: "prompt_board st (s\<lparr>se_env := w\<rparr>) = prompt_board st s"
  by (simp add: prompt_board_def)

definition timer_left :: "ntime \<Rightarrow> ntimer \<Rightarrow> bool" where
  "timer_left clk t \<longleftrightarrow> 0 < tm_remaining clk t \<and> tm_remaining clk t < 65536"

lemma timer_left_start:
  assumes "0 \<le> nt_getMillis clk" and "0 < ms" and "ms < 65536"
  shows "timer_left clk (tm_start_for clk ms tm_new)" and "tm_remaining clk (tm_start_for clk ms tm_new) = ms"
  using assms by (simp_all add: timer_left_def tm_remaining_def tm_start_for_def to_ulong_def ulong_mod_def)

lemma se_remaining_prompt:
  assumes "prompt_clock U st clk"
  obtains w where "se_remaining U t s = (tm_remaining clk t, s\<lparr>se_env := w\<rparr>)" and "st w = st (se_env s)"
  using assms by (simp add: prompt_clock_def se_remaining_def board_call_def split_def Let_def)

lemma se_Timer_prompt:
  assumes "prompt_clock U st clk"
  obtains w where "se_Timer U ms s = (tm_start_for clk ms tm_new, s\<lparr>se_env := w\<rparr>)" and "st w = st (se_env s)"
  using assms by (simp add: prompt_clock_def se_Timer_def board_call_def split_def Let_def)

lemma raw_loop_prompt:
  assumes "prompt_clock U st clk" and "\<forall>w c cs. st w = c # cs \<longrightarrow> fst (status w) = rx_avail \<and> st (snd (status w)) = c # cs"
    and "\<forall>w c cs. st w = c # cs \<longrightarrow> fst (read w) = c \<and> st (snd (read w)) = cs"
    and "timer_left clk t" and x: "st (se_env s) = c # cs"
  obtains w where "raw_loop U status read t s = Some (Some c, s\<lparr>se_env := w\<rparr>)" and "st w = cs"
proof -
  obtain w where w: "se_remaining U t s = (tm_remaining clk t, s\<lparr>se_env := w\<rparr>)" "st w = c # cs"
    using se_remaining_prompt [OF assms(1)] x by metis
  obtain r1 w1 where w1: "status w = (r1, w1)" by force
  obtain r2 w2 where w2: "read w1 = (r2, w2)" by force
  have "r1 = rx_avail" "st w1 = c # cs" using assms(2) w(2) w1 by (metis fst_conv, metis snd_conv)
  moreover have "r2 = c" "st w2 = cs" using assms(3) w2 calculation by (metis fst_conv, metis snd_conv)
  ultimately have "raw_loop U status read t s = Some (Some c, s\<lparr>se_env := w2\<rparr>)"
    using w(1) w1 w2 assms(4) by (subst raw_loop.simps) (simp add: timer_left_def board_call_def rx_avail_def rx_error_def)
  then show thesis using \<open>st w2 = cs\<close> by (rule that)
qed

lemma readRaw_prompt:
  assumes "prompt_clock U st clk" and "prompt_board st s" and "0 < ms" and "ms < 65536" and "st (se_env s) = c # cs"
  obtains w where "readRaw U ms s = Some (Some c, s\<lparr>se_env := w\<rparr>)" and "st w = cs"
proof -
  obtain status read where b: "se_readStatus s = Some status" "se_readByte s = Some read"
    "\<forall>w c cs. st w = c # cs \<longrightarrow> fst (status w) = rx_avail \<and> st (snd (status w)) = c # cs"
    "\<forall>w c cs. st w = c # cs \<longrightarrow> fst (read w) = c \<and> st (snd (read w)) = cs"
    using assms(2) unfolding prompt_board_def by blast
  obtain w where w: "se_Timer U ms s = (tm_start_for clk ms tm_new, s\<lparr>se_env := w\<rparr>)" "st w = c # cs"
    using se_Timer_prompt [OF assms(1)] assms(5) by metis
  have "timer_left clk (tm_start_for clk ms tm_new)"
    using assms(1,3,4) by (intro timer_left_start) (auto simp: prompt_clock_def)
  moreover have "st (se_env (s\<lparr>se_env := w\<rparr>)) = c # cs" using w(2) by simp
  ultimately obtain w2 where "raw_loop U status read (tm_start_for clk ms tm_new) (s\<lparr>se_env := w\<rparr>) = Some (Some c, s\<lparr>se_env := w\<rparr>\<lparr>se_env := w2\<rparr>)" "st w2 = cs"
    by (rule raw_loop_prompt [OF assms(1) b(3,4)])
  then show thesis using b(1,2) w(1) by (intro that [of w2]) (simp_all add: readRaw_def)
qed

subsection \<open>Lines\<close>

text \<open>The reference for \<open>readLine\<close>: the bytes are taken one after the other, until one of them completes a line.\<close>

fun line_scan ::
  "('w, 'm) uart \<Rightarrow> byte list \<Rightarrow> byte list \<times> nat \<times> LineStatus \<Rightarrow> ('w, 'm) serial_scheme
     \<Rightarrow> ((byte list \<times> nat \<times> ('w, 'm) serial_scheme) \<times> byte list) option" where
  "line_scan U [] L s = None"
| "line_scan U (c # cs) L s =
     (if c = 0 then line_scan U cs L s
      else case line_byte U c L s of
        Some (stop, L, s) \<Rightarrow> if stop then Some ((fst L, fst (snd L), s), cs) else line_scan U cs L s
      | None \<Rightarrow> None)"

text \<open>
  What a handler of a filter may do while a line is read: it leaves the serial port alone, and does not
  depend on the board.
\<close>

locale line_handlers =
  fixes U :: "('w, 'm) uart"
  assumes handle_env: "ua_handle U h l (s\<lparr>se_env := w\<rparr>) = map_option (\<lambda>s. s\<lparr>se_env := w\<rparr>) (ua_handle U h l s)"
    and handle_keeps: "ua_handle U h l s = Some s' \<Longrightarrow> se_filterList s' = se_filterList s \<and> se_error s' = se_error s
      \<and> se_readStatus s' = se_readStatus s \<and> se_readByte s' = se_readByte s \<and> se_writeStatus s' = se_writeStatus s
      \<and> se_env s' = se_env s"
begin

lemma uf_call_env: "uf_call U f l (s\<lparr>se_env := w\<rparr>) = map_option (\<lambda>s. s\<lparr>se_env := w\<rparr>) (uf_call U f l s)"
  by (simp add: uf_call_def handle_env split: option.split)

lemma line_byte_env:
  "line_byte U c L (s\<lparr>se_env := w\<rparr>) = map_option (\<lambda>(stop, L, s). (stop, L, s\<lparr>se_env := w\<rparr>)) (line_byte U c L s)"
  by (cases L) (simp add: line_byte_def hasFilter_def uf_call_env Let_def option.map_comp comp_def)

lemma line_byte_keeps:
  assumes "line_byte U c L s = Some (stop, L', s')"
  shows "prompt_board st s' = prompt_board st s" and "se_env s' = se_env s" and "se_error s' = se_error s"
    and "se_filterList s' = se_filterList s"
proof -
  have "s' = s \<or> (\<exists>f l. uf_call U f l s = Some s')"
    using assms by (cases L) (auto simp: line_byte_def Let_def split: if_splits)
  then have "s' = s \<or> (\<exists>h l. ua_handle U h l s = Some s')" by (auto simp: uf_call_def split: option.splits)
  then show "prompt_board st s' = prompt_board st s" "se_env s' = se_env s" "se_error s' = se_error s" "se_filterList s' = se_filterList s"
    using handle_keeps by (auto simp: prompt_board_def)
qed

lemma line_loop_scan:
  assumes "prompt_clock U st clk" and t: "timer_left clk t"
    and "prompt_board st s" and "line_scan U xs L s = Some ((line, i, s'), rest)" and "st w = xs"
  shows "\<exists>w'. line_loop U t L (s\<lparr>se_env := w\<rparr>) = Some (line, i, s'\<lparr>se_env := w'\<rparr>) \<and> st w' = rest"
  using assms(3-5)
proof (induction xs arbitrary: L s w)
  case (Cons c cs)
  obtain w1 where w1: "se_remaining U t (s\<lparr>se_env := w\<rparr>) = (tm_remaining clk t, s\<lparr>se_env := w1\<rparr>)" "st w1 = c # cs"
    using se_remaining_prompt [OF assms(1), of t "s\<lparr>se_env := w\<rparr>"] Cons.prems(3) by auto
  obtain w2 where w2: "se_remaining U t (s\<lparr>se_env := w1\<rparr>) = (tm_remaining clk t, s\<lparr>se_env := w2\<rparr>)" "st w2 = c # cs"
    using se_remaining_prompt [OF assms(1), of t "s\<lparr>se_env := w1\<rparr>"] w1(2) by auto
  have t': "0 < tm_remaining clk t" "tm_remaining clk t mod 65536 = tm_remaining clk t" "tm_remaining clk t < 65536"
    using t by (simp_all add: timer_left_def)
  obtain w3 where w3: "readRaw U (tm_remaining clk t) (s\<lparr>se_env := w2\<rparr>) = Some (Some c, s\<lparr>se_env := w3\<rparr>)" "st w3 = cs"
    using readRaw_prompt [OF assms(1) _ t'(1,3), of "s\<lparr>se_env := w2\<rparr>" c cs] Cons.prems(1) w2(2) by auto
  define B where "B = (if c \<noteq> 0 then line_byte U c L s else Some (False, L, s))"
  have B: "(if c \<noteq> 0 then line_byte U c L (s\<lparr>se_env := w3\<rparr>) else Some (False, L, s\<lparr>se_env := w3\<rparr>))
      = map_option (\<lambda>(stop, L, s). (stop, L, s\<lparr>se_env := w3\<rparr>)) B"
    by (simp add: B_def line_byte_env)
  obtain stop L1 s1 where b: "B = Some (stop, L1, s1)"
    "if stop then ((line, i, s'), rest) = ((fst L1, fst (snd L1), s1), cs) else line_scan U cs L1 s1 = Some ((line, i, s'), rest)"
    using Cons.prems(2) by (auto simp: B_def split: if_splits option.splits)
  have s1: "prompt_board st s1" using b(1) Cons.prems(1) line_byte_keeps(1) by (auto simp: B_def split: if_splits)
  obtain w4 where w4: "se_remaining U t (s1\<lparr>se_env := w3\<rparr>) = (tm_remaining clk t, s1\<lparr>se_env := w4\<rparr>)" "st w4 = cs"
    using se_remaining_prompt [OF assms(1), of t "s1\<lparr>se_env := w3\<rparr>"] w3(2) by auto
  have loop: "line_loop U t L (s\<lparr>se_env := w\<rparr>) = (if stop then Some (fst L1, fst (snd L1), s1\<lparr>se_env := w3\<rparr>)
      else line_loop U t L1 (s1\<lparr>se_env := w4\<rparr>))"
    using w1(1) w2(1) w3(1) w4(1) t' B b(1) by (subst line_loop.simps) (simp cong: if_cong)
  show ?case
  proof (cases stop)
    case True
    then show ?thesis using loop b(2) w3(2) by auto
  next
    case False
    then show ?thesis using loop b(2) Cons.IH [OF s1 _ w4(2)] by simp
  qed
qed simp

lemma readLine_scan:
  assumes "prompt_clock U st clk" and "prompt_board st s" and "0 < ms" and "ms < 65536"
    and "line_scan U (st (se_env s)) ([], 0, if mode = Simple then line_data else line_empty) s = Some ((line, i, s'), rest)"
  obtains w where "readLine U [] ms mode s = Some (i, if mode = Ignore then [] else line, s'\<lparr>se_env := w\<rparr>)" and "st w = rest"
proof -
  let ?t = "tm_start_for clk ms tm_new" and ?L = "([], 0, if mode = Simple then line_data else line_empty)"
  obtain w where w: "se_Timer U ms s = (?t, s\<lparr>se_env := w\<rparr>)" "st w = st (se_env s)"
    by (rule se_Timer_prompt [OF assms(1)])
  have b: "se_readStatus s \<noteq> None" "se_readByte s \<noteq> None" "waitForTx U (s\<lparr>se_env := w\<rparr>) = Some (s\<lparr>se_env := w\<rparr>)"
    using assms(2) by (auto simp: prompt_board_def waitForTx_def)
  have "timer_left clk ?t" using assms(1,3,4) by (intro timer_left_start) (auto simp: prompt_clock_def)
  from line_loop_scan [OF assms(1) this assms(2,5) w(2)] obtain w' where
    "line_loop U ?t ?L (s\<lparr>se_env := w\<rparr>) = Some (line, i, s'\<lparr>se_env := w'\<rparr>)" "st w' = rest" by blast
  then show thesis using b w(1) by (intro that [of w']) (simp_all add: readLine_def)
qed

text \<open>Texts that can be on a line; what each part of the input does.\<close>

definition plain :: "byte list \<Rightarrow> bool" where
  "plain l \<longleftrightarrow> 0 \<notin> set l \<and> 10 \<notin> set l \<and> 13 \<notin> set l"

lemma scan_plain:
  "plain l \<Longrightarrow> line_scan U (l @ xs) (line, i, line_data) s = line_scan U xs (line @ l, i + length l, line_data) s"
  by (induction l arbitrary: line i) (auto simp: plain_def line_byte_def)

lemma scan_blank: "line_scan U (13 # 10 # xs) (line, 0, line_data) s = line_scan U xs (line, 0, line_data) s"
  by (simp add: line_byte_def)

lemma scan_start:
  "0 \<notin> set junk \<Longrightarrow> 10 \<notin> set junk \<Longrightarrow> line_scan U (junk @ 10 # xs) (line, i, line_empty) s = line_scan U xs (line, i, line_data) s"
  by (induction junk) (auto simp: line_byte_def)

lemma scan_line:
  assumes "plain l" and "l \<noteq> []" and "sq_index (uf_matches l) (se_filterList s) < 0"
  shows "line_scan U (l @ 13 # 10 # xs) ([], 0, line_data) s = Some ((l, length l, s), xs)"
  using assms(2,3) by (simp add: scan_plain [OF assms(1)] line_byte_def Let_def)

lemma scan_urc:
  assumes "plain l" and "l \<noteq> []" and "0 \<le> sq_index (uf_matches l) (se_filterList s)"
    and "uf_call U (sq_at (sq_index (uf_matches l) (se_filterList s)) (se_filterList s)) l s = Some s'"
  shows "line_scan U (l @ 13 # 10 # xs) ([], 0, line_data) s = line_scan U xs ([], 0, line_data) s'"
proof -
  have "hasFilter s"
    using assms(3) by (auto simp: hasFilter_def sq_index_def sq_indexOf_def)
  then show ?thesis using assms(2,3,4) by (simp add: scan_plain [OF assms(1)] line_byte_def Let_def)
qed

end

end
