(* ===== verification/Texts.thy ===== *)
theory Texts
  imports AtCommands
begin

text \<open>
  Lemmas on the texts of the modem that the drivers share: decimal numbers, fields between commas, and the
  fields of a report.
\<close>

subsection \<open>Numbers\<close>

lemma digits_value_snoc: "digits_value (ds @ [d]) = 10 * digits_value ds + (uint d - 48)"
  by (simp add: digits_value_def)

lemma digit_byte:
  assumes "k < 10"
  shows "uint (of_nat (48 + k) :: byte) = 48 + int k" and "c_isdigit (of_nat (48 + k))"
proof -
  have k: "k \<in> {0, 1, 2, 3, 4, 5, 6, 7, 8, 9}" using assms by auto
  then show "uint (of_nat (48 + k) :: byte) = 48 + int k" by (elim insertE emptyE) simp_all
  from k show "c_isdigit (of_nat (48 + k))" by (elim insertE emptyE) (simp_all add: c_isdigit_def)
qed

lemma dec_digits_value:
  "digits_value (dec_digits n) = int n \<and> dec_digits n \<noteq> [] \<and> list_all c_isdigit (dec_digits n)"
proof (induction n rule: dec_digits.induct)
  case (1 n)
  show ?case
  proof (cases "n < 10")
    case True
    then show ?thesis using digit_byte [of n]
      by (subst (1 2 3) dec_digits.simps) (simp add: digits_value_def)
  next
    case False
    have "int n = 10 * int (n div 10) + int (n mod 10)" by (metis mult_div_mod_eq of_nat_add of_nat_mult of_nat_numeral)
    then show ?thesis
      using 1 [OF False] False digit_byte [of "n mod 10"]
      by (subst (1 2 3) dec_digits.simps) (simp add: digits_value_snoc del: of_nat_add)
  qed
qed

lemma digit_range: "c_isdigit d \<Longrightarrow> \<not> c_isspace d \<and> d \<noteq> 45 \<and> d \<noteq> 43 \<and> d \<noteq> 44 \<and> d \<noteq> 58 \<and> d \<noteq> 0 \<and> d \<noteq> 10 \<and> d \<noteq> 13 \<and> d \<noteq> 34"
  by (auto simp: c_isdigit_def c_isspace_def word_le_nat_alt)

lemma c_atoi_dec:
  assumes "n \<le> 2147483647"
  shows "c_atoi (dec_digits n) = Some (int n)"
proof -
  obtain d ds where ds: "dec_digits n = d # ds" using dec_digits_value [of n] by (cases "dec_digits n") auto
  have all: "list_all c_isdigit (d # ds)" and v: "digits_value (d # ds) = int n" using dec_digits_value [of n] ds by auto
  have "takeWhile c_isdigit (d # ds) = d # ds" using all by (simp add: list_all_iff takeWhile_eq_all_conv)
  moreover have "\<not> c_isspace d" "d \<noteq> 45" "d \<noteq> 43" using all digit_range by auto
  ultimately show ?thesis using assms v ds by (simp add: c_atoi_def Let_def)
qed

subsection \<open>Fields\<close>

lemma of_text_block: "st_block (of_text xs) xs"
  by (simp add: st_block_def of_text_def st_new_def)

lemma text_of_rep: "st_rep s xs \<Longrightarrow> text_of s = xs"
  by (auto simp: text_of_def st_rep_sz elim!: st_rep_cases)

lemma pieces_cut:
  "sep c \<Longrightarrow> list_all (\<lambda>x. \<not> sep x) xs \<Longrightarrow> pieces False sep cur (xs @ c # ys) = nonempty_piece (cur @ xs) @ pieces False sep [] ys"
  by (induction xs arbitrary: cur) auto

lemma pieces_last: "list_all (\<lambda>x. \<not> sep x) xs \<Longrightarrow> pieces False sep cur xs = nonempty_piece (cur @ xs)"
  by (induction xs arbitrary: cur) auto

text \<open>Fields between commas: \<open>split\<close> keeps those that are not empty.\<close>

fun comma :: "byte list list \<Rightarrow> byte list" where
  "comma [] = []"
| "comma (f # fs) = f @ (if fs = [] then [] else 44 # comma fs)"

lemma pieces_comma:
  "fs \<noteq> [] \<Longrightarrow> list_all (\<lambda>f. 44 \<notin> set f) fs \<Longrightarrow> pieces False (\<lambda>c. c = 44) [] (comma fs) = filter (\<lambda>f. f \<noteq> []) fs"
proof (induction fs)
  case (Cons f fs)
  have f: "list_all (\<lambda>x. x \<noteq> 44) f" using Cons.prems(2) by (auto simp: list_all_iff)
  show ?case
    using Cons pieces_cut [of "\<lambda>c. c = 44" 44 f "[]" "comma fs"] pieces_last [of "\<lambda>c. c = 44" f "[]"] f
    by (cases "fs = []") (auto simp: nonempty_piece_def)
qed simp

lemma comma_no_zero: "list_all (\<lambda>f. 0 \<notin> set f) fs \<Longrightarrow> 0 \<notin> set (comma fs)"
  by (induction fs) auto

lemma split_comma:
  assumes "fs \<noteq> []" and "list_all (\<lambda>f. 44 \<notin> set f \<and> 0 \<notin> set f) fs" and "length (comma fs) < npos"
  obtains q where "st_split_char 44 False (of_text (comma fs)) = Some q"
    and "st_list_rep q (if filter (\<lambda>f. f \<noteq> []) fs = [] then [comma fs] else filter (\<lambda>f. f \<noteq> []) fs)"
proof -
  have "pieces False (\<lambda>c. c = 44) [] (comma fs) = filter (\<lambda>f. f \<noteq> []) fs"
    using assms(1,2) by (intro pieces_comma) (auto simp: list_all_iff)
  moreover have "0 \<notin> set (comma fs)" using assms(2) by (intro comma_no_zero) (auto simp: list_all_iff)
  ultimately show thesis
    using split_char_rep [OF st_block_rep [OF of_text_block] assms(3), of 44 False] that unfolding split_spec_def by metis
qed

text \<open>A text that is copied to a block: what of the block it leaves.\<close>

definition put_field :: "nat \<Rightarrow> byte list \<Rightarrow> byte list \<Rightarrow> byte list" where
  "put_field len xs dest = take len xs @ 0 # drop (Suc (min len (length xs))) dest"

lemma store_behind:
  assumes "length a = n" and "n \<le> length dest"
  shows "store (a @ drop n dest) n c = (if length dest \<le> n then None else Some (a @ c # drop (Suc n) dest))"
proof (cases "n < length dest")
  case True
  then have "(drop n dest)[0 := c] = c # drop (Suc n) dest" by (metis Cons_nth_drop_Suc list_update_code(2))
  then show ?thesis using assms(1) True by (simp add: store_def list_update_append)
qed (use assms in \<open>simp add: store_def\<close>)

lemma st_copy_rep:
  assumes "st_rep t xs" and "xs \<noteq> []" and "0 < len"
  shows "st_copy (Some dest) len t
    = (if length dest \<le> min len (length xs) then None else Some (min len (length xs), Some (put_field len xs dest)))"
proof -
  let ?n = "min len (length xs)"
  obtain rest where t: "st_data t = Some (xs @ 0 # rest)" "st_sz t = length xs"
    using assms(1,2) by (auto elim!: st_rep_cases)
  have n: "0 < ?n" using assms(2,3) by simp
  show ?thesis
  proof (cases "length dest < ?n")
    case True
    then have "memcpy dest 0 (xs @ 0 # rest) ?n = None" using True by (simp add: memcpy_def del: min_less_iff_conj)
    then show ?thesis using t n assms(3) True by (simp add: st_copy_def Let_def)
  next
    case False
    then have le: "?n \<le> length dest" by (simp only: not_less)
    have "take ?n (xs @ 0 # rest) = take len xs" by (simp add: min_def)
    with le have m: "memcpy dest 0 (xs @ 0 # rest) ?n = Some (take len xs @ drop ?n dest)"
      by (simp only: memcpy_def) simp
    have "length (take len xs) = ?n" by (simp add: min.commute)
    from store_behind [OF this le, of 0]
    have "store (take len xs @ drop ?n dest) ?n 0 = (if length dest \<le> ?n then None else Some (put_field len xs dest))"
      by (simp only: put_field_def)
    then show ?thesis using t n m assms(3) by (simp add: st_copy_def Let_def)
  qed
qed

end
