(* ===== verification/NetworkRuns.thy ===== *)
theory NetworkRuns
  imports SerialRuns Texts
begin

text \<open>
  Datagrams: from the line of the modem through the filter and the ring buffer to the reader.
\<close>

subsection \<open>The handler keeps to its fields\<close>

text \<open>It changes the count and the buffer only, and does not look at the board.\<close>

lemma store_datagram_env:
  "store_datagram n hex (s\<lparr>se_env := w\<rparr>) = map_option (\<lambda>s. s\<lparr>se_env := w\<rparr>) (store_datagram n hex s)"
  by (cases s) (simp add: store_datagram_def Let_def map_option_bind comp_def split_def)

lemma store_datagram_form:
  assumes "store_datagram n hex s = Some s'"
  obtains c b where "s' = s\<lparr>nt_bytesAvail := c, nt_buffer := b\<rparr>"
proof -
  have "s' = s\<lparr>nt_bytesAvail := nt_bytesAvail s', nt_buffer := nt_buffer s'\<rparr>"
    using assms by (cases s) (auto simp: store_datagram_def Let_def bind_eq_Some_conv split: if_splits)
  then show thesis by (rule that)
qed

lemma parseFilterResult_env:
  "parseFilterResult l (s\<lparr>se_env := w\<rparr>) = map_option (\<lambda>s. s\<lparr>se_env := w\<rparr>) (parseFilterResult l s)"
  by (simp add: parseFilterResult_def map_option_bind comp_def store_datagram_env if_distrib [of "map_option _"] cong: if_cong)

lemma parseFilterResult_form:
  assumes "parseFilterResult l s = Some s'"
  obtains c b where "s' = s\<lparr>nt_bytesAvail := c, nt_buffer := b\<rparr>"
proof -
  have "s' = s \<or> (\<exists>n hex. store_datagram n hex s = Some s')"
    using assms by (auto simp: parseFilterResult_def bind_eq_Some_conv split: if_splits)
  moreover have "s = s\<lparr>nt_bytesAvail := nt_bytesAvail s, nt_buffer := nt_buffer s\<rparr>" by (cases s) simp
  ultimately show thesis using that store_datagram_form by metis
qed

interpretation nl: line_handlers "net_uart clock" for clock
proof
  fix h l and s :: "('a, ('b network_ext) atcmd_ext) serial_scheme" and w
  show "ua_handle (net_uart clock) h l (s\<lparr>se_env := w\<rparr>) = map_option (\<lambda>s. s\<lparr>se_env := w\<rparr>) (ua_handle (net_uart clock) h l s)"
    by (simp add: net_uart_def parseFilterResult_env)
next
  fix h l and s s' :: "('a, ('b network_ext) atcmd_ext) serial_scheme"
  assume "ua_handle (net_uart clock) h l s = Some s'"
  then have "parseFilterResult l s = Some s'" by (simp add: net_uart_def)
  then obtain c b where "s' = s\<lparr>nt_bytesAvail := c, nt_buffer := b\<rparr>" by (rule parseFilterResult_form)
  then show "se_filterList s' = se_filterList s \<and> se_error s' = se_error s \<and> se_readStatus s' = se_readStatus s
      \<and> se_readByte s' = se_readByte s \<and> se_writeStatus s' = se_writeStatus s \<and> se_env s' = se_env s"
    by simp
qed

subsection \<open>The line of a datagram\<close>

lemma split_three:
  assumes "a \<noteq> []" "b \<noteq> []" "c \<noteq> []" and "44 \<notin> set a" "44 \<notin> set b" "44 \<notin> set c"
    and "0 \<notin> set a" "0 \<notin> set b" "0 \<notin> set c" and "length a + length b + length c < 2147483648"
  obtains x y z q where "st_split_char 44 False (of_text (a @ 44 # b @ 44 # c)) = Some q" and "sq_items q = [x, y, z]"
    and "st_rep x a" and "st_rep y b" and "st_rep z c"
proof -
  let ?t = "a @ 44 # b @ 44 # c"
  have n: "list_all (\<lambda>x. x \<noteq> 44) a" "list_all (\<lambda>x. x \<noteq> 44) b" "list_all (\<lambda>x. x \<noteq> 44) c"
    using assms(4-6) by (auto simp: list_all_iff)
  have "split_spec False (\<lambda>x. x = 44) ?t = [a, b, c]"
    using assms(1-3) n by (simp add: split_spec_def pieces_cut pieces_last nonempty_piece_def)
  moreover have "length ?t < npos" using assms(10) by (simp add: npos_def size_t_mod_def)
  moreover have "0 \<notin> set ?t" using assms(7-9) by auto
  ultimately obtain q where "st_split_char 44 False (of_text ?t) = Some q" "st_list_rep q [a, b, c]"
    using split_char_rep [OF st_block_rep [OF of_text_block], of ?t 44 False] by auto
  then show thesis by (auto simp: st_list_rep_def list_all2_Cons2 intro: that)
qed

text \<open>What the modem writes for a datagram \<open>d\<close> of the socket \<open>n\<close>.\<close>

definition datagram_line :: "int \<Rightarrow> byte list \<Rightarrow> byte list" where
  "datagram_line n d = respNSONMI n @ c_dec (int (length d)) @ 44 # concat (map hex_of d)"

text \<open>Bytes that neither end a line nor separate or quote its fields.\<close>

definition fieldchar :: "byte \<Rightarrow> bool" where
  "fieldchar x \<longleftrightarrow> x \<noteq> 44 \<and> x \<noteq> 34 \<and> x \<noteq> 10 \<and> x \<noteq> 13 \<and> x \<noteq> 0"

lemma fieldchar_dec: "list_all fieldchar (dec_digits n)" "58 \<notin> set (dec_digits n)"
  using dec_digits_value [of n] digit_range by (auto simp: fieldchar_def list_all_iff)

lemma c2h_fieldchar: "n \<le> 15 \<Longrightarrow> fieldchar (c2h n)"
proof -
  assume "n \<le> 15"
  from nibble_cases [OF this] show ?thesis
    by (simp only: insert_iff empty_iff) (elim disjE FalseE, simp_all only:, simp_all add: c2h_def fieldchar_def)
qed

lemma fieldchar_hex: "list_all fieldchar (concat (map hex_of d))"
  using c2h_fieldchar and_15_le by (induction d) (auto simp: hex_of_def)

lemma dropWhile_none: "x \<notin> set xs \<Longrightarrow> dropWhile ((=) x) xs = xs"
  by (cases xs) auto

lemma strip_none: "c \<notin> set xs \<Longrightarrow> strip_spec c xs = xs"
  by (simp add: strip_spec_def dropWhile_none)

lemma store_datagram_hex:
  assumes "cb_inv (nt_buffer s)" and "d \<noteq> []" and "cb_size (nt_buffer s) + length d \<le> max_size (nt_buffer s)"
    and "length d < 1073741824"
  obtains b where "store_datagram (int (length d)) (concat (map hex_of d)) s = Some (s\<lparr>nt_bytesAvail := of_nat (length d), nt_buffer := b\<rparr>)"
    and "cb_inv b" and "max_size b = max_size (nt_buffer s)" and "cb_contents b = cb_contents (nt_buffer s) @ d"
proof -
  let ?h = "concat (map hex_of d)"
  have h: "34 \<notin> set ?h" "?h \<noteq> []" using fieldchar_hex [of d] assms(2) by (auto simp: fieldchar_def list_all_iff hex_of_def)
  have l: "length ?h < npos" using assms(4)
    by (simp add: length_concat comp_def hex_of_def sum_list_triv npos_def size_t_mod_def)
  have "\<not> list_all ((=) 34) ?h" using h by (cases ?h) auto
  then obtain t where t: "st_strip 34 (of_text ?h) = Some t" "st_rep t ?h"
    using st_strip_rep [OF st_block_rep [OF of_text_block] l, of 34] strip_none [OF h(1)] by metis
  obtain rest where data: "st_data t = Some (?h @ 0 # rest)"
    using st_rep_nonempty [OF t(2) h(2)] by (auto simp: st_block_def)
  obtain r where r: "st_fromHex (?h @ 0 # rest) = Some r" "st_block r ([] @ d)"
    using fromHex_loop_rep [OF st_new_block, of d] by (auto simp: st_fromHex_def cstr_text [OF hex_of_no_zero])
  obtain rest' where data': "st_data r = Some (d @ 0 # rest')" using r(2) by (auto simp: st_block_def)
  have "length d \<le> length (d @ 0 # rest')" "0 < length d" using assms(2) by simp_all
  from cb_put_bytes_eq [OF assms(1,3) this(2,1)] obtain b where
    b: "cb_put_bytes (d @ 0 # rest') (length d) (nt_buffer s) = Some (True, b)" "cb_inv b" "max_size b = max_size (nt_buffer s)"
      "cb_contents b = cb_contents (nt_buffer s) @ d" by auto
  have n: "unat (word_of_int (int (length d)) :: u32) = length d" "(0 :: u32) < word_of_int (int (length d))"
    using assms(2,4) by (simp_all add: unat_of_nat word_less_nat_alt)
  have "\<not> cb_capacity (nt_buffer s) < length d" using assms(3) by (simp add: cb_capacity_def)
  then have "store_datagram (int (length d)) ?h s = Some (s\<lparr>nt_bytesAvail := word_of_int (int (length d)), nt_buffer := b\<rparr>)"
    using n t(1) data r(1) data' b(1) by (cases s) (simp add: store_datagram_def)
  then show thesis using b by (intro that) simp_all
qed

lemma length_dec_digits: "length (dec_digits n) \<le> n + 1"
proof (induction n rule: dec_digits.induct)
  case (1 n)
  then show ?case by (subst dec_digits.simps) (auto intro: le_trans)
qed

lemma search_socket: "search_sub [58] (ascii ''+NSONMI:'' @ xs) = Some 7"
  by (simp add: ascii_def)

lemma parse_datagram:
  assumes "nt_connectionNumber s = int n" and "n < 7" and "cb_inv (nt_buffer s)" and "d \<noteq> []"
    and "cb_size (nt_buffer s) + length d \<le> max_size (nt_buffer s)" and "max_size (nt_buffer s) = nt_bufSize"
  obtains b where "parseFilterResult (datagram_line (int n) d) s = Some (s\<lparr>nt_bytesAvail := of_nat (length d), nt_buffer := b\<rparr>)"
    and "cb_inv b" and "max_size b = nt_bufSize" and "cb_contents b = cb_contents (nt_buffer s) @ d"
proof -
  let ?a = "ascii ''+NSONMI:'' @ dec_digits n" and ?b = "dec_digits (length d)" and ?c = "concat (map hex_of d)"
  have d: "length d \<le> 512" using assms(5,6) by (simp add: nt_bufSize_def)
  have line: "datagram_line (int n) d = ?a @ 44 # ?b @ 44 # ?c"
    by (simp add: datagram_line_def respNSONMI_def c_dec_def)
  have a: "list_all fieldchar ?a" using fieldchar_dec by (simp add: ascii_def fieldchar_def)
  have ne: "?a \<noteq> []" "?b \<noteq> []" "?c \<noteq> []" using dec_digits_value assms(4) by (auto simp: hex_of_def)
  have c44: "44 \<notin> set ?a" "44 \<notin> set ?b" "44 \<notin> set ?c" and c0: "0 \<notin> set ?a" "0 \<notin> set ?b" "0 \<notin> set ?c"
    using a fieldchar_dec(1) [of "length d"] fieldchar_hex [of d] unfolding list_all_iff fieldchar_def by blast+
  have "length ?c = 2 * length d" by (simp add: length_concat comp_def hex_of_def sum_list_triv)
  moreover have "length ?a \<le> 8 + (n + 1)" "length ?b \<le> length d + 1"
    using length_dec_digits by (simp_all add: ascii_def)
  ultimately have len: "length ?a + length ?b + length ?c < 2147483648" and la: "length ?a < npos"
    using d assms(2) by (simp_all add: npos_def size_t_mod_def)
  obtain x y z q where q: "st_split_char 44 False (of_text (?a @ 44 # ?b @ 44 # ?c)) = Some q" "sq_items q = [x, y, z]"
    "st_rep x ?a" "st_rep y ?b" "st_rep z ?c"
    by (rule split_three [OF ne c44 c0 len])
  have pos: "st_find_char 58 x = Some 7"
    using st_find_char_rep [OF st_rep_nonempty [OF q(3) ne(1)] c0(1), of 58] search_socket by simp
  obtain number where number: "st_substr 8 npos x = Some number" "st_rep number (dec_digits n)"
    using st_substr_npos [OF q(3) la _ c0(1), of 8] by (auto simp: ascii_def)
  have n: "c_atoi (text_of number) = Some (int n)" "c_atoi (text_of y) = Some (int (length d))"
    using assms(2) d by (simp_all add: text_of_rep [OF number(2)] text_of_rep [OF q(4)] c_atoi_dec)
  obtain b where b: "store_datagram (int (length d)) ?c s = Some (s\<lparr>nt_bytesAvail := of_nat (length d), nt_buffer := b\<rparr>)"
    "cb_inv b" "max_size b = max_size (nt_buffer s)" "cb_contents b = cb_contents (nt_buffer s) @ d"
    using store_datagram_hex [OF assms(3,4,5)] d by auto
  have "parseFilterResult (datagram_line (int n) d) s = store_datagram (int (length d)) ?c s"
    using q(1,2) pos number(1) n assms(1)
    by (simp add: parseFilterResult_def line sq_count_def sq_at_def sq_valid_def size_t_mod_def text_of_rep [OF q(5)] del: map_concat)
  then show thesis using b assms(6) by (intro that) simp_all
qed

subsection \<open>Reading the buffer\<close>

lemma take_bytes_fifo:
  assumes "cb_inv (nt_buffer s)" and "n \<le> cb_size (nt_buffer s)"
  shows "\<exists>b. take_bytes n data s = Some (data @ take n (cb_contents (nt_buffer s)), s\<lparr>nt_bytesAvail := nt_bytesAvail s - of_nat n, nt_buffer := b\<rparr>)
    \<and> cb_inv b \<and> max_size b = max_size (nt_buffer s) \<and> cb_contents b = drop n (cb_contents (nt_buffer s))"
  using assms
proof (induction n arbitrary: data s)
  case 0
  have "s = s\<lparr>nt_bytesAvail := nt_bytesAvail s, nt_buffer := nt_buffer s\<rparr>" by (cases s) simp
  then show ?case using 0 by (intro exI [of _ "nt_buffer s"]) simp
next
  case (Suc n)
  let ?b = "nt_buffer s"
  obtain c cs where c: "cb_contents ?b = c # cs"
    using Suc.prems(2) length_cb_contents [of ?b] by (cases "cb_contents ?b") auto
  define s1 where "s1 = s\<lparr>nt_buffer := cb_retreat 1 ?b, nt_bytesAvail := nt_bytesAvail s - 1\<rparr>"
  have r: "cb_inv (cb_retreat 1 ?b)" "cb_size (cb_retreat 1 ?b) = cb_size ?b - 1" "cb_contents (cb_retreat 1 ?b) = cs"
    using cb_retreat_props [OF Suc.prems(1), of 1] Suc.prems(2) c by auto
  have "take_bytes (Suc n) data s = take_bytes n (data @ [c]) s1"
    using cb_get_eq [OF Suc.prems(1) c] by (simp add: s1_def)
  moreover have "cb_inv (nt_buffer s1)" "n \<le> cb_size (nt_buffer s1)" using r Suc.prems(2) by (simp_all add: s1_def)
  from Suc.IH [OF this, of "data @ [c]"] obtain b where b: "take_bytes n (data @ [c]) s1 = Some ((data @ [c]) @ take n (cb_contents (nt_buffer s1)),
      s1\<lparr>nt_bytesAvail := nt_bytesAvail s1 - of_nat n, nt_buffer := b\<rparr>)"
    "cb_inv b \<and> max_size b = max_size (nt_buffer s1) \<and> cb_contents b = drop n (cb_contents (nt_buffer s1))"
    by blast
  moreover have "max_size (cb_retreat 1 ?b) = max_size ?b" by (simp add: cb_retreat_def)
  ultimately show ?case
    using r(3) c by (intro exI [of _ b]) (cases s, simp add: s1_def algebra_simps)
qed

text \<open>Bytes that are not there: the count goes on downwards.\<close>

lemma take_bytes_empty:
  assumes "cb_empty (nt_buffer s)"
  shows "take_bytes n data s = Some (data @ replicate n 0, s\<lparr>nt_bytesAvail := nt_bytesAvail s - of_nat n\<rparr>)"
  using assms
proof (induction n arbitrary: data s)
  case 0
  then show ?case by (cases s) simp
next
  case (Suc n)
  have "cb_get (nt_buffer s) = Some (None, nt_buffer s)" using Suc.prems by (simp add: cb_get_def)
  then have "take_bytes (Suc n) data s = take_bytes n (data @ [0]) (s\<lparr>nt_buffer := nt_buffer s, nt_bytesAvail := nt_bytesAvail s - 1\<rparr>)"
    by simp
  then show ?case using Suc.IH [of "s\<lparr>nt_buffer := nt_buffer s, nt_bytesAvail := nt_bytesAvail s - 1\<rparr>" "data @ [0]"] Suc.prems
    by (cases s) (simp add: algebra_simps replicate_append_same)
qed

lemma take_bytes_add:
  "take_bytes (m + n) data s = Option.bind (take_bytes m data s) (\<lambda>(data, s). take_bytes n data s)"
  by (induction m arbitrary: data s) (simp_all add: bind_assoc split_def)

text \<open>The time of the read is over before the modem is asked.\<close>

definition short_wait :: "('w, 'm) uart \<Rightarrow> int \<Rightarrow> ('w, 'm) serial_scheme \<Rightarrow> bool" where
  "short_wait U ms s \<longleftrightarrow> (let (t, s) = se_Timer U ms s in fst (se_remaining U t s) \<le> nt_readInterval)"

lemma net_read_short:
  assumes "short_wait U ms s" and "0 \<le> len"
  obtains w where "net_read U buffer len ms s = do {
      (rc, data, s) \<leftarrow> (if 0 < ipAvailable s \<and> 0 < len then map_option (\<lambda>(data, s). (len, data, s)) (take_bytes (nat len) [] (s\<lparr>se_env := w\<rparr>))
        else Some (0, [], s\<lparr>se_env := w\<rparr>));
      buffer \<leftarrow> (if 0 < rc then map_option snd (st_copy (Some buffer) (nat rc) (of_text data)) else Some (Some buffer));
      Some (rc, buffer, s)
    }"
proof -
  obtain t w1 where t: "se_Timer U ms s = (t, s\<lparr>se_env := w1\<rparr>)"
    by (simp add: se_Timer_def board_call_def split_def Let_def)
  obtain left w2 where w2: "se_remaining U t (s\<lparr>se_env := w1\<rparr>) = (left, s\<lparr>se_env := w2\<rparr>)"
    by (simp add: se_remaining_def board_call_def split_def Let_def)
  have "\<not> nt_readInterval < left" using assms(1) t w2 by (simp add: short_wait_def)
  then have "read_wait U t len ([], 0, ipAvailable s) (s\<lparr>se_env := w1\<rparr>) = Some (([], 0, ipAvailable s), s\<lparr>se_env := w2\<rparr>)"
    using w2 by (subst read_wait.simps) simp
  moreover have "ipAvailable (s\<lparr>se_env := w1\<rparr>) = ipAvailable s" by (simp add: ipAvailable_def)
  ultimately show thesis using assms(2) t by (intro that [of w2]) (simp add: net_read_def)
qed

end
