(* ===== verification/ModemBase.thy ===== *)
theory ModemBase
  imports ModemTools
begin

text \<open>
  The modem classes: \<open>modems/modembase.cpp\<close>, and the drivers \<open>modem.cpp\<close> of the BC95, the SARA and the BG96,
  which override some of its methods. The handlers of the application are functions on the environment.
  The unsolicited lines come from the filters of the serial port; the numbers of the handlers are in
  \<open>modem_uart\<close>.
\<close>

subsection \<open>The reports (\<open>responses.h\<close>)\<close>

record cereg_response =
  cr_stat :: int
  cr_tac :: "byte list"
  cr_ci :: "byte list"
  cr_act :: int
  cr_causeType :: int
  cr_rejectCause :: int
  cr_activeTime :: "byte list"
  cr_periodicTau :: "byte list"

datatype PmChangeFlag = CF_NONE | CF_PSM | CF_CON | CF_EDRX

record pm_response =
  pr_psmStatus :: bool
  pr_psmRequestedActiveTime :: "byte list"
  pr_psmRequestedPeriodicTau :: "byte list"
  pr_conStatus :: bool
  pr_eDrxMode :: int
  pr_eDrxActType :: int
  pr_eDrxRequestedValue :: "byte list"
  pr_eDrxNwProvidedValue :: "byte list"
  pr_eDrxPagingTimeWindow :: "byte list"
  pr_changeFlag :: PmChangeFlag

definition cereg_new :: cereg_response where
  "cereg_new = \<lparr>cr_stat = 0, cr_tac = replicate 3 0, cr_ci = replicate 5 0, cr_act = 0, cr_causeType = 0, cr_rejectCause = 0,
     cr_activeTime = replicate 9 0, cr_periodicTau = replicate 9 0\<rparr>"

definition pm_new :: pm_response where
  "pm_new = \<lparr>pr_psmStatus = False, pr_psmRequestedActiveTime = replicate 9 0, pr_psmRequestedPeriodicTau = replicate 9 0,
     pr_conStatus = False, pr_eDrxMode = 0, pr_eDrxActType = 0, pr_eDrxRequestedValue = replicate 5 0,
     pr_eDrxNwProvidedValue = replicate 5 0, pr_eDrxPagingTimeWindow = replicate 5 0, pr_changeFlag = CF_NONE\<rparr>"

subsection \<open>The class\<close>

record 'w mbase = "'w atcmd" +
  mb_plmn :: "byte list"
  mb_apn :: "byte list"
  mb_apnUser :: "byte list"
  mb_apnPwd :: "byte list"
  mb_deviceId :: "byte list"
  mb_ceregResponse :: cereg_response
  mb_pmResponse :: pm_response
  mb_ceregHandler :: "(cereg_response \<Rightarrow> 'w \<Rightarrow> 'w) option"
  mb_pmHandler :: "(pm_response \<Rightarrow> 'w \<Rightarrow> 'w) option"

type_synonym ('w, 'm) mb = "('w, 'm) mbase_scheme"
type_synonym ('w, 'm) mb_uart = "('w, (('w, 'm) mbase_ext) atcmd_ext) uart"

definition mbase_new :: "'w \<Rightarrow> 'w mbase" where
  "mbase_new w = serial.extend (serial_new w)
     \<lparr>at_response = [], mb_plmn = [], mb_apn = [], mb_apnUser = [], mb_apnPwd = [], mb_deviceId = [],
      mb_ceregResponse = cereg_new, mb_pmResponse = pm_new, mb_ceregHandler = None, mb_pmHandler = None\<rparr>"

definition cmdCEREG5 :: "byte list" where "cmdCEREG5 = ascii ''AT+CEREG=5''"
definition respCEREG :: "byte list" where "respCEREG = ascii ''+CEREG:''"
definition respCFUNquery :: "byte list" where "respCFUNquery = ascii ''+CFUN:''"
definition ceregParamCount :: int where "ceregParamCount = 8"
definition cuTacLen :: nat where "cuTacLen = 2"
definition cuCiLen :: nat where "cuCiLen = 4"
definition cuActiveTimeLen :: nat where "cuActiveTimeLen = 8"
definition cuPeriodicTauLen :: nat where "cuPeriodicTauLen = 8"

text \<open>What follows the colon and the spaces of a response, if anything does.\<close>

definition behind_colon :: "byte list \<Rightarrow> byte list option option" where
  "behind_colon response = do {
     pos \<leftarrow> st_find_char 58 (of_text response);
     Some (if pos \<noteq> npos
           then let params = dropWhile (\<lambda>c. c = 32) (drop (pos + 1) response)
                in if params \<noteq> [] then Some params else None
           else None)
   }"

definition mb_sendAtCommand ::
  "('w, 'm) mb_uart \<Rightarrow> byte list \<Rightarrow> byte list option \<Rightarrow> nat \<Rightarrow> int \<Rightarrow> ('w, 'm) mb
     \<Rightarrow> (bool \<times> byte list option \<times> ('w, 'm) mb) option" where
  "mb_sendAtCommand U command response len timeout s =
     (let (ok, s) = sendCommand_cstr command s
      in if ok
         then do {
           (ok, s) \<leftarrow> readResponse U REPLY_COPY timeout s;
           if ok \<and> length (at_response s) \<le> len
           then do { (_, response) \<leftarrow> st_copy response len (of_text (at_response s)); Some (True, response, s) }
           else Some (False, response, s)
         }
         else Some (False, response, s))"

definition mb_attach :: "('w, 'm) mb_uart \<Rightarrow> ('w, 'm) mb \<Rightarrow> (bool \<times> ('w, 'm) mb) option" where
  "mb_attach U s =
     (let (ok, s) = sendCommand (st_Printf (cmdCOPS (mb_plmn s))) s
      in do {
        (ok, s) \<leftarrow> (if ok then readResponse U REPLY_OK md_tenSeconds s else Some (False, s));
        ignore_rest U ok s
      })"

definition mb_detach :: "('w, 'm) mb_uart \<Rightarrow> ('w, 'm) mb \<Rightarrow> (bool \<times> ('w, 'm) mb) option" where
  "mb_detach U s =
     (let (ok, s) = sendCommand_cstr cmdCGATT0 s
      in do {
        (ok, s) \<leftarrow> (if ok then readResponse U REPLY_OK md_tenSeconds s else Some (False, s));
        ignore_rest U ok s
      })"

definition mb_getImsi :: "('w, 'm) mb_uart \<Rightarrow> byte list \<Rightarrow> ('w, 'm) mb \<Rightarrow> ((bool \<times> byte list) \<times> ('w, 'm) mb) option" where
  "mb_getImsi U imsi s =
     (let (ok, s) = sendCommand_cstr cmdCIMI s
      in do {
        (ok, s) \<leftarrow> (if ok then readResponse U REPLY_ANY md_threeSeconds s else Some (False, s));
        ignore_rest U (if ok then (True, at_response s) else (False, imsi)) s
      })"

definition mb_getDeviceId :: "('w, 'm) mb_uart \<Rightarrow> ('w, 'm) mb \<Rightarrow> (byte list \<times> ('w, 'm) mb) option" where
  "mb_getDeviceId U s = do {
     s \<leftarrow> (if mb_deviceId s = []
           then map_option (\<lambda>((_, imsi), s). s\<lparr>mb_deviceId := imsi\<rparr>) (mb_getImsi U (mb_deviceId s) s)
           else Some s);
     Some (mb_deviceId s, s)
   }"

definition mb_isModemOn :: "('w, 'm) mb_uart \<Rightarrow> ('w, 'm) mb \<Rightarrow> (ModemState \<times> ('w, 'm) mb) option" where
  "mb_isModemOn U s =
     (let (ok, s) = sendCommand_cstr cmdCFUNquery s
      in do {
        (ret, s) \<leftarrow>
          (if ok
           then do {
             (ok, s) \<leftarrow> readUntil U respCFUNquery md_tenSeconds False s;
             if ok
             then do {
               number \<leftarrow> behind_colon (at_response s);
               case number of
                 Some number \<Rightarrow> do { n \<leftarrow> c_atoi number; Some (if n = 0 then MODEM_OFF else MODEM_ON, s) }
               | None \<Rightarrow> Some (MODEM_OFF, s)
             }
             else Some (MODEM_OFF, s)
           }
           else Some (MODEM_OFF, s));
        ignore_rest U ret s
      })"

definition mb_switchModem :: "('w, 'm) mb_uart \<Rightarrow> ModemState \<Rightarrow> ('w, 'm) mb \<Rightarrow> (ModemState \<times> ('w, 'm) mb) option" where
  "mb_switchModem U state s = do {
     (ret, s) \<leftarrow> mb_isModemOn U s;
     if ret \<noteq> state
     then let (ok, s) = sendCommand (st_Printf (cmdCFUN (if state = MODEM_ON then 1 else 0))) s
          in do {
            (ok, s) \<leftarrow> (if ok then readResponse U REPLY_OK md_tenSeconds s else Some (False, s));
            ignore_rest U (if ok then state else ret) s
          }
     else Some (ret, s)
   }"

definition mb_getAttachState :: "('w, 'm) mb_uart \<Rightarrow> ('w, 'm) mb \<Rightarrow> (int \<times> ('w, 'm) mb) option" where
  "mb_getAttachState U s =
     (let (ok, s) = sendCommand_cstr cmdCGATTquery s
      in do {
        (ret, s) \<leftarrow>
          (if ok
           then do {
             (ok, s) \<leftarrow> readUntil U respCGATTquery md_tenSeconds False s;
             if ok
             then do {
               number \<leftarrow> behind_colon (at_response s);
               case number of
                 Some number \<Rightarrow> do { n \<leftarrow> c_atoi number; Some (n, s) }
               | None \<Rightarrow> Some (- 1, s)
             }
             else Some (- 1, s)
           }
           else Some (- 1, s));
        ignore_rest U ret s
      })"

definition mb_isAttached :: "('w, 'm) mb_uart \<Rightarrow> ('w, 'm) mb \<Rightarrow> (bool \<times> ('w, 'm) mb) option" where
  "mb_isAttached U s = map_option (\<lambda>(n, s). (n = 1, s)) (mb_getAttachState U s)"

text \<open>Sending a command and waiting for a line that starts with a text, unless something failed before.\<close>

definition cmd_until ::
  "('w, 'm atcmd_ext) uart \<Rightarrow> byte list \<Rightarrow> byte list \<Rightarrow> int \<Rightarrow> bool \<times> ('w, 'm) atc \<Rightarrow> (bool \<times> ('w, 'm) atc) option" where
  "cmd_until U cmd resp timeout st =
     (case st of (ok, s) \<Rightarrow>
        if ok
        then let (ok, s) = sendCommand_cstr cmd s
             in if ok then readUntil U resp timeout False s else Some (False, s)
        else Some (False, s))"

definition mb_setupCeregUrc :: "('w, 'm) mb_uart \<Rightarrow> ('w, 'm) mb \<Rightarrow> (bool \<times> ('w, 'm) mb) option" where
  "mb_setupCeregUrc U s = do {
     (ok, s) \<leftarrow> cmd_until U cmdCEREG5 okReply md_tenSeconds (True, s);
     Some (ok, if ok then snd (addUrcFilter respCEREG 1 s) else s)
   }"

definition mb_installCeregHandler ::
  "('w, 'm) mb_uart \<Rightarrow> (cereg_response \<Rightarrow> 'w \<Rightarrow> 'w) \<Rightarrow> ('w, 'm) mb \<Rightarrow> ('w, 'm) mb option" where
  "mb_installCeregHandler U ceregHandler s = do {
     (ok, s) \<leftarrow> mb_setupCeregUrc U s;
     Some (if ok then s\<lparr>mb_ceregHandler := Some ceregHandler\<rparr> else s)
   }"

definition mb_installPmHandler ::
  "(('w, 'm) mb \<Rightarrow> (bool \<times> ('w, 'm) mb) option) \<Rightarrow> (pm_response \<Rightarrow> 'w \<Rightarrow> 'w) \<Rightarrow> ('w, 'm) mb \<Rightarrow> ('w, 'm) mb option" where
  "mb_installPmHandler setupPmUrcs pmHandler s = do {
     (ok, s) \<leftarrow> setupPmUrcs s;
     Some (if ok then s\<lparr>mb_pmHandler := Some pmHandler\<rparr> else s)
   }"

definition mb_setupPmUrcs :: "('w, 'm) mb \<Rightarrow> (bool \<times> ('w, 'm) mb) option" where
  "mb_setupPmUrcs s = Some (False, s)"

text \<open>A field of a report is copied with its terminating zero.\<close>

definition copy_field :: "byte list \<Rightarrow> nat \<Rightarrow> nstring \<Rightarrow> byte list option" where
  "copy_field dest len t = Option.bind (st_copy (Some dest) len t) snd"

definition cereg_of :: "nstring useq \<Rightarrow> cereg_response \<Rightarrow> cereg_response option" where
  "cereg_of list r = do {
     stat \<leftarrow> c_atoi (text_of (sq_at 0 list));
     tac \<leftarrow> copy_field (cr_tac r) cuTacLen (sq_at 1 list);
     ci \<leftarrow> copy_field (cr_ci r) cuCiLen (sq_at 2 list);
     act \<leftarrow> c_atoi (text_of (sq_at 3 list));
     causeType \<leftarrow> c_atoi (text_of (sq_at 4 list));
     rejectCause \<leftarrow> c_atoi (text_of (sq_at 5 list));
     activeTime \<leftarrow> copy_field (cr_activeTime r) cuActiveTimeLen (sq_at 6 list);
     periodicTau \<leftarrow> copy_field (cr_periodicTau r) cuPeriodicTauLen (sq_at 7 list);
     Some \<lparr>cr_stat = stat, cr_tac = tac, cr_ci = ci, cr_act = act, cr_causeType = causeType, cr_rejectCause = rejectCause,
       cr_activeTime = activeTime, cr_periodicTau = periodicTau\<rparr>
   }"

definition mb_parseCeregUrc :: "byte list \<Rightarrow> ('w, 'm) mb \<Rightarrow> ('w, 'm) mb option" where
  "mb_parseCeregUrc strCeregUrc s =
     (case mb_ceregHandler s of
        None \<Rightarrow> Some s
      | Some handler \<Rightarrow> do {
          params \<leftarrow> behind_colon strCeregUrc;
          case params of
            None \<Rightarrow> Some s
          | Some params \<Rightarrow> do {
              list \<leftarrow> st_split_char 44 False (of_text params);
              if sq_count list = ceregParamCount
              then do {
                r \<leftarrow> cereg_of list (mb_ceregResponse s);
                Some (s\<lparr>mb_ceregResponse := r, se_env := handler r (se_env s)\<rparr>)
              }
              else Some s
            }
        })"

end
