(* ===== verification/AtRuns.thy ===== *)
theory AtRuns
  imports SerialRuns ModemBase Texts
begin

text \<open>
  A command and its answer: the bytes that are sent, the lines that are collected, and the response that the
  caller gets.
\<close>

subsection \<open>Sending\<close>

lemma write_text_all:
  assumes "se_putChar s = Some put"
  shows "write_text cs n s = (n + length cs, s\<lparr>se_env := fold put cs (se_env s)\<rparr>)"
  using assms by (induction cs arbitrary: n s) (simp_all add: write_char_def)

lemma sendCommand_all:
  assumes "se_putChar s = Some put"
  shows "sendCommand cmd s = (True, (clearError s)\<lparr>se_env := fold put cmd (se_env s)\<rparr>)"
  using assms write_text_all [of "clearError s" put] by (simp add: sendCommand_def clearError_def setError_def)

subsection \<open>Collecting lines\<close>

text \<open>Without filters the handlers do not matter.\<close>

definition quiet_uart :: "('w \<Rightarrow> ntime \<times> 'w) \<Rightarrow> ('w, 'm) uart" where
  "quiet_uart clock = \<lparr>ua_clock = clock, ua_handle = (\<lambda>_ _. Some)\<rparr>"

lemma quiet_clock [simp]: "ua_clock (quiet_uart clock) = clock"
  by (simp add: quiet_uart_def)

interpretation ql: line_handlers "quiet_uart clock" for clock
  by unfold_locales (simp_all add: quiet_uart_def)

text \<open>The modem's answer with the lines \<open>ls\<close>, on the wire and as it is collected.\<close>

definition answer_wire :: "byte list list \<Rightarrow> byte list" where
  "answer_wire ls = concat (map (\<lambda>l. [13, 10] @ l @ [13, 10]) ls)"

definition answer_text :: "byte list list \<Rightarrow> byte list" where
  "answer_text ls = concat (map (\<lambda>l. l @ [13, 10]) ls)"

definition answer_line :: "byte list \<Rightarrow> bool" where
  "answer_line l \<longleftrightarrow> l \<noteq> [] \<and> 0 \<notin> set l \<and> 10 \<notin> set l \<and> 13 \<notin> set l"

lemma readLine_next:
  fixes s :: "('w, 'm) serial_scheme"
  assumes "prompt_clock (quiet_uart clock :: ('w, 'm) uart) st clk" and "prompt_board st s" and "sq_items (se_filterList s) = []"
    and "0 < ms" and "ms < 65536" and "answer_line l" and "st (se_env s) = 13 # 10 # l @ 13 # 10 # rest"
  obtains w where "readLine (quiet_uart clock) [] ms Simple s = Some (length l, l, s\<lparr>se_env := w\<rparr>)" and "st w = rest"
proof -
  have "sq_index (uf_matches l) (se_filterList s) < 0" using assms(3) by (simp add: sq_index_def sq_indexOf_def)
  then have "line_scan (quiet_uart clock) (st (se_env s)) ([], 0, line_data) s = Some ((l, length l, s), rest)"
    using assms(6) ql.scan_line [of l s clock rest] by (simp only: assms(7) ql.scan_blank) (simp add: answer_line_def ql.plain_def)
  then have "line_scan (quiet_uart clock) (st (se_env s)) ([], 0, if Simple = Simple then line_data else line_empty) s
      = Some ((l, length l, s), rest)" by simp
  from ql.readLine_scan [OF assms(1,2,4,5) this] that show thesis by auto
qed

lemma copy_loop_lines:
  fixes s :: "('w, 'm) atc"
  assumes "prompt_clock (quiet_uart clock :: ('w, 'm atcmd_ext) uart) st clk"
    and "list_all (\<lambda>l. answer_line l \<and> l \<noteq> okReply \<and> l \<noteq> errReply) ls" and "answer_line final" and "final = okReply \<or> final = errReply"
    and "prompt_board st s" and "sq_items (se_filterList s) = []" and "timer_left clk t"
    and "st (se_env s) = answer_wire (ls @ [final]) @ rest"
  shows "\<exists>w. copy_loop (quiet_uart clock) t r s = Some (True, s\<lparr>at_response := at_response s @ answer_text (ls @ [final]), se_env := w\<rparr>) \<and> st w = rest"
  using assms(2,5-8)
proof (induction ls arbitrary: s t r)
  case Nil
  obtain w1 where w1: "se_remaining (quiet_uart clock) t s = (tm_remaining clk t, s\<lparr>se_env := w1\<rparr>)" "st w1 = st (se_env s)"
    by (rule se_remaining_prompt [OF assms(1)])
  have t: "0 < tm_remaining clk t" "tm_remaining clk t < 65536" using Nil.prems(4) by (simp_all add: timer_left_def)
  have "prompt_board st (s\<lparr>se_env := w1\<rparr>)" "sq_items (se_filterList (s\<lparr>se_env := w1\<rparr>)) = []"
    "st (se_env (s\<lparr>se_env := w1\<rparr>)) = 13 # 10 # final @ 13 # 10 # rest"
    using Nil.prems w1(2) by (simp_all add: answer_wire_def)
  from readLine_next [OF assms(1) this(1,2) t assms(3) this(3)] obtain w2 where
    w2: "readLine (quiet_uart clock) [] (tm_remaining clk t) Simple (s\<lparr>se_env := w1\<rparr>) = Some (length final, final, s\<lparr>se_env := w2\<rparr>)"
    "st w2 = rest" by auto
  have "0 < length final" using assms(3) by (simp add: answer_line_def)
  then show ?case using w1(1) w2 t assms(4)
    by (subst copy_loop.simps) (cases s, simp add: answer_text_def)
next
  case (Cons l ls)
  obtain w1 where w1: "se_remaining (quiet_uart clock) t s = (tm_remaining clk t, s\<lparr>se_env := w1\<rparr>)" "st w1 = st (se_env s)"
    by (rule se_remaining_prompt [OF assms(1)])
  have t: "0 < tm_remaining clk t" "tm_remaining clk t < 65536" using Cons.prems(4) by (simp_all add: timer_left_def)
  have l: "answer_line l" "l \<noteq> okReply" "l \<noteq> errReply" "0 < length l" using Cons.prems(1) by (simp_all add: answer_line_def)
  have "prompt_board st (s\<lparr>se_env := w1\<rparr>)" "sq_items (se_filterList (s\<lparr>se_env := w1\<rparr>)) = []"
    "st (se_env (s\<lparr>se_env := w1\<rparr>)) = 13 # 10 # l @ 13 # 10 # answer_wire (ls @ [final]) @ rest"
    using Cons.prems w1(2) by (simp_all add: answer_wire_def)
  from readLine_next [OF assms(1) this(1,2) t l(1) this(3)] obtain w2 where
    w2: "readLine (quiet_uart clock) [] (tm_remaining clk t) Simple (s\<lparr>se_env := w1\<rparr>) = Some (length l, l, s\<lparr>se_env := w2\<rparr>)"
    "st w2 = answer_wire (ls @ [final]) @ rest" by auto
  define s2 where "s2 = s\<lparr>at_response := at_response s @ l @ [13, 10], se_env := w2\<rparr>"
  obtain w3 where w3: "board_call clock s2 = (clk, s2\<lparr>se_env := w3\<rparr>)" "st w3 = st w2"
    using assms(1) by (intro that [of "snd (clock w2)"]) (simp_all add: prompt_clock_def board_call_def split_def s2_def Let_def)
  let ?t = "tm_start_for clk at_oneSecond (tm_clear t)"
  have "?t = tm_start_for clk 1000 tm_new" by (simp add: tm_start_for_def tm_clear_def tm_new_def at_oneSecond_def)
  then have t': "timer_left clk ?t" using assms(1) timer_left_start(1) [of clk 1000] by (simp add: prompt_clock_def)
  obtain w4 where w4: "se_remaining (quiet_uart clock) ?t (s2\<lparr>se_env := w3\<rparr>) = (tm_remaining clk ?t, s2\<lparr>se_env := w3\<rparr>\<lparr>se_env := w4\<rparr>)" "st w4 = st (se_env (s2\<lparr>se_env := w3\<rparr>))"
    by (rule se_remaining_prompt [OF assms(1)])
  have "copy_loop (quiet_uart clock) t r s = copy_loop (quiet_uart clock) ?t True (s2\<lparr>se_env := w4\<rparr>)"
    using w1(1) w2(1) w3(1) w4(1) t t' l by (subst copy_loop.simps) (cases s, simp add: s2_def timer_left_def)
  moreover have "prompt_board st (s2\<lparr>se_env := w4\<rparr>)" "sq_items (se_filterList (s2\<lparr>se_env := w4\<rparr>)) = []"
    "st (se_env (s2\<lparr>se_env := w4\<rparr>)) = answer_wire (ls @ [final]) @ rest"
    using Cons.prems(2,3) w2(2) w3(2) w4(2) by (simp_all add: s2_def prompt_board_def)
  ultimately obtain w where "copy_loop (quiet_uart clock) t r s
      = Some (True, s2\<lparr>se_env := w4, at_response := at_response (s2\<lparr>se_env := w4\<rparr>) @ answer_text (ls @ [final]), se_env := w\<rparr>)" "st w = rest"
    using Cons.IH [of "s2\<lparr>se_env := w4\<rparr>" ?t True] Cons.prems(1) t' by auto
  then show ?case by (intro exI [of _ w]) (cases s, simp add: s2_def answer_text_def)
qed

subsection \<open>The command\<close>


text \<open>A modem that has its answer ready, for the witness.\<close>

definition still_clock :: "byte list \<Rightarrow> ntime \<times> byte list" where
  "still_clock w = (\<lparr>nt_millis = 0, nt_timestamp = 0, nt_ticksPerMs = 1, nt_msPerTick = 1, nt_ticksCurrent = 0, nt_tickLock = False\<rparr>, w)"

definition ready_modem :: "byte list \<Rightarrow> byte list mbase" where
  "ready_modem w = (mbase_new w)
     \<lparr>se_readStatus := Some (\<lambda>w. (if w = [] then 0 else rx_avail, w)), se_readByte := Some (\<lambda>w. (if w = [] then 0 else hd w, tl w)),
      se_putChar := Some (\<lambda>_ w. w)\<rparr>"

lemma ready_modem_facts:
  "prompt_clock (quiet_uart still_clock) id (fst (still_clock []))" "prompt_board id (ready_modem w)"
  "se_putChar (ready_modem w) = Some (\<lambda>_ w. w)" "sq_items (se_filterList (ready_modem w)) = []" "se_env (ready_modem w) = w"
  by (auto simp: prompt_clock_def still_clock_def nt_getMillis_def ready_modem_def mbase_new_def serial_new_def serial.defs prompt_board_def)


end
