(* ===== verification/Datagrams.thy ===== *)
theory Datagrams
  imports NetworkRuns AtRuns
begin

text \<open>
  The properties of the datagrams of a socket: they arrive between the lines of an answer, they wait in
  the ring buffer, and \<open>read\<close> takes them. Each is a sequence of calls of the definitions of the theory
  Network, on the serial port of the theory SerialPort.
\<close>

subsection \<open>Datagrams before an answer\<close>

text \<open>The socket \<open>n\<close> as \<open>connect\<close> leaves it: its filter is the only one.\<close>

definition own_socket :: "nat \<Rightarrow> ('w, 'm) net \<Rightarrow> bool" where
  "own_socket n s \<longleftrightarrow> n < 7 \<and> nt_connectionNumber s = int n
     \<and> sq_items (se_filterList s) = [\<lparr>uf_urc = respNSONMI (int n), uf_handler = Some 0\<rparr>]
     \<and> cb_inv (nt_buffer s) \<and> max_size (nt_buffer s) = nt_bufSize"

text \<open>What is on the wire for the datagrams \<open>ds\<close>, and the count that they leave.\<close>

definition datagrams :: "nat \<Rightarrow> byte list list \<Rightarrow> byte list" where
  "datagrams n ds = concat (map (\<lambda>d. datagram_line (int n) d @ [13, 10, 13, 10]) ds)"

definition count_after :: "byte list list \<Rightarrow> u32 \<Rightarrow> u32" where
  "count_after ds c = (if ds = [] then c else of_nat (length (last ds)))"

lemma datagram_plain: "nl.plain (datagram_line (int n) d)"
proof -
  have "list_all (\<lambda>x. x \<noteq> 0 \<and> x \<noteq> 10 \<and> x \<noteq> 13) (dec_digits k)" "list_all (\<lambda>x. x \<noteq> 0 \<and> x \<noteq> 10 \<and> x \<noteq> 13) (concat (map hex_of d))" for k
    using fieldchar_dec(1) [of k] fieldchar_hex [of d] by (auto simp: list_all_iff fieldchar_def)
  then show ?thesis
    by (auto simp: nl.plain_def datagram_line_def respNSONMI_def c_dec_def ascii_def list_all_iff)
qed

lemma datagram_ne: "datagram_line n d \<noteq> []"
  by (simp add: datagram_line_def)

lemma is_prefix_append: "is_prefix p (p @ xs)"
  by (induction p) auto

lemma uf_matches_iff:
  assumes "0 \<notin> set p" and "0 \<notin> set xs"
  shows "uf_matches xs \<lparr>uf_urc = p, uf_handler = h\<rparr> \<longleftrightarrow> is_prefix p xs"
proof -
  have "search_sub p xs = Some 0 \<longleftrightarrow> is_prefix p xs" by (cases xs) (auto, cases p, auto)
  moreover have "search_sub p xs \<noteq> Some i" if "npos = i" "i = 0" for i using that by (simp add: npos_def size_t_mod_def)
  ultimately show ?thesis using assms st_find_rep [OF of_text_block assms(2), of "p @ [0]" p]
    by (auto simp: uf_matches_def cstr_text npos_def size_t_mod_def split: option.splits)
qed

lemma uf_matches_datagram: "uf_matches (datagram_line (int n) d) \<lparr>uf_urc = respNSONMI (int n), uf_handler = h\<rparr>"
proof -
  have "0 \<notin> set (datagram_line (int n) d)" using datagram_plain by (simp add: nl.plain_def)
  then show ?thesis by (subst uf_matches_iff) (auto simp: datagram_line_def is_prefix_append)
qed

lemma own_socket_filter:
  assumes "own_socket n s"
  shows "sq_index (uf_matches (datagram_line (int n) d)) (se_filterList s) = 0"
    and "uf_handler (sq_at 0 (se_filterList s)) = Some 0"
  using assms uf_matches_datagram
  by (simp_all add: own_socket_def sq_index_def sq_indexOf_def sq_at_def sq_valid_def)

text \<open>The lines of the modem's answer \<open>OK\<close> pass the filter.\<close>

lemma ok_not_filtered:
  assumes "own_socket n s"
  shows "sq_index (uf_matches okReply) (se_filterList s) < 0"
proof -
  have "0 \<notin> set (respNSONMI (int n))"
    using datagram_plain [of n "[]"] by (simp add: nl.plain_def datagram_line_def)
  then show ?thesis using assms
    by (simp add: own_socket_def sq_index_def sq_indexOf_def okReply_def ascii_def uf_matches_iff) (simp add: respNSONMI_def ascii_def)
qed

text \<open>Any number of datagrams.\<close>

lemma scan_datagrams:
  assumes "own_socket n s" and "list_all (\<lambda>d. d \<noteq> []) ds" and "cb_size (nt_buffer s) + length (concat ds) \<le> nt_bufSize"
  shows "\<exists>b. line_scan (net_uart clock) (datagrams n ds @ xs) ([], 0, line_data) s
      = line_scan (net_uart clock) xs ([], 0, line_data) (s\<lparr>nt_bytesAvail := count_after ds (nt_bytesAvail s), nt_buffer := b\<rparr>)
    \<and> cb_inv b \<and> max_size b = nt_bufSize \<and> cb_contents b = cb_contents (nt_buffer s) @ concat ds"
  using assms
proof (induction ds arbitrary: s)
  case Nil
  have "s = s\<lparr>nt_bytesAvail := nt_bytesAvail s, nt_buffer := nt_buffer s\<rparr>" by (cases s) simp
  then show ?case using Nil
    by (intro exI [of _ "nt_buffer s"]) (simp add: datagrams_def count_after_def own_socket_def)
next
  case (Cons d ds)
  let ?l = "datagram_line (int n) d"
  have d: "nt_connectionNumber s = int n" "n < 7" "cb_inv (nt_buffer s)" "d \<noteq> []"
    "cb_size (nt_buffer s) + length d \<le> max_size (nt_buffer s)" "max_size (nt_buffer s) = nt_bufSize"
    using Cons.prems by (auto simp: own_socket_def)
  from parse_datagram [OF this] obtain b1 where b1:
    "parseFilterResult ?l s = Some (s\<lparr>nt_bytesAvail := of_nat (length d), nt_buffer := b1\<rparr>)"
    "cb_inv b1" "max_size b1 = nt_bufSize" "cb_contents b1 = cb_contents (nt_buffer s) @ d" .
  let ?s1 = "s\<lparr>nt_bytesAvail := of_nat (length d), nt_buffer := b1\<rparr>"
  note f = own_socket_filter [OF Cons.prems(1)]
  have call: "uf_call (net_uart clock) (sq_at (sq_index (uf_matches ?l) (se_filterList s)) (se_filterList s)) ?l s = Some ?s1"
    using f b1(1) by (simp add: uf_call_def net_uart_def)
  have "line_scan (net_uart clock) (datagrams n (d # ds) @ xs) ([], 0, line_data) s
      = line_scan (net_uart clock) (?l @ 13 # 10 # 13 # 10 # datagrams n ds @ xs) ([], 0, line_data) s"
    by (simp add: datagrams_def)
  also have "\<dots> = line_scan (net_uart clock) (13 # 10 # datagrams n ds @ xs) ([], 0, line_data) ?s1"
    using f by (intro nl.scan_urc datagram_plain datagram_ne call) simp
  also have "\<dots> = line_scan (net_uart clock) (datagrams n ds @ xs) ([], 0, line_data) ?s1"
    by (rule nl.scan_blank)
  finally have step: "line_scan (net_uart clock) (datagrams n (d # ds) @ xs) ([], 0, line_data) s = \<dots>" .
  have size: "cb_size b1 = cb_size (nt_buffer s) + length d" using b1(4) length_cb_contents by (metis length_append)
  have "own_socket n ?s1" using Cons.prems(1) b1(2,3) by (simp add: own_socket_def)
  moreover have "list_all (\<lambda>d. d \<noteq> []) ds" "cb_size (nt_buffer ?s1) + length (concat ds) \<le> nt_bufSize"
    using Cons.prems(2,3) size by simp_all
  ultimately obtain b where b: "line_scan (net_uart clock) (datagrams n ds @ xs) ([], 0, line_data) ?s1
      = line_scan (net_uart clock) xs ([], 0, line_data) (?s1\<lparr>nt_bytesAvail := count_after ds (nt_bytesAvail ?s1), nt_buffer := b\<rparr>)"
    "cb_inv b" "max_size b = nt_bufSize" "cb_contents b = cb_contents b1 @ concat ds"
    using Cons.IH [of ?s1] by auto
  show ?case using step b b1(4) by (intro exI [of _ b]) (simp add: count_after_def)
qed


subsection \<open>Reading\<close>

lemma copy_all:
  assumes "xs \<noteq> []"
  shows "st_copy (Some buffer) (length xs) (of_text xs)
    = (if length buffer \<le> length xs then None else Some (length xs, Some (xs @ 0 # drop (Suc (length xs)) buffer)))"
  using st_copy_rep [OF st_block_rep [OF of_text_block] assms, of "length xs" buffer] assms by (simp add: put_field_def)

text \<open>What the loop takes is copied to the caller.\<close>

lemma net_read_takes:
  assumes "short_wait U ms s" and "0 < ipAvailable s" and "0 < n"
  obtains w where "\<And>data s'. take_bytes n [] (s\<lparr>se_env := w\<rparr>) = Some (data, s') \<Longrightarrow> length data = n \<Longrightarrow>
    net_read U buffer (int n) ms s = (if length buffer \<le> n then None else Some (int n, Some (data @ 0 # drop (Suc n) buffer), s'))"
proof -
  have "0 \<le> int n" by simp
  from net_read_short [OF assms(1) this, of buffer] obtain w where w: "net_read U buffer (int n) ms s = do {
      (rc, data, s) \<leftarrow> (if 0 < ipAvailable s \<and> 0 < int n
        then map_option (\<lambda>(data, s). (int n, data, s)) (take_bytes (nat (int n)) [] (s\<lparr>se_env := w\<rparr>))
        else Some (0, [], s\<lparr>se_env := w\<rparr>));
      buffer \<leftarrow> (if 0 < rc then map_option snd (st_copy (Some buffer) (nat rc) (of_text data)) else Some (Some buffer));
      Some (rc, buffer, s)
    }" .
  show thesis
  proof (rule that [of w])
    fix data s'
    assume t: "take_bytes n [] (s\<lparr>se_env := w\<rparr>) = Some (data, s')" "length data = n"
    then have "data \<noteq> []" using assms(3) by auto
    from copy_all [OF this, of buffer] t(2)
    have "st_copy (Some buffer) n (of_text data) = (if length buffer \<le> n then None else Some (n, Some (data @ 0 # drop (Suc n) buffer)))"
      by simp
    then show "net_read U buffer (int n) ms s = (if length buffer \<le> n then None else Some (int n, Some (data @ 0 # drop (Suc n) buffer), s'))"
      using w assms(2,3) t(1) by simp
  qed
qed

lemma read_oldest:
  assumes "short_wait U ms s" and "cb_inv (nt_buffer s)" and "0 < ipAvailable s" and "0 < n" and "n \<le> cb_size (nt_buffer s)"
  shows "\<exists>b w. net_read U buffer (int n) ms s
      = (if length buffer \<le> n then None
         else Some (int n, Some (take n (cb_contents (nt_buffer s)) @ 0 # drop (Suc n) buffer),
           s\<lparr>se_env := w, nt_bytesAvail := nt_bytesAvail s - of_nat n, nt_buffer := b\<rparr>))
    \<and> cb_contents b = drop n (cb_contents (nt_buffer s)) \<and> cb_inv b"
proof -
  obtain w where w: "\<And>data s'. take_bytes n [] (s\<lparr>se_env := w\<rparr>) = Some (data, s') \<Longrightarrow> length data = n \<Longrightarrow>
    net_read U buffer (int n) ms s = (if length buffer \<le> n then None else Some (int n, Some (data @ 0 # drop (Suc n) buffer), s'))"
    using net_read_takes [OF assms(1,3,4)] by blast
  obtain b where "take_bytes n [] (s\<lparr>se_env := w\<rparr>) = Some (take n (cb_contents (nt_buffer s)),
      s\<lparr>se_env := w, nt_bytesAvail := nt_bytesAvail s - of_nat n, nt_buffer := b\<rparr>)"
    and b: "cb_inv b" "cb_contents b = drop n (cb_contents (nt_buffer s))"
    using take_bytes_fifo [of "s\<lparr>se_env := w\<rparr>" n "[]"] assms(2,5) by auto
  from w [OF this(1)] show ?thesis using assms(5) b by auto
qed


lemma ipAvailable_mod: "ipAvailable s = uint (nt_bytesAvail s) mod 65536"
proof -
  have "uint (and (nt_bytesAvail s) byteCountMask) = and (uint (nt_bytesAvail s)) (mask 16)"
    by (simp add: byteCountMask_def unsigned_and_eq mask_eq_exp_minus_1)
  also have "\<dots> = uint (nt_bytesAvail s) mod 65536"
    by (simp only: take_bit_eq_mask [symmetric] take_bit_eq_mod) simp
  finally show ?thesis by (simp only: ipAvailable_def)
qed

lemma ipAvailable_below_zero:
  assumes "0 < m" and "m < 65536" and "nt_bytesAvail s = - of_nat m"
  shows "ipAvailable s = 65536 - int m"
proof -
  have "uint (- of_nat m :: u32) = (- uint (of_nat m :: u32)) mod 4294967296" by (simp add: uint_word_ariths)
  also have "uint (of_nat m :: u32) = int m" using assms(2) by (simp add: unsigned_of_nat take_bit_nat_eq_self)
  finally have "ipAvailable s = (- int m) mod 4294967296 mod 65536" using assms(3) by (simp add: ipAvailable_mod)
  also have "\<dots> = (- int m) mod 65536" by (rule mod_mod_cancel) simp
  also have "\<dots> = (65536 - int m) mod 65536" by (metis diff_0 minus_mod_self1 mod_diff_left_eq)
  also have "\<dots> = 65536 - int m" using assms by (intro mod_pos_pos_trivial) simp_all
  finally show ?thesis .
qed


subsection \<open>Two datagrams\<close>

lemma short_wait_data: "short_wait U ms (s\<lparr>nt_bytesAvail := c, nt_buffer := b\<rparr>) = short_wait U ms s"
  by (cases s) (simp add: short_wait_def se_Timer_def se_remaining_def board_call_def split_def Let_def)

lemma ipAvailable_small:
  assumes "nt_bytesAvail s = of_nat k" and "k < 65536"
  shows "ipAvailable s = int k"
  using assms by (simp add: ipAvailable_mod unsigned_of_nat take_bit_nat_eq_self)

text \<open>
  C20: A datagram that comes before the previous one is read replaces the count instead of adding to it. A reader
  that takes what \<open>ipAvailable\<close> reports gets the beginning of the two, and then nothing is reported although
  the rest is still in the ring buffer.
\<close>

theorem second_datagram_hides_first:
  assumes "own_socket n s" and "cb_size (nt_buffer s) = 0" and "d1 \<noteq> []" and "d2 \<noteq> []" and "length (d1 @ d2) \<le> nt_bufSize"
    and "short_wait U ms s" and "length d2 < length buffer"
  shows "\<exists>s' s''. Option.bind (parseFilterResult (datagram_line (int n) d1) s) (parseFilterResult (datagram_line (int n) d2)) = Some s'
    \<and> cb_contents (nt_buffer s') = d1 @ d2 \<and> ipAvailable s' = int (length d2)
    \<and> net_read U buffer (ipAvailable s') ms s'
        = Some (int (length d2), Some (take (length d2) (d1 @ d2) @ 0 # drop (Suc (length d2)) buffer), s'')
    \<and> ipAvailable s'' = 0 \<and> cb_size (nt_buffer s'') = length d1"
proof -
  have s: "nt_connectionNumber s = int n" "n < 7" "cb_inv (nt_buffer s)" "max_size (nt_buffer s) = nt_bufSize"
    using assms(1) by (simp_all add: own_socket_def)
  have empty: "cb_contents (nt_buffer s) = []" using assms(2) length_cb_contents by (metis length_0_conv)
  have fits1: "cb_size (nt_buffer s) + length d1 \<le> max_size (nt_buffer s)" using assms(2,5) s(4) by simp
  obtain b1 where b1: "parseFilterResult (datagram_line (int n) d1) s = Some (s\<lparr>nt_bytesAvail := of_nat (length d1), nt_buffer := b1\<rparr>)"
    "cb_inv b1" "max_size b1 = nt_bufSize" "cb_contents b1 = cb_contents (nt_buffer s) @ d1"
    by (rule parse_datagram [OF s(1-3) assms(3) fits1 s(4)])
  define s1 where "s1 = s\<lparr>nt_bytesAvail := of_nat (length d1), nt_buffer := b1\<rparr>"
  have s1: "nt_connectionNumber s1 = int n" "cb_inv (nt_buffer s1)" "max_size (nt_buffer s1) = nt_bufSize" "cb_contents (nt_buffer s1) = d1"
    using s b1 empty by (simp_all add: s1_def)
  have fits: "cb_size (nt_buffer s1) + length d2 \<le> max_size (nt_buffer s1)"
    using s1(3,4) length_cb_contents [of "nt_buffer s1"] assms(5) by simp
  obtain b2 where b2: "parseFilterResult (datagram_line (int n) d2) s1 = Some (s1\<lparr>nt_bytesAvail := of_nat (length d2), nt_buffer := b2\<rparr>)"
    "cb_inv b2" "max_size b2 = nt_bufSize" "cb_contents b2 = d1 @ d2"
    by (rule parse_datagram [OF s1(1) s(2) s1(2) assms(4) fits s1(3), unfolded s1(4)])
  define s2 where "s2 = s1\<lparr>nt_bytesAvail := of_nat (length d2), nt_buffer := b2\<rparr>"
  have d2: "length d2 < 65536" using assms(5) by (simp add: nt_bufSize_def)
  have avail: "ipAvailable s2 = int (length d2)" by (rule ipAvailable_small [OF _ d2]) (simp add: s2_def)
  have size: "cb_size b2 = length d1 + length d2" using b2(4) length_cb_contents by (metis length_append)
  have "short_wait U ms s2" "cb_inv (nt_buffer s2)" "0 < ipAvailable s2" "0 < length d2" "length d2 \<le> cb_size (nt_buffer s2)"
    using assms(4,6) b2(2) avail size by (simp_all add: s1_def s2_def short_wait_data)
  from read_oldest [OF this, of buffer] obtain b w where r: "net_read U buffer (int (length d2)) ms s2
      = (if length buffer \<le> length d2 then None
         else Some (int (length d2), Some (take (length d2) (cb_contents (nt_buffer s2)) @ 0 # drop (Suc (length d2)) buffer),
           s2\<lparr>se_env := w, nt_bytesAvail := nt_bytesAvail s2 - of_nat (length d2), nt_buffer := b\<rparr>))"
    "cb_contents b = drop (length d2) (cb_contents (nt_buffer s2))"
    by blast
  have left: "cb_size b = length d1" using r(2) b2(4) length_cb_contents [of b] by (simp add: s2_def)
  have "ipAvailable (s2\<lparr>se_env := w, nt_bytesAvail := nt_bytesAvail s2 - of_nat (length d2), nt_buffer := b\<rparr>) = 0"
    by (simp add: ipAvailable_mod s2_def)
  moreover have "net_read U buffer (ipAvailable s2) ms s2
      = Some (int (length d2), Some (take (length d2) (d1 @ d2) @ 0 # drop (Suc (length d2)) buffer),
           s2\<lparr>se_env := w, nt_bytesAvail := nt_bytesAvail s2 - of_nat (length d2), nt_buffer := b\<rparr>)"
    using r(1) avail assms(7) b2(4) by (simp add: s2_def)
  ultimately show ?thesis using b1(1) b2(1,4) avail left
    by (intro exI [of _ s2] exI [of _ "s2\<lparr>se_env := w, nt_bytesAvail := nt_bytesAvail s2 - of_nat (length d2), nt_buffer := b\<rparr>"])
      (simp add: s1_def [symmetric] s2_def [symmetric], simp add: s2_def)
qed

subsection \<open>Writing\<close>

text \<open>
  C23: A datagram is sent as one command with its bytes in hexadecimal digits. The head of the command is
  formatted in a block of 80 bytes, and if it does not fit only the digits are sent: with a long host name the
  modem gets no command at all.
\<close>

theorem write_sends_command:
  assumes "se_putChar s = Some put" and "nt_hostname s \<noteq> []" and "0 < nt_port s" and "len \<le> length buffer" and "len < 2147483648"
  shows "net_write U buffer len timeout s
    = (let head = cmdNSOST (nt_connectionNumber s) (nt_hostname s) (uint (nt_port s)) (int len);
           sent = (if length head < 80 then head else []) @ concat (map hex_of (take len buffer)) @ [13]
       in do {
         (ret, s) \<leftarrow> readResponse U REPLY_ANY timeout ((clearError s)\<lparr>se_env := fold put sent (se_env s)\<rparr>);
         ignore_rest U ret s
       })"
proof -
  let ?head = "cmdNSOST (nt_connectionNumber s) (nt_hostname s) (uint (nt_port s)) (int len)"
  obtain t where t: "st_of (Some buffer) len = Some t" "st_block t (take len buffer)"
    using st_of_rep [of len buffer] assms(4,5) by (auto simp: npos_def size_t_mod_def)
  obtain h where h: "st_toHex t = Some h" "st_block h (concat (map hex_of (take len buffer)))"
    using st_toHex_rep [OF st_block_rep [OF t(2)]] by auto
  have "to_int (int len) = int len" using assms(5) by (simp add: to_int_def)
  moreover have "st_Printf ?head = (if length ?head < 80 then ?head else [])"
    by (simp add: st_Printf_def PRINTF_BUFFER_SIZE_def cmdNSOST_def ascii_def)
  ultimately show ?thesis
    using t(1) h(1) text_of_rep [OF st_block_rep [OF h(2)]] assms(2,3) sendCommand_all [OF assms(1)]
    by (simp add: net_write_def sendCommand_cstr_def Let_def)
qed

subsection \<open>A board\<close>

text \<open>The bytes of the UART are a list, and the time stands still: the socket 3 for the witnesses.\<close>

definition wire_clock :: "byte list \<Rightarrow> ntime \<times> byte list" where
  "wire_clock w = (\<lparr>nt_millis = 0, nt_timestamp = 0, nt_ticksPerMs = 1, nt_msPerTick = 1, nt_ticksCurrent = 0, nt_tickLock = False\<rparr>, w)"

definition wire_socket :: "byte list \<Rightarrow> byte list network" where
  "wire_socket w = (network_new w)
     \<lparr>se_readStatus := Some (\<lambda>w. (if w = [] then 0 else rx_avail, w)), se_readByte := Some (\<lambda>w. (if w = [] then 0 else hd w, tl w)),
      se_filterList := \<lparr>sq_items = [\<lparr>uf_urc = respNSONMI (int 3), uf_handler = Some 0\<rparr>], sq_invalid = \<lparr>uf_urc = [], uf_handler = None\<rparr>\<rparr>,
      nt_connectionNumber := 3\<rparr>"

lemma wire_clock_prompt: "prompt_clock (net_uart wire_clock) id (fst (wire_clock []))"
  by (simp add: prompt_clock_def net_uart_def wire_clock_def nt_getMillis_def)

lemma wire_socket_facts:
  "prompt_board id (wire_socket w)" "own_socket 3 (wire_socket w)" "se_env (wire_socket w) = w"
  "cb_size (nt_buffer (wire_socket w)) = 0" "cb_contents (nt_buffer (wire_socket w)) = []" "nt_bytesAvail (wire_socket w) = 0"
  by (auto simp: wire_socket_def network_new_def serial_new_def serial.defs prompt_board_def own_socket_def cb_inv_def cb_size_def
      cb_contents_def nt_bufSize_def)

lemma wire_short_wait: "short_wait (net_uart wire_clock) 100 s"
  by (simp add: short_wait_def se_Timer_def se_remaining_def board_call_def net_uart_def wire_clock_def nt_getMillis_def tm_start_for_def
      tm_remaining_def to_ulong_def ulong_mod_def tm_new_def nt_readInterval_def split_def Let_def)



definition wire_filled :: "byte list network" where
  "wire_filled = (wire_socket [])\<lparr>nt_bytesAvail := 2, nt_buffer := \<lparr>m_buffer = [5, 6, 0, 0], m_head = 2, m_tail = 0, m_full = False\<rparr>\<rparr>"

lemma wire_filled_facts:
  "cb_inv (nt_buffer wire_filled)" "cb_size (nt_buffer wire_filled) = 2" "cb_contents (nt_buffer wire_filled) = [5, 6]"
  "nt_bytesAvail wire_filled = 2" "ipAvailable wire_filled = 2"
  by (simp_all add: wire_filled_def cb_inv_def cb_size_def cb_contents_def ipAvailable_mod upt_rec)



lemma second_datagram_hides_first_witness:
  "\<exists>s' s''. Option.bind (parseFilterResult (datagram_line (int 3) [1, 2]) (wire_socket [])) (parseFilterResult (datagram_line (int 3) [9])) = Some s'
    \<and> cb_contents (nt_buffer s') = [1, 2] @ [9] \<and> ipAvailable s' = int (length [9 :: byte])
    \<and> net_read (net_uart wire_clock) [0, 0] (ipAvailable s') 100 s' = Some (int (length [9 :: byte]), Some [1, 0], s'')
    \<and> ipAvailable s'' = 0 \<and> cb_size (nt_buffer s'') = length [1, 2 :: byte]"
proof -
  have e: "take (length [9 :: byte]) ([1, 2] @ [9]) @ 0 # drop (Suc (length [9 :: byte])) [0, 0] = [1, 0 :: byte]" by simp
  show ?thesis
    by (rule second_datagram_hides_first [OF wire_socket_facts(2) [of "[]"] wire_socket_facts(4) [of "[]"] _ _ _ wire_short_wait, where buffer = "[0, 0]"
          and ?d1.0 = "[1, 2]" and ?d2.0 = "[9]", unfolded e]) (simp_all add: nt_bufSize_def)
qed

definition far_socket :: "byte list network" where
  "far_socket = (wire_socket [])\<lparr>se_putChar := Some (\<lambda>c w. w @ [c]), nt_hostname := replicate 70 97, nt_port := 5\<rparr>"

lemma write_sends_command_witness:
  "net_write (net_uart wire_clock) [0x41] 1 500 far_socket
    = do {
        (ret, s) \<leftarrow> readResponse (net_uart wire_clock) REPLY_ANY 500 ((clearError far_socket)\<lparr>se_env := [52, 49, 13]\<rparr>);
        ignore_rest (net_uart wire_clock) ret s
      }"
proof -
  have f: "se_putChar far_socket = Some (\<lambda>c w. w @ [c])" "nt_hostname far_socket = replicate 70 97" "nt_port far_socket = 5"
    "se_env far_socket = []"
    by (simp_all add: far_socket_def wire_socket_facts)
  have "\<not> length (cmdNSOST n (replicate 70 97) p l) < 80" for n p l by (simp add: cmdNSOST_def ascii_def)
  moreover have "concat (map hex_of (take 1 [0x41])) = [52, 49]" by code_simp
  ultimately show ?thesis
    using write_sends_command [OF f(1), of 1 "[0x41]" "net_uart wire_clock" 500] f(2-4) by (simp add: Let_def)
qed

end
