(* ===== verification/ModemDrivers.thy ===== *)
theory ModemDrivers
  imports ModemBase
begin

text \<open>
  The \<open>Modem\<close> classes of the boards: \<open>modem.cpp\<close> of the BC95, of the two SARA firmwares and of the BG96.
  \<open>MANUAL_CONTEXT\<close> is not defined.
\<close>

subsection \<open>BC95\<close>

definition cmdNSONMI3 :: "byte list" where "cmdNSONMI3 = ascii ''AT+NSONMI=3''"
definition cmdCEDRXS0 :: "byte list" where "cmdCEDRXS0 = ascii ''AT+CEDRXS=0,5''"
definition cmdNPSMR1 :: "byte list" where "cmdNPSMR1 = ascii ''AT+NPSMR=1''"
definition respNPSMR :: "byte list" where "respNPSMR = ascii ''+NPSMR:''"
definition cmdCSCON1 :: "byte list" where "cmdCSCON1 = ascii ''AT+CSCON=1''"
definition respCSCON :: "byte list" where "respCSCON = ascii ''+CSCON:''"
definition cmdQREGSWT2 :: "byte list" where "cmdQREGSWT2 = ascii ''AT+QREGSWT=2''"
definition cmdQREGSWTquery :: "byte list" where "cmdQREGSWTquery = ascii ''AT+QREGSWT?''"
definition respQREGSWTquery :: "byte list" where "respQREGSWTquery = ascii ''+QREGSWT:''"
definition cmdCOPS0 :: "byte list" where "cmdCOPS0 = ascii ''AT+COPS=0''"
definition QREGSWT2 :: int where "QREGSWT2 = 2"

definition bc_checkQRegSwt :: "('w, 'm) mb_uart \<Rightarrow> ('w, 'm) mb \<Rightarrow> (bool \<times> ('w, 'm) mb) option" where
  "bc_checkQRegSwt U s =
     (let (ok, s) = sendCommand_cstr cmdQREGSWTquery s
      in do {
        (ret, s) \<leftarrow>
          (if ok
           then do {
             (ok, s) \<leftarrow> readUntil U respQREGSWTquery md_tenSeconds False s;
             if ok
             then do {
               number \<leftarrow> behind_colon (at_response s);
               case number of
                 Some number \<Rightarrow> do { n \<leftarrow> c_atoi number; Some (QREGSWT2 = n, s) }
               | None \<Rightarrow> Some (False, s)
             }
             else Some (False, s)
           }
           else Some (False, s));
        ignore_rest U ret s
      })"

definition bc_setQRegSwt2 :: "('w, 'm) mb_uart \<Rightarrow> ('w, 'm) mb \<Rightarrow> (bool \<times> ('w, 'm) mb) option" where
  "bc_setQRegSwt2 U s = do {
     (ok, s) \<leftarrow> cmd_until U cmdQREGSWT2 okReply md_tenSeconds (True, s);
     ignore_rest U ok s
   }"

definition bc_reboot :: "('w, 'm) mb_uart \<Rightarrow> ('w, 'm) mb \<Rightarrow> (bool \<times> ('w, 'm) mb) option" where
  "bc_reboot U s = do {
     (set2, s) \<leftarrow> bc_checkQRegSwt U s;
     (ok, s) \<leftarrow> (if \<not> set2 then bc_setQRegSwt2 U s else Some (True, s));
     let (sent, s) = sendCommand_cstr cmdNRB s;
     (ok, s) \<leftarrow> (if sent \<and> ok then readUntil U okReply md_sixtyfiveSeconds False s else Some (False, s));
     ignore_rest U ok s
   }"

definition bc_initialize :: "('w, 'm) mb_uart \<Rightarrow> ('w, 'm) mb \<Rightarrow> (bool \<times> ('w, 'm) mb) option" where
  "bc_initialize U s = do {
     (ok, s) \<leftarrow> cmd_until U cmdCFUN1 okReply md_tenSeconds (True, s);
     (ok, s) \<leftarrow> ignore_rest U ok s;
     (ok, s) \<leftarrow> (if ok then map_option (\<lambda>(st, s). (st \<noteq> MODEM_OFF, s)) (mb_isModemOn U s) else Some (False, s));
     (ok, s) \<leftarrow> cmd_until U cmdNSONMI3 okReply md_tenSeconds (ok, s);
     (ok, s) \<leftarrow> cmd_until U cmdCEDRXS0 okReply md_tenSeconds (ok, s);
     ignore_rest U ok s
   }"

definition bc_attach :: "('w, 'm) mb_uart \<Rightarrow> ('w, 'm) mb \<Rightarrow> (bool \<times> ('w, 'm) mb) option" where
  "bc_attach U s =
     (let (ok, s) = sendCommand_cstr cmdCOPS0 s
      in do {
        (ok, s) \<leftarrow> (if ok then readResponse U REPLY_OK md_tenSeconds s else Some (False, s));
        ignore_rest U ok s
      })"

definition bc_setupPmUrcs :: "('w, 'm) mb_uart \<Rightarrow> ('w, 'm) mb \<Rightarrow> (bool \<times> ('w, 'm) mb) option" where
  "bc_setupPmUrcs U s = do {
     (ok, s) \<leftarrow> cmd_until U cmdNPSMR1 okReply md_tenSeconds (True, s);
     (ok, s) \<leftarrow> cmd_until U cmdCSCON1 okReply md_tenSeconds (ok, s);
     Some (ok, if ok then snd (addUrcFilter respCSCON 3 (snd (addUrcFilter respNPSMR 2 s))) else s)
   }"

definition bc_parseNpsmrUrc :: "byte list \<Rightarrow> ('w, 'm) mb \<Rightarrow> ('w, 'm) mb option" where
  "bc_parseNpsmrUrc strNpsmrUrc s =
     (case mb_pmHandler s of
        None \<Rightarrow> Some s
      | Some handler \<Rightarrow> do {
          number \<leftarrow> behind_colon strNpsmrUrc;
          case number of
            None \<Rightarrow> Some s
          | Some number \<Rightarrow> do {
              n \<leftarrow> c_atoi number;
              let r = (mb_pmResponse s)\<lparr>pr_psmStatus := (n \<noteq> 0), pr_changeFlag := CF_PSM\<rparr>;
              Some (s\<lparr>mb_pmResponse := r, se_env := handler r (se_env s)\<rparr>)
            }
        })"

definition bc_parseCsconUrc :: "byte list \<Rightarrow> ('w, 'm) mb \<Rightarrow> ('w, 'm) mb option" where
  "bc_parseCsconUrc strCsconUrc s =
     (case mb_pmHandler s of
        None \<Rightarrow> Some s
      | Some handler \<Rightarrow> do {
          number \<leftarrow> behind_colon strCsconUrc;
          case number of
            None \<Rightarrow> Some s
          | Some number \<Rightarrow> do {
              n \<leftarrow> c_atoi number;
              let r = (mb_pmResponse s)\<lparr>pr_conStatus := (n \<noteq> 0), pr_changeFlag := CF_CON\<rparr>;
              Some (s\<lparr>mb_pmResponse := r, se_env := handler r (se_env s)\<rparr>)
            }
        })"

text \<open>The handlers of the modem by their numbers; those of other objects on the serial port are a parameter.\<close>

definition modem_uart ::
  "('w \<Rightarrow> ntime \<times> 'w) \<Rightarrow> (nat \<Rightarrow> byte list \<Rightarrow> ('w, 'm) mb \<Rightarrow> ('w, 'm) mb option) \<Rightarrow> ('w, 'm) mb_uart" where
  "modem_uart clock others = \<lparr>ua_clock = clock, ua_handle = (\<lambda>h.
     if h = 1 then mb_parseCeregUrc else if h = 2 then bc_parseNpsmrUrc else if h = 3 then bc_parseCsconUrc else others h)\<rparr>"

subsection \<open>SARA\<close>

definition sara_reboot :: "('w, 'm) mb_uart \<Rightarrow> ('w, 'm) mb \<Rightarrow> (bool \<times> ('w, 'm) mb) option" where
  "sara_reboot U s = do {
     (ok, s) \<leftarrow> cmd_until U cmdNRB okReply md_sixtyfiveSeconds (True, s);
     ignore_rest U ok s
   }"

definition sara_initialize :: "('w, 'm) mb_uart \<Rightarrow> ('w, 'm) mb \<Rightarrow> (bool \<times> ('w, 'm) mb) option" where
  "sara_initialize U s = do {
     (ok, s) \<leftarrow> cmd_until U cmdCFUN1 okReply md_tenSeconds (True, s);
     (ok, s) \<leftarrow> ignore_rest U ok s;
     (ok, s) \<leftarrow> (if ok then map_option (\<lambda>(st, s). (st \<noteq> MODEM_OFF, s)) (mb_isModemOn U s) else Some (False, s));
     (ok, s) \<leftarrow>
       (if ok
        then let (ok, s) = sendCommand (st_Printf (cmdCGDCONT (mb_apn s))) s
             in if ok then readResponse U REPLY_OK defaultTimeout s else Some (False, s)
        else Some (False, s));
     ignore_rest U ok s
   }"

subsection \<open>BG96\<close>

definition cmdCGATT1 :: "byte list" where "cmdCGATT1 = ascii ''AT+CGATT=1''"
definition cmdATE0 :: "byte list" where "cmdATE0 = ascii ''ATE0''"

definition bg_attach :: "('w, 'm) mb_uart \<Rightarrow> ('w, 'm) mb \<Rightarrow> (bool \<times> ('w, 'm) mb) option" where
  "bg_attach U s =
     (let (ok, s) = sendCommand_cstr cmdCGATT1 s
      in do {
        (ok, s) \<leftarrow> (if ok then readResponse U REPLY_OK 60000 s else Some (False, s));
        ignore_rest U ok s
      })"

definition bg_reboot :: "('w, 'm) mb_uart \<Rightarrow> ('w, 'm) mb \<Rightarrow> (bool \<times> ('w, 'm) mb) option" where
  "bg_reboot U s =
     (let (_, s) = sendCommand_cstr cmdATE0 s
      in do {
        (_, s) \<leftarrow> readResponse U REPLY_OK md_oneSecond s;
        (st, s) \<leftarrow> mb_isModemOn U s;
        (ok, s) \<leftarrow> (if st = MODEM_ON then map_option (\<lambda>(st, s). (st = MODEM_OFF, s)) (mb_switchModem U MODEM_OFF s) else Some (True, s));
        ignore_rest U ok s
      })"

definition bg_initialize :: "('w, 'm) mb_uart \<Rightarrow> ('w, 'm) mb \<Rightarrow> (bool \<times> ('w, 'm) mb) option" where
  "bg_initialize U s = do {
     (ok, s) \<leftarrow> cmd_until U cmdCFUN1 okReply md_tenSeconds (True, s);
     (ok, s) \<leftarrow> ignore_rest U ok s;
     (ok, s) \<leftarrow> (if ok then map_option (\<lambda>(st, s). (st \<noteq> MODEM_OFF, s)) (mb_isModemOn U s) else Some (False, s));
     (ok, s) \<leftarrow>
       (if ok
        then let (ok, s) = sendCommand (st_Printf (cmdCGDCONT (mb_apn s))) s
             in if ok then readResponse U REPLY_OK defaultTimeout s else Some (False, s)
        else Some (False, s));
     ignore_rest U ok s
   }"

end
