(* ===== verification/ModemReports.thy ===== *)
theory ModemReports
  imports Texts ModemDrivers
begin

text \<open>
  What the modem reports on its own, and what the application sees of it.
\<close>

subsection \<open>The registration state\<close>

text \<open>The reference: the report as the texts of its fields give it.\<close>

definition cereg_fields :: "byte list list \<Rightarrow> cereg_response \<Rightarrow> cereg_response option" where
  "cereg_fields gs r = do {
     stat \<leftarrow> c_atoi (gs ! 0);
     act \<leftarrow> c_atoi (gs ! 3);
     causeType \<leftarrow> c_atoi (gs ! 4);
     rejectCause \<leftarrow> c_atoi (gs ! 5);
     Some \<lparr>cr_stat = stat, cr_tac = put_field 2 (gs ! 1) (cr_tac r), cr_ci = put_field 4 (gs ! 2) (cr_ci r), cr_act = act,
       cr_causeType = causeType, cr_rejectCause = rejectCause, cr_activeTime = put_field 8 (gs ! 6) (cr_activeTime r),
       cr_periodicTau = put_field 8 (gs ! 7) (cr_periodicTau r)\<rparr>
   }"

text \<open>The fields of the report hold the texts they are declared for and a terminating zero.\<close>

definition cereg_sized :: "cereg_response \<Rightarrow> bool" where
  "cereg_sized r \<longleftrightarrow> length (cr_tac r) = 3 \<and> length (cr_ci r) = 5 \<and> length (cr_activeTime r) = 9 \<and> length (cr_periodicTau r) = 9"

lemma length_put_field: "len < length dest \<Longrightarrow> length (put_field len xs dest) = length dest"
  by (simp add: put_field_def min_def)

lemma cereg_fields_sized: "cereg_fields gs r = Some r' \<Longrightarrow> cereg_sized r \<Longrightarrow> cereg_sized r'"
  by (auto simp: cereg_fields_def cereg_sized_def bind_eq_Some_conv length_put_field)

lemma copy_field_rep:
  assumes "st_rep t xs" and "xs \<noteq> []" and "0 < len" and "length dest = Suc len"
  shows "copy_field dest len t = Some (put_field len xs dest)"
  using st_copy_rep [OF assms(1-3), of dest] assms(4) by (simp add: copy_field_def)

lemma cereg_of_rep:
  assumes "st_list_rep q gs" and "length gs = 8" and "list_all (\<lambda>g. g \<noteq> []) gs" and "cereg_sized r"
  shows "cereg_of q r = cereg_fields gs r"
proof -
  have at: "st_rep (sq_at (int i) q) (gs ! i)" if "i < 8" for i
    using assms(1,2) that by (auto simp: st_list_rep_def sq_at_def sq_valid_def list_all2_conv_all_nth)
  have ne: "gs ! i \<noteq> []" if "i < 8" for i using assms(2,3) that by (simp add: list_all_length)
  have tx: "text_of (sq_at (int i) q) = gs ! i" if "i < 8" for i using text_of_rep [OF at [OF that]] .
  have "text_of (sq_at 0 q) = gs ! 0" "text_of (sq_at 3 q) = gs ! 3" "text_of (sq_at 4 q) = gs ! 4" "text_of (sq_at 5 q) = gs ! 5"
    using tx [of 0] tx [of 3] tx [of 4] tx [of 5] by simp_all
  moreover have "copy_field (cr_tac r) cuTacLen (sq_at 1 q) = Some (put_field 2 (gs ! 1) (cr_tac r))"
    "copy_field (cr_ci r) cuCiLen (sq_at 2 q) = Some (put_field 4 (gs ! 2) (cr_ci r))"
    "copy_field (cr_activeTime r) cuActiveTimeLen (sq_at 6 q) = Some (put_field 8 (gs ! 6) (cr_activeTime r))"
    "copy_field (cr_periodicTau r) cuPeriodicTauLen (sq_at 7 q) = Some (put_field 8 (gs ! 7) (cr_periodicTau r))"
    using assms(4) copy_field_rep [OF at ne, of 1] copy_field_rep [OF at ne, of 2] copy_field_rep [OF at ne, of 6] copy_field_rep [OF at ne, of 7]
    by (simp_all add: cuTacLen_def cuCiLen_def cuActiveTimeLen_def cuPeriodicTauLen_def cereg_sized_def)
  ultimately show ?thesis by (simp add: cereg_of_def cereg_fields_def)
qed

text \<open>What follows the colon: the prefix of a report is skipped with the spaces behind it.\<close>

lemma behind_colon_rep:
  assumes "58 \<notin> set name" and "0 \<notin> set name" and "0 \<notin> set params" and "params \<noteq> []" and "hd params \<noteq> 32"
    and "length name \<noteq> npos"
  shows "behind_colon (name @ 58 # replicate k 32 @ params) = Some (Some params)"
proof -
  let ?t = "name @ 58 # replicate k 32 @ params"
  have "search_sub [58] ?t = Some (length name)" using assms(1) by (induction name) auto
  moreover have "0 \<notin> set ?t" using assms(2,3) by auto
  ultimately have pos: "st_find_char 58 (of_text ?t) = Some (length name)"
    using st_find_char_rep [OF of_text_block, of ?t 58] by simp
  have "dropWhile (\<lambda>c. c = 32) (replicate k 32 @ params) = params"
    using assms(4,5) by (cases params) (simp_all add: dropWhile_append)
  then show ?thesis using pos assms(4,6) by (simp add: behind_colon_def)
qed

text \<open>
  C25: A registration report reaches the handler of the application with its numbers and the leading
  characters of its texts exactly when eight of its fields are not empty. The fields are counted and
  numbered without the empty ones: a report that leaves out one of the optional fields is dropped.
\<close>

theorem cereg_reported:
  assumes "mb_ceregHandler s = Some h" and "cereg_sized (mb_ceregResponse s)"
    and "fs \<noteq> []" and "list_all (\<lambda>f. 44 \<notin> set f \<and> 0 \<notin> set f) fs" and "comma fs \<noteq> []" and "hd (comma fs) \<noteq> 32"
    and "length (comma fs) < npos"
  shows "mb_parseCeregUrc (respCEREG @ replicate k 32 @ comma fs) s
    = (let gs = filter (\<lambda>f. f \<noteq> []) fs
       in if length gs = 8
          then map_option (\<lambda>r. s\<lparr>mb_ceregResponse := r, se_env := h r (se_env s)\<rparr>) (cereg_fields gs (mb_ceregResponse s))
          else Some s)"
proof -
  let ?gs = "filter (\<lambda>f. f \<noteq> []) fs"
  have no0: "0 \<notin> set (comma fs)" using assms(4) by (intro comma_no_zero) (auto simp: list_all_iff)
  have params: "behind_colon (respCEREG @ replicate k 32 @ comma fs) = Some (Some (comma fs))"
    using behind_colon_rep [of "ascii ''+CEREG''" "comma fs" k, OF _ _ no0 assms(5,6)]
    by (simp add: respCEREG_def ascii_def npos_def size_t_mod_def)
  obtain q where q: "st_split_char 44 False (of_text (comma fs)) = Some q"
    "st_list_rep q (if ?gs = [] then [comma fs] else ?gs)"
    by (rule split_comma [OF assms(3,4,7)])
  have count: "sq_count q = int (length (if ?gs = [] then [comma fs] else ?gs))"
    using list_all2_lengthD [OF q(2) [unfolded st_list_rep_def]] by (simp add: sq_count_def)
  have eight: "sq_count q = ceregParamCount \<longleftrightarrow> length ?gs = 8"
    by (simp only: count ceregParamCount_def) (cases "?gs = []", simp_all)
  show ?thesis
  proof (cases "length ?gs = 8")
    case True
    then have "?gs \<noteq> []" by auto
    then have "st_list_rep q ?gs" using q(2) by simp
    moreover have "list_all (\<lambda>g. g \<noteq> []) ?gs" by (simp add: list_all_iff)
    ultimately have "cereg_of q (mb_ceregResponse s) = cereg_fields ?gs (mb_ceregResponse s)"
      using True assms(2) by (intro cereg_of_rep) simp_all
    then show ?thesis using True eight assms(1) params q(1)
      by (cases "cereg_fields ?gs (mb_ceregResponse s)") (simp_all add: mb_parseCeregUrc_def)
  next
    case False
    then show ?thesis using eight assms(1) params q(1) by (simp add: mb_parseCeregUrc_def)
  qed
qed

definition report_fields :: "byte list list" where
  "report_fields = map ascii [''1'', ''00C3'', ''0000A1B2'', ''9'', ''0'', ''0'', ''00100100'', ''01000111'']"

definition listening_modem :: "cereg_response list mbase" where
  "listening_modem = (mbase_new [])\<lparr>mb_ceregHandler := Some (\<lambda>r w. r # w)\<rparr>"

lemma listening_modem_facts:
  "mb_ceregHandler listening_modem = Some (\<lambda>r w. r # w)" "cereg_sized (mb_ceregResponse listening_modem)"
  "se_env listening_modem = []" "mb_ceregResponse listening_modem = cereg_new"
  by (simp_all add: listening_modem_def mbase_new_def serial_new_def serial.defs cereg_new_def cereg_sized_def)

lemma cereg_reported_witness:
  "map_option (\<lambda>s. map (\<lambda>r. (cr_stat r, cr_tac r, cr_act r)) (se_env s))
      (mb_parseCeregUrc (respCEREG @ replicate 1 32 @ comma report_fields) listening_modem) = Some [(1, [48, 48, 0], 9)]
    \<and> mb_parseCeregUrc (respCEREG @ replicate 1 32 @ comma (report_fields[4 := []])) listening_modem = Some listening_modem"
proof -
  note d = report_fields_def ascii_def npos_def size_t_mod_def
  have f: "report_fields \<noteq> []" "list_all (\<lambda>f. 44 \<notin> set f \<and> 0 \<notin> set f) report_fields" "comma report_fields \<noteq> []"
    "hd (comma report_fields) \<noteq> 32" "length (comma report_fields) < npos"
    by (simp_all add: d)
  have g: "report_fields[4 := []] \<noteq> []" "list_all (\<lambda>f. 44 \<notin> set f \<and> 0 \<notin> set f) (report_fields[4 := []])"
    "comma (report_fields[4 := []]) \<noteq> []" "hd (comma (report_fields[4 := []])) \<noteq> 32" "length (comma (report_fields[4 := []])) < npos"
    by (simp_all add: d)
  have "map_option (\<lambda>r. (cr_stat r, cr_tac r, cr_act r)) (cereg_fields (filter (\<lambda>f. f \<noteq> []) report_fields) cereg_new) = Some (1, [48, 48, 0], 9)"
    "length (filter (\<lambda>f. f \<noteq> []) report_fields) = 8" "length (filter (\<lambda>f. f \<noteq> []) (report_fields[4 := []])) = 7"
    by (simp_all add: d cereg_fields_def c_atoi_def c_isspace_def c_isdigit_def digits_value_def cereg_new_def put_field_def)
  then show ?thesis
    using cereg_reported [OF listening_modem_facts(1,2) f, of 1] cereg_reported [OF listening_modem_facts(1,2) g, of 1]
    by (auto simp: listening_modem_facts Let_def simp del: append.simps replicate.simps)
qed

end
