(* ===== verification/Connectivity.thy ===== *)
theory Connectivity
  imports Network
begin

text \<open>
  The network classes whose modem keeps the received datagrams: \<open>nbiotconnectivity.cpp\<close> and
  \<open>modems/SARA-N2XX-B656/network.cpp\<close>, \<open>modems/SARA-N2XX-B657SP3/network.cpp\<close>. The filter only counts
  the bytes that the modem has; \<open>ipRead\<close> fetches them with a command. The three classes differ in the texts of their
  commands, which the record \<open>dialect\<close> holds, and in \<open>read\<close>.
\<close>

record dialect =
  dl_NSOCR :: "int \<Rightarrow> byte list"
  dl_NSONMI :: "int \<Rightarrow> byte list"
  dl_NSOST :: "int \<Rightarrow> byte list \<Rightarrow> int \<Rightarrow> int \<Rightarrow> byte list"
  dl_tail :: "byte list"
  dl_quoted :: bool
  dl_readInterval :: int

definition cmdNSOCR_quoted :: "int \<Rightarrow> byte list" where
  "cmdNSOCR_quoted p = ascii ''AT+NSOCR='' @ [34] @ ascii ''DGRAM'' @ [34] @ ascii '',17,'' @ c_dec p @ [13]"
definition respNSONMI_space :: "int \<Rightarrow> byte list" where "respNSONMI_space n = ascii ''+NSONMI: '' @ c_dec n @ [44]"
definition cmdNSORF :: "int \<Rightarrow> int \<Rightarrow> byte list" where
  "cmdNSORF n len = ascii ''AT+NSORF='' @ c_dec n @ [44] @ c_dec len @ [13]"
definition cmdNSOST_quoted :: "int \<Rightarrow> byte list \<Rightarrow> int \<Rightarrow> int \<Rightarrow> byte list" where
  "cmdNSOST_quoted n host p len = ascii ''AT+NSOST='' @ c_dec n @ [44, 34] @ host @ [34, 44] @ c_dec p @ [44] @ c_dec len @ [44, 34]"

definition neul :: dialect where
  "neul = \<lparr>dl_NSOCR = cmdNSOCR_quoted, dl_NSONMI = respNSONMI_space, dl_NSOST = cmdNSOST_quoted, dl_tail = [34], dl_quoted = True,
     dl_readInterval = 100\<rparr>"

definition sara_b656 :: dialect where
  "sara_b656 = \<lparr>dl_NSOCR = cmdNSOCR, dl_NSONMI = respNSONMI, dl_NSOST = cmdNSOST, dl_tail = [13], dl_quoted = False,
     dl_readInterval = 250\<rparr>"

definition sara_b657 :: dialect where
  "sara_b657 = \<lparr>dl_NSOCR = cmdNSOCR_quoted, dl_NSONMI = respNSONMI_space, dl_NSOST = cmdNSOST_quoted, dl_tail = [34], dl_quoted = True,
     dl_readInterval = 250\<rparr>"

text \<open>The byte count is a \<open>size_t\<close>, 32 bits wide.\<close>

record 'w connectivity = "'w atcmd" +
  cn_connectionNumber :: int
  cn_hostname :: "byte list"
  cn_port :: u16
  cn_bytesAvail :: u32
  cn_nsonmi :: "byte list"
  cn_lastListenPort :: u16

type_synonym ('w, 'm) cn = "('w, 'm) connectivity_scheme"
type_synonym ('w, 'm) cn_uart = "('w, ('m connectivity_ext) atcmd_ext) uart"

definition connectivity_new :: "'w \<Rightarrow> 'w connectivity" where
  "connectivity_new w = serial.extend (serial_new w)
     \<lparr>at_response = [], cn_connectionNumber = - 1, cn_hostname = [], cn_port = 0, cn_bytesAvail = 0, cn_nsonmi = [],
      cn_lastListenPort = word_of_int (listenPortBase - 1)\<rparr>"

definition cn_ipAvailable :: "('w, 'm) cn \<Rightarrow> int" where
  "cn_ipAvailable s = uint (and (cn_bytesAvail s) 0xFFFF)"

definition cn_parseFilterResult :: "byte list \<Rightarrow> ('w, 'm) cn \<Rightarrow> ('w, 'm) cn option" where
  "cn_parseFilterResult strFilterResult s = do {
     pos \<leftarrow> st_find_char 44 (of_text strFilterResult);
     if pos \<noteq> npos
     then do {
       number \<leftarrow> st_substr (pos + 1) npos (of_text strFilterResult);
       n \<leftarrow> c_atoi (text_of number);
       Some (s\<lparr>cn_bytesAvail := word_of_int n\<rparr>)
     }
     else Some s
   }"

definition cn_uart :: "('w \<Rightarrow> ntime \<times> 'w) \<Rightarrow> ('w, 'm) cn_uart" where
  "cn_uart clock = \<lparr>ua_clock = clock, ua_handle = (\<lambda>_. cn_parseFilterResult)\<rparr>"

definition cn_connect :: "dialect \<Rightarrow> ('w, 'm) cn_uart \<Rightarrow> byte list \<Rightarrow> u16 \<Rightarrow> ('w, 'm) cn \<Rightarrow> (bool \<times> ('w, 'm) cn) option" where
  "cn_connect D U hostname port s =
     (let listenPort = (if 0 \<le> cn_connectionNumber s \<and> cn_connectionNumber s < maxSocket
            then word_of_int (listenPortBase + cn_connectionNumber s) else cn_lastListenPort s);
          (ok, s) = sendCommand (st_Printf (dl_NSOCR D (uint listenPort))) s
      in do {
        (ret, s) \<leftarrow> (if ok then readResponse U REPLY_ANY md_threeSeconds s else Some (False, s));
        (ret, s) \<leftarrow>
          (if ret
           then do {
             n \<leftarrow> c_atoi (at_response s);
             Some (if 0 \<le> n \<and> n < maxSocket
                   then (True, s\<lparr>cn_connectionNumber := n, cn_hostname := hostname, cn_port := port, cn_lastListenPort := listenPort\<rparr>)
                   else (False, s\<lparr>cn_connectionNumber := - 1, cn_hostname := [], cn_port := 0\<rparr>))
           }
           else Some (False, s));
        (ret, s) \<leftarrow> ignore_rest U ret s;
        Some (ret, if ret
                   then let s = s\<lparr>cn_nsonmi := st_Printf (dl_NSONMI D (cn_connectionNumber s))\<rparr>
                        in snd (addUrcFilter (cn_nsonmi s) 0 s)
                   else s)
      })"

text \<open>\<open>ipRead\<close>: what is in the answer of the modem, the data that were read before in front of it.\<close>

definition nsorf_answer :: "dialect \<Rightarrow> byte list \<Rightarrow> int \<Rightarrow> ('w, 'm) cn \<Rightarrow> ((int \<times> byte list) \<times> ('w, 'm) cn) option" where
  "nsorf_answer D data len s = do {
     ok \<leftarrow> st_find (Some (okReply @ [0])) (of_text (at_response s));
     if ok = 0 then Some ((0, data), s)
     else do {
       list \<leftarrow> st_split_char 44 False (of_text (at_response s));
       if sq_count list = 6
       then do {
         n \<leftarrow> c_atoi (text_of (sq_at 0 list));
         if cn_connectionNumber s = n
         then do {
           avail \<leftarrow> c_atoi (text_of (sq_at 3 list));
           if 0 < avail \<and> avail \<le> len
           then do {
             hex \<leftarrow> (if dl_quoted D then st_strip 34 (sq_at 4 list) else Some (sq_at 4 list));
             hex \<leftarrow> st_data hex;
             d \<leftarrow> st_fromHex hex;
             left \<leftarrow> c_atoi (text_of (sq_at 5 list));
             Some ((avail, data @ text_of d), s\<lparr>cn_bytesAvail := word_of_int left\<rparr>)
           }
           else Some ((avail, data), s)
         }
         else Some ((- 1, data), s)
       }
       else Some ((- 1, data), s)
     }
   }"

definition cn_ipRead ::
  "dialect \<Rightarrow> ('w, 'm) cn_uart \<Rightarrow> byte list \<Rightarrow> int \<Rightarrow> int \<Rightarrow> ('w, 'm) cn \<Rightarrow> ((int \<times> byte list) \<times> ('w, 'm) cn) option" where
  "cn_ipRead D U data len timeout_ms s =
     (let (timer, s) = se_Timer U timeout_ms s;
          (ok, s) = sendCommand (st_Printf (cmdNSORF (cn_connectionNumber s) len)) s
      in do {
        (ok, s) \<leftarrow> (if ok then readResponse U REPLY_ANY timeout_ms s else Some (False, s));
        (r, s) \<leftarrow> (if ok then nsorf_answer D data len s else Some ((- 1, data), s));
        let (left, s) = se_remaining U timer s;
        (_, s) \<leftarrow> readResponse U REPLY_IGNORE (left mod 65536) s;
        Some (r, s)
      })"

text \<open>The copy to the caller, for the return code \<open>rc\<close>.\<close>

definition copy_out :: "byte list \<Rightarrow> int \<Rightarrow> byte list \<Rightarrow> byte list option option" where
  "copy_out buffer rc data = (if 0 < rc then map_option snd (st_copy (Some buffer) (nat rc) (of_text data)) else Some (Some buffer))"

text \<open>The timeout of the last read.\<close>

definition last_timeout :: "('w, 'm) cn_uart \<Rightarrow> int \<Rightarrow> ntimer \<Rightarrow> ('w, 'm) cn \<Rightarrow> int \<times> ('w, 'm) cn" where
  "last_timeout U interval timer s =
     (let (left, s) = se_remaining U timer s
      in if interval < left then let (left, s) = se_remaining U timer s in (left mod 65536, s) else (interval, s))"

subsection \<open>\<open>nbiotconnectivity.cpp\<close>\<close>

definition MQTTSN_MIN_PACKET_LEN :: int where "MQTTSN_MIN_PACKET_LEN = 1"

partial_function (option) cn_wait ::
  "('w, 'm) cn_uart \<Rightarrow> ntimer \<Rightarrow> int \<Rightarrow> byte list \<times> int \<Rightarrow> ('w, 'm) cn \<Rightarrow> ((byte list \<times> int) \<times> ('w, 'm) cn) option" where
  "cn_wait U timer reqLen R s =
     (case R of (data, bytes) \<Rightarrow>
       (let (left, s) = se_remaining U timer s
        in if dl_readInterval neul < left
           then let dgmLen = cn_ipAvailable s
                in if reqLen \<le> dgmLen + bytes \<or> 0 < bytes \<and> 0 < dgmLen then Some ((data, bytes), s)
                   else Option.bind (cn_ipRead neul U data 1 (dl_readInterval neul) s) (\<lambda>((rb, data), s).
                     cn_wait U timer reqLen (data, if 0 < rb then bytes + rb else bytes) s)
           else Some ((data, bytes), s)))"

definition cn_read ::
  "('w, 'm) cn_uart \<Rightarrow> byte list \<Rightarrow> int \<Rightarrow> int \<Rightarrow> ('w, 'm) cn \<Rightarrow> (int \<times> byte list option \<times> ('w, 'm) cn) option" where
  "cn_read U buffer len timeout_ms s =
     (let reqLen = (if MQTTSN_MIN_PACKET_LEN < len then len else MQTTSN_MIN_PACKET_LEN);
          (timer, s) = se_Timer U timeout_ms s
      in do {
        ((data, bytes), s) \<leftarrow> cn_wait U timer reqLen ([], 0) s;
        let dgmLen = cn_ipAvailable s;
        ((rc, data), s) \<leftarrow>
          (if 0 < dgmLen
           then let (to, s) = last_timeout U (dl_readInterval neul) timer s
                in map_option (\<lambda>((rb, data), s). ((rb + bytes, data), s)) (cn_ipRead neul U data dgmLen to s)
           else Some ((bytes, data), s));
        buffer \<leftarrow> copy_out buffer rc data;
        Some (rc, buffer, s)
      })"

subsection \<open>SARA\<close>

partial_function (option) sara_wait ::
  "dialect \<Rightarrow> ('w, 'm) cn_uart \<Rightarrow> ntimer \<Rightarrow> int \<Rightarrow> byte list \<times> int \<times> int \<Rightarrow> ('w, 'm) cn
     \<Rightarrow> ((byte list \<times> int \<times> int) \<times> ('w, 'm) cn) option" where
  "sara_wait D U timer reqLen R s =
     (case R of (data, bytes, dgmLen) \<Rightarrow>
       (let (left, s) = se_remaining U timer s
        in if dl_readInterval D < left \<and> bytes < reqLen
           then Option.bind (readResponse U REPLY_IGNORE (dl_readInterval D) s) (\<lambda>(_, s).
             let dgmLen = cn_ipAvailable s
             in if dgmLen = 0 then sara_wait D U timer reqLen (data, bytes, dgmLen) s
                else if reqLen \<le> dgmLen + bytes then Some ((data, bytes, dgmLen), s)
                else Option.bind (cn_ipRead D U data dgmLen (dl_readInterval D) s) (\<lambda>((rb, data), s).
                  sara_wait D U timer reqLen (data, if 0 < rb then bytes + rb else bytes, dgmLen) s))
           else Some ((data, bytes, dgmLen), s)))"

definition sara_read ::
  "dialect \<Rightarrow> ('w, 'm) cn_uart \<Rightarrow> byte list \<Rightarrow> int \<Rightarrow> int \<Rightarrow> ('w, 'm) cn \<Rightarrow> (int \<times> byte list option \<times> ('w, 'm) cn) option" where
  "sara_read D U buffer len timeout_ms s =
     (let (timer, s) = se_Timer U timeout_ms s
      in if 0 \<le> len
         then do {
           ((rb, data), s) \<leftarrow> cn_ipRead D U [] len (dl_readInterval D) s;
           ((data, bytes, dgmLen), s) \<leftarrow> sara_wait D U timer len (data, if 0 < rb then rb else 0, 0) s;
           ((rc, data), s) \<leftarrow>
             (if 0 < dgmLen \<and> bytes < len
              then let (to, s) = last_timeout U (dl_readInterval D) timer s
                   in map_option (\<lambda>((rb, data), s). ((rb + bytes, data), s)) (cn_ipRead D U data (len - bytes) to s)
              else Some ((bytes, data), s));
           buffer \<leftarrow> copy_out buffer rc data;
           Some (rc, buffer, s)
         }
         else Some (- 1, Some buffer, s))"

subsection \<open>Writing and disconnecting\<close>

definition cn_write :: "dialect \<Rightarrow> ('w, 'm) cn_uart \<Rightarrow> byte list \<Rightarrow> nat \<Rightarrow> int \<Rightarrow> ('w, 'm) cn \<Rightarrow> (bool \<times> ('w, 'm) cn) option" where
  "cn_write D U buffer len timeout s = do {
     (ret, s) \<leftarrow>
       (if cn_hostname s \<noteq> [] \<and> 0 < cn_port s
        then do {
          let data = st_Printf (dl_NSOST D (cn_connectionNumber s) (cn_hostname s) (uint (cn_port s)) (to_int (int len)));
          t \<leftarrow> st_of (Some buffer) len;
          hex \<leftarrow> st_toHex t;
          let (ok, s) = sendCommand_cstr (data @ text_of hex @ dl_tail D) s;
          if ok then readResponse U REPLY_ANY timeout s else Some (False, s)
        }
        else Some (False, s));
     ignore_rest U ret s
   }"

definition cn_disconnect :: "('w, 'm) cn_uart \<Rightarrow> ('w, 'm) cn \<Rightarrow> (bool \<times> ('w, 'm) cn) option" where
  "cn_disconnect U s = do {
     (ret, s) \<leftarrow>
       (if 0 \<le> cn_connectionNumber s
        then let (ok, s) = sendCommand (st_Printf (cmdNSOCL (cn_connectionNumber s))) s
             in if ok then readResponse U REPLY_OK md_tenSeconds s else Some (False, s)
        else Some (True, s));
     let s = (if ret
              then let s = s\<lparr>cn_hostname := [], cn_port := 0, cn_connectionNumber := - 1\<rparr>;
                       s = snd (removeUrcFilter (cn_nsonmi s) s)
                   in s\<lparr>cn_nsonmi := []\<rparr>
              else s);
     ignore_rest U ret s
   }"

definition cn_isConnected :: "('w, 'm) cn \<Rightarrow> bool" where
  "cn_isConnected s \<longleftrightarrow> 0 \<le> cn_connectionNumber s"

end
