(* ===== verification/Bg96Network.thy ===== *)
theory Bg96Network
  imports ModemBase CircularBuffer
begin

text \<open>
  The network class of the BG96 (\<open>modems/BG96MA-R02A07M1G/network.cpp\<close>): \<open>ipRead\<close> asks the modem for bytes and
  puts them into the ring buffer, from which \<open>read\<close> takes them. \<open>connect\<close> formats a \<open>%d\<close> without an argument: the
  number that this prints is the parameter \<open>stray\<close>.
\<close>

record 'w bg_network = "'w atcmd" +
  bg_connectionNumber :: int
  bg_hostname :: "byte list"
  bg_port :: u16
  bg_bytesAvail :: "32 word"
  bg_qiurc :: "byte list"
  bg_readBuffer :: cbuf

type_synonym ('w, 'm) bgn = "('w, 'm) bg_network_scheme"
type_synonym ('w, 'm) bgn_uart = "('w, ('m bg_network_ext) atcmd_ext) uart"

definition READ_BUFFER_SIZE :: nat where "READ_BUFFER_SIZE = 256"
definition bg_readInterval :: int where "bg_readInterval = 100"

definition cmdQIOPEN :: "int \<Rightarrow> byte list \<Rightarrow> int \<Rightarrow> byte list" where
  "cmdQIOPEN n host p = ascii ''AT+QIOPEN=1,'' @ c_dec n @ [44, 34] @ ascii ''UDP'' @ [34, 44, 34] @ host @ [34, 44] @ c_dec p @ [13]"
definition respQIURCrecv :: "byte list" where "respQIURCrecv = ascii ''+QIURC: '' @ [34] @ ascii ''recv'' @ [34, 44]"
definition cmdQIRD :: "int \<Rightarrow> int \<Rightarrow> byte list" where "cmdQIRD n len = ascii ''AT+QIRD='' @ c_dec n @ [44] @ c_dec len @ [13]"
definition respQIRD :: "byte list" where "respQIRD = ascii ''+QIRD:''"
definition cmdQISENDEX :: "int \<Rightarrow> byte list" where "cmdQISENDEX n = ascii ''AT+QISENDEX='' @ c_dec n @ [44, 34]"
definition respQISENDEX :: "byte list" where "respQISENDEX = ascii ''SEND OK''"
definition cmdQICLOSE :: "int \<Rightarrow> byte list" where "cmdQICLOSE n = ascii ''AT+QICLOSE='' @ c_dec n @ [13]"

definition bg_network_new :: "'w \<Rightarrow> 'w bg_network" where
  "bg_network_new w = serial.extend (serial_new w)
     \<lparr>at_response = [], bg_connectionNumber = - 1, bg_hostname = [], bg_port = 0, bg_bytesAvail = 0, bg_qiurc = [],
      bg_readBuffer = \<lparr>m_buffer = replicate READ_BUFFER_SIZE 0, m_head = 0, m_tail = 0, m_full = False\<rparr>\<rparr>"

definition bgn_parseFilterResult :: "byte list \<Rightarrow> ('w, 'm) bgn \<Rightarrow> ('w, 'm) bgn option" where
  "bgn_parseFilterResult strFilterResult s = do {
     pos \<leftarrow> st_find_char 44 (of_text strFilterResult);
     Some (if pos \<noteq> npos then s\<lparr>bg_bytesAvail := 1\<rparr> else s)
   }"

definition bgn_uart :: "('w \<Rightarrow> ntime \<times> 'w) \<Rightarrow> ('w, 'm) bgn_uart" where
  "bgn_uart clock = \<lparr>ua_clock = clock, ua_handle = (\<lambda>_. bgn_parseFilterResult)\<rparr>"

text \<open>The connection number that the answer of \<open>AT+QIOPEN\<close> carries, if it has the expected form.\<close>

definition qiopen_number :: "byte list \<Rightarrow> int option option" where
  "qiopen_number response = do {
     l \<leftarrow> st_split (Some [44, 0]) False (of_text response);
     if sq_count l = 2
     then do {
       r \<leftarrow> c_atoi (text_of (sq_at 1 l));
       if r = 0
       then do {
         tokens \<leftarrow> st_split (Some [58, 0]) False (sq_at 0 l);
         if sq_count tokens = 2 then map_option Some (c_atoi (text_of (sq_at 1 tokens))) else Some None
       }
       else Some None
     }
     else Some None
   }"

definition bgn_connect ::
  "int \<Rightarrow> ('w, 'm) bgn_uart \<Rightarrow> byte list \<Rightarrow> u16 \<Rightarrow> ('w, 'm) bgn \<Rightarrow> (bool \<times> ('w, 'm) bgn) option" where
  "bgn_connect stray U hostname port s =
     (let (ok, s) = sendCommand (st_Printf (cmdQIOPEN (bg_connectionNumber s + 1) hostname (uint port))) s
      in do {
        (ret, s) \<leftarrow> (if ok then readResponse U REPLY_OK md_threeSeconds s else Some (False, s));
        (ret, s) \<leftarrow>
          (if ret
           then do {
             (ret, s) \<leftarrow> readUntil U (st_Printf (ascii ''+QIOPEN: '' @ c_dec stray @ ascii '',0'')) md_tenSeconds False s;
             Some (ret, if ret then s\<lparr>bg_connectionNumber := bg_connectionNumber s + 1\<rparr> else s)
           }
           else Some (False, s));
        (ret, s) \<leftarrow>
          (if ret
           then do {
             number \<leftarrow> qiopen_number (at_response s);
             let s = (case number of Some n \<Rightarrow> s\<lparr>bg_connectionNumber := n\<rparr> | None \<Rightarrow> s);
             Some (if 0 \<le> bg_connectionNumber s
                   then (number \<noteq> None, s\<lparr>bg_hostname := hostname, bg_port := port\<rparr>)
                   else (False, s\<lparr>bg_hostname := [], bg_port := 0, bg_connectionNumber := - 1\<rparr>))
           }
           else Some (False, s));
        (ret, s) \<leftarrow> ignore_rest U ret s;
        Some (ret, if ret
                   then let s = s\<lparr>bg_qiurc := st_Printf respQIURCrecv\<rparr> in snd (addUrcFilter (bg_qiurc s) 0 s)
                   else s)
      })"

text \<open>The bytes behind the header of \<open>+QIRD\<close>, with the number of those that came in time.\<close>

fun raw_bytes :: "('w, 'm) bgn_uart \<Rightarrow> ntimer \<Rightarrow> nat \<Rightarrow> int \<Rightarrow> ('w, 'm) bgn \<Rightarrow> (int \<times> ('w, 'm) bgn) option" where
  "raw_bytes U timer 0 rb s = Some (rb, s)"
| "raw_bytes U timer (Suc k) rb s =
     (let (left, s) = se_remaining U timer s
      in do {
        (c, s) \<leftarrow> readRaw U (left mod 65536) s;
        case c of
          Some c \<Rightarrow> do { (_, b) \<leftarrow> cb_put c (bg_readBuffer s); raw_bytes U timer k (rb + 1) (s\<lparr>bg_readBuffer := b\<rparr>) }
        | None \<Rightarrow> raw_bytes U timer k rb s
      })"

definition bgn_ipRead :: "('w, 'm) bgn_uart \<Rightarrow> int \<Rightarrow> int \<Rightarrow> ('w, 'm) bgn \<Rightarrow> (int \<times> ('w, 'm) bgn) option" where
  "bgn_ipRead U len timeout_ms s =
     (let (timer, s) = se_Timer U timeout_ms s;
          (ok, s) = sendCommand (st_Printf (cmdQIRD (bg_connectionNumber s) len)) s
      in do {
        (ok, s) \<leftarrow>
          (if ok then let (left, s) = se_remaining U timer s in readUntil U respQIRD (left mod 65536) False s
           else Some (False, s));
        (rb, s) \<leftarrow>
          (if ok
           then do {
             avail \<leftarrow>
               (if at_response s \<noteq> errReply
                then do {
                  number \<leftarrow> behind_colon (at_response s);
                  case number of Some number \<Rightarrow> c_atoi number | None \<Rightarrow> Some (- 1)
                }
                else Some (- 1));
             if 0 < avail
             then do {
               (rb, s) \<leftarrow> raw_bytes U timer (nat avail) 0 s;
               let (left, s) = se_remaining U timer s;
               (_, s) \<leftarrow> readResponse U REPLY_OK (left mod 65536) s;
               Some (rb, s)
             }
             else Some (0, s)
           }
           else Some (0, s));
        let (left, s) = se_remaining U timer s;
        (_, s) \<leftarrow> readResponse U REPLY_IGNORE (left mod 65536) s;
        Some (rb, s)
      })"

partial_function (option) bgn_wait ::
  "('w, 'm) bgn_uart \<Rightarrow> ntimer \<Rightarrow> int \<Rightarrow> int \<Rightarrow> ('w, 'm) bgn \<Rightarrow> (int \<times> ('w, 'm) bgn) option" where
  "bgn_wait U timer reqLen bytes s =
     (let (left, s) = se_remaining U timer s
      in if bg_readInterval < left \<and> int (cb_size (bg_readBuffer s)) < reqLen
         then Option.bind (readResponse U REPLY_IGNORE bg_readInterval s) (\<lambda>(_, s).
           if bg_bytesAvail s \<noteq> 0
           then Option.bind (bgn_ipRead U (reqLen - bytes) bg_readInterval s) (\<lambda>(rb, s).
             bgn_wait U timer reqLen (if 0 < rb then bytes + rb else bytes) (s\<lparr>bg_bytesAvail := 0\<rparr>))
           else bgn_wait U timer reqLen bytes s)
         else Some (bytes, s))"

text \<open>Taking up to \<open>n\<close> bytes from the ring buffer.\<close>

fun drain :: "nat \<Rightarrow> byte list \<Rightarrow> cbuf \<Rightarrow> (byte list \<times> cbuf) option" where
  "drain 0 data b = Some (data, b)"
| "drain (Suc n) data b =
     (if cb_empty b then Some (data, b)
      else do { (c, b) \<leftarrow> cb_get b; drain n (data @ [case c of Some x \<Rightarrow> x | None \<Rightarrow> 0]) b })"

definition bgn_read ::
  "('w, 'm) bgn_uart \<Rightarrow> byte list \<Rightarrow> int \<Rightarrow> int \<Rightarrow> ('w, 'm) bgn \<Rightarrow> (int \<times> byte list option \<times> ('w, 'm) bgn) option" where
  "bgn_read U buffer len timeout_ms s =
     (let bytes = int (cb_size (bg_readBuffer s)); (timer, s) = se_Timer U timeout_ms s
      in if 0 \<le> len
         then do {
           (rb, s) \<leftarrow>
             (if bg_bytesAvail s = 0
              then map_option (\<lambda>(rb, s). (rb, s\<lparr>bg_bytesAvail := 0\<rparr>)) (bgn_ipRead U len bg_readInterval s)
              else Some (- 1, s));
           (bytes, s) \<leftarrow> bgn_wait U timer len (if 0 < rb then bytes + rb else bytes) s;
           if 0 < bytes
           then do {
             (data, b) \<leftarrow> drain (nat len) [] (bg_readBuffer s);
             (_, buffer) \<leftarrow> st_copy (Some buffer) (length data) (of_text data);
             Some (int (length data), buffer, s\<lparr>bg_readBuffer := b\<rparr>)
           }
           else Some (- 1, Some buffer, s)
         }
         else Some (- 1, Some buffer, s))"

definition bgn_write :: "('w, 'm) bgn_uart \<Rightarrow> byte list \<Rightarrow> nat \<Rightarrow> int \<Rightarrow> ('w, 'm) bgn \<Rightarrow> (bool \<times> ('w, 'm) bgn) option" where
  "bgn_write U buffer len timeout s = do {
     (ret, s) \<leftarrow>
       (if bg_hostname s \<noteq> [] \<and> 0 < bg_port s
        then do {
          let data = st_Printf (cmdQISENDEX (bg_connectionNumber s));
          t \<leftarrow> st_of (Some buffer) len;
          hex \<leftarrow> st_toHex t;
          let (ok, s) = sendCommand_cstr (data @ text_of hex @ [34]) s;
          (ok, s) \<leftarrow> (if ok then readResponse U REPLY_EXACT timeout s else Some (False, s));
          Some (ok \<and> at_response s = respQISENDEX, s)
        }
        else Some (False, s));
     ignore_rest U ret s
   }"

definition bgn_disconnect :: "('w, 'm) bgn_uart \<Rightarrow> ('w, 'm) bgn \<Rightarrow> (bool \<times> ('w, 'm) bgn) option" where
  "bgn_disconnect U s = do {
     (ret, s) \<leftarrow>
       (if 0 \<le> bg_connectionNumber s
        then let (ok, s) = sendCommand (st_Printf (cmdQICLOSE (bg_connectionNumber s))) s
             in if ok then readResponse U REPLY_OK md_tenSeconds s else Some (False, s)
        else Some (True, s));
     let s = (if ret
              then snd (removeUrcFilter respQIURCrecv (s\<lparr>bg_hostname := [], bg_port := 0, bg_connectionNumber := - 1\<rparr>))
              else s);
     ignore_rest U ret s
   }"

end
