(* ===== verification/CoreApp.thy ===== *)
theory CoreApp
  imports ModemDrivers
begin

text \<open>
  The configuration of the core library (\<open>nbiotcoreapp.cpp\<close>): the clock, and the modem with its serial port, which
  the network shares. A C string is its text, \<open>None\<close> the null pointer.
\<close>

subsection \<open>Types\<close>

record 'w core_conf =
  cc_tickFrequency :: nat
  cc_readstatus_fu :: "('w \<Rightarrow> byte \<times> 'w) option"
  cc_readbyte_fu :: "('w \<Rightarrow> byte \<times> 'w) option"
  cc_putchar_fu :: "(byte \<Rightarrow> 'w \<Rightarrow> 'w) option"
  cc_writestatus_fu :: "('w \<Rightarrow> WriteStatus \<times> 'w) option"
  cc_apn :: "byte list option"
  cc_apnUser :: "byte list option"
  cc_apnPwd :: "byte list option"
  cc_plmn :: "byte list option"

definition FIFTY_HZ :: nat where "FIFTY_HZ = 50"
definition TEN_KHZ :: nat where "TEN_KHZ = 10000"
definition CoreNoError :: "32 word" where "CoreNoError = 0"
definition CoreErrorTickFreq :: "32 word" where "CoreErrorTickFreq = 1"
definition CoreErrorReadStatusFu :: "32 word" where "CoreErrorReadStatusFu = 2"
definition CoreErrorReadByteFu :: "32 word" where "CoreErrorReadByteFu = 4"
definition CoreErrorPutCharFu :: "32 word" where "CoreErrorPutCharFu = 16"
definition CoreErrorWriteStatusFu :: "32 word" where "CoreErrorWriteStatusFu = 32"
definition CoreErrorMultipleConfig :: "32 word" where "CoreErrorMultipleConfig = 16384"
definition CoreErrorNoConfig :: "32 word" where "CoreErrorNoConfig = 32768"

record 'w core =
  ca_time :: ntime
  ca_modem :: "'w mbase"
  ca_coreConfigError :: "32 word"

definition core_new :: "'w \<Rightarrow> 'w core" where
  "core_new w = \<lparr>ca_time = nt_new, ca_modem = mbase_new w, ca_coreConfigError = CoreErrorNoConfig\<rparr>"

subsection \<open>The configuration\<close>

text \<open>A function of the board: stored, or an error.\<close>

definition core_board ::
  "'f option \<Rightarrow> ('f option \<Rightarrow> 'w mbase \<Rightarrow> 'w mbase) \<Rightarrow> 32 word \<Rightarrow> 32 word \<times> 'w core \<Rightarrow> 32 word \<times> 'w core" where
  "core_board f configSet err st =
     (case st of (result, a) \<Rightarrow>
        if f \<noteq> None then (result, a\<lparr>ca_modem := configSet f (ca_modem a)\<rparr>) else (or result err, a))"

text \<open>A text that is given and not empty. (The test for the APN accepts the empty one.)\<close>

definition core_text ::
  "byte list option \<Rightarrow> (byte list \<Rightarrow> bool) \<Rightarrow> (byte list \<Rightarrow> 'w mbase \<Rightarrow> 'w mbase) \<Rightarrow> 'w core \<Rightarrow> 'w core" where
  "core_text t ok configSet a =
     (case t of Some xs \<Rightarrow> if ok xs then a\<lparr>ca_modem := configSet xs (ca_modem a)\<rparr> else a | None \<Rightarrow> a)"

definition core_nbiotCoreConfig :: "nat \<Rightarrow> 'w core_conf \<Rightarrow> 'w core \<Rightarrow> 32 word \<times> 'w core" where
  "core_nbiotCoreConfig clocks_per_sec conf a =
     (if ca_coreConfigError a = CoreErrorNoConfig
      then let (result, a) =
                 (if FIFTY_HZ \<le> cc_tickFrequency conf \<and> cc_tickFrequency conf \<le> TEN_KHZ
                  then (CoreNoError, a\<lparr>ca_time := nt_setTickFrequency clocks_per_sec (cc_tickFrequency conf) (ca_time a)\<rparr>)
                  else (CoreErrorTickFreq, a));
               (result, a) = core_board (cc_readstatus_fu conf) configSetReadStatus CoreErrorReadStatusFu (result, a);
               (result, a) = core_board (cc_readbyte_fu conf) configSetReadByte CoreErrorReadByteFu (result, a);
               (result, a) = core_board (cc_putchar_fu conf) configSetPutChar CoreErrorPutCharFu (result, a);
               (result, a) = core_board (cc_writestatus_fu conf) configSetWriteStatus CoreErrorWriteStatusFu (result, a);
               a = core_text (cc_apn conf) (\<lambda>_. True) (\<lambda>t m. m\<lparr>mb_apn := t\<rparr>) a;
               a = core_text (cc_apnUser conf) (\<lambda>t. t \<noteq> []) (\<lambda>t m. m\<lparr>mb_apnUser := t\<rparr>) a;
               a = core_text (cc_apnPwd conf) (\<lambda>t. t \<noteq> []) (\<lambda>t m. m\<lparr>mb_apnPwd := t\<rparr>) a;
               a = core_text (cc_plmn conf) (\<lambda>t. t \<noteq> []) (\<lambda>t m. m\<lparr>mb_plmn := t\<rparr>) a
           in (result, a\<lparr>ca_coreConfigError := result\<rparr>)
      else (CoreErrorMultipleConfig, a))"

text \<open>\<open>nbiotSwitchModem\<close> of the C interface, for the driver's method.\<close>

definition nbiotSwitchModem ::
  "(ModemState \<Rightarrow> 'w mbase \<Rightarrow> (ModemState \<times> 'w mbase) option) \<Rightarrow> nat \<Rightarrow> 'w core \<Rightarrow> (nat \<times> 'w core) option" where
  "nbiotSwitchModem switchModem state a =
     map_option (\<lambda>(ms, m). (if ms = MODEM_ON then 1 else 0, a\<lparr>ca_modem := m\<rparr>))
       (switchModem (if state \<noteq> 0 then MODEM_ON else MODEM_OFF) (ca_modem a))"

subsection \<open>What a configuration accepts\<close>

lemma core_board_facts:
  assumes "core_board f c e (r, a) = (r', a')"
  shows "r' = (if f \<noteq> None then r else or r e)" and "ca_coreConfigError a' = ca_coreConfigError a"
  using assms by (auto simp: core_board_def split: if_splits)

text \<open>
  The errors of a configuration are the parts that are out of range or missing, and nothing else. A second one
  is refused, also when the first one failed.
\<close>

lemma core_config_outcome:
  assumes "ca_coreConfigError a = CoreErrorNoConfig" and "core_nbiotCoreConfig cps conf a = (r, a')"
  shows "r = or (or (or (or
        (if 50 \<le> cc_tickFrequency conf \<and> cc_tickFrequency conf \<le> 10000 then 0 else CoreErrorTickFreq)
        (if cc_readstatus_fu conf = None then CoreErrorReadStatusFu else 0))
        (if cc_readbyte_fu conf = None then CoreErrorReadByteFu else 0))
        (if cc_putchar_fu conf = None then CoreErrorPutCharFu else 0))
        (if cc_writestatus_fu conf = None then CoreErrorWriteStatusFu else 0)"
    and "core_nbiotCoreConfig cps conf2 a' = (CoreErrorMultipleConfig, a')"
proof -
  obtain r0 a0 where s0: "(if FIFTY_HZ \<le> cc_tickFrequency conf \<and> cc_tickFrequency conf \<le> TEN_KHZ
      then (CoreNoError, a\<lparr>ca_time := nt_setTickFrequency cps (cc_tickFrequency conf) (ca_time a)\<rparr>)
      else (CoreErrorTickFreq, a)) = (r0, a0)" by force
  obtain r1 a1 where s1: "core_board (cc_readstatus_fu conf) configSetReadStatus CoreErrorReadStatusFu (r0, a0) = (r1, a1)" by force
  obtain r2 a2 where s2: "core_board (cc_readbyte_fu conf) configSetReadByte CoreErrorReadByteFu (r1, a1) = (r2, a2)" by force
  obtain r3 a3 where s3: "core_board (cc_putchar_fu conf) configSetPutChar CoreErrorPutCharFu (r2, a2) = (r3, a3)" by force
  obtain r4 a4 where s4: "core_board (cc_writestatus_fu conf) configSetWriteStatus CoreErrorWriteStatusFu (r3, a3) = (r4, a4)" by force
  have "r = r4" "ca_coreConfigError a' = r4"
    using assms s0 s1 s2 s3 s4 by (auto simp: core_nbiotCoreConfig_def Let_def)
  moreover have "r0 = (if 50 \<le> cc_tickFrequency conf \<and> cc_tickFrequency conf \<le> 10000 then 0 else CoreErrorTickFreq)"
    using s0 by (auto simp: FIFTY_HZ_def TEN_KHZ_def CoreNoError_def split: if_splits)
  ultimately show r: "r = or (or (or (or
        (if 50 \<le> cc_tickFrequency conf \<and> cc_tickFrequency conf \<le> 10000 then 0 else CoreErrorTickFreq)
        (if cc_readstatus_fu conf = None then CoreErrorReadStatusFu else 0))
        (if cc_readbyte_fu conf = None then CoreErrorReadByteFu else 0))
        (if cc_putchar_fu conf = None then CoreErrorPutCharFu else 0))
        (if cc_writestatus_fu conf = None then CoreErrorWriteStatusFu else 0)"
    using core_board_facts(1) [OF s1] core_board_facts(1) [OF s2] core_board_facts(1) [OF s3] core_board_facts(1) [OF s4] by simp
  have "r \<noteq> CoreErrorNoConfig" unfolding r
    by (simp add: CoreErrorTickFreq_def CoreErrorReadStatusFu_def CoreErrorReadByteFu_def CoreErrorPutCharFu_def CoreErrorWriteStatusFu_def CoreErrorNoConfig_def)
  then show "core_nbiotCoreConfig cps conf2 a' = (CoreErrorMultipleConfig, a')"
    using \<open>r = r4\<close> \<open>ca_coreConfigError a' = r4\<close> by (simp add: core_nbiotCoreConfig_def)
qed

end
