(* ===== verification/Spec2Isabelle.thy ===== *)
theory Spec2Isabelle
  imports Prelude CircularBuffer UtilList NbiotString Clock Packet Packet_Publish Packet_Connect Packet_Subscribe Topic Loop SnClient SnFrame SnLoops SnAnswers Stm NbiotStm NbiotLive NbiotRuns NbiotMqtt MqttRuns MqttConfig
    Datagrams ModemReports Connectivity Bg96Network CoreApp
begin

text \<open>
  LibNbiot is a C++ library with which a small device talks MQTT-SN to a broker over an NB-IoT
  modem.  This development models its data structures, its wire protocol and its topic handling,
  and proves the properties that make them correct, or that show where they are not.

  \<^bold>\<open>The program.\<close>  The application uses the class NbiotMqtt (src/libNbiot/src/nbiotmqtt.cpp), which
  drives a state machine (src/libNbiot/src/nbiotstm.cpp over src/external/src/StateMachine).  Its
  actions attach the modem, open a socket and use the MQTT-SN client
  (src/external/src/paho.mqtt-sn.embedded-c/MQTTSNClient/MQTTSNClient.h), which serializes and
  parses packets (src/external/src/paho.mqtt-sn.embedded-c/MQTTSNPacket) and looks topics up in the
  registry (src/libNbiot/src/nbiottopicregistry.cpp).  The modem side (src/libNbiotCore) reads
  serial bytes through a ring buffer, keeps texts in its own string class, and measures time with
  a clock that a tick interrupt advances.

  \<^bold>\<open>Theories.\<close>
  Prelude holds the lemmas and conventions that the components share: copying within a block of
  memory, runs of operations that may fail, and the locale of a data refinement.
  CircularBuffer models nbiotcircularbuffer.h: the record of the array, the two indices and the
  full flag, with each member function as a function on it.  The buffer is shown to implement a
  bounded queue of bytes.
  UtilList models List/list.h: the nodes live in a store of addresses and each operation follows
  the pointers of the code.  The list is shown to implement a sequence.
  NbiotString models nbiotstring.cpp: a string object is its data block, its size and its capacity;
  operations keep the terminating zero and implement operations on texts.
  Clock models nbiottime.cpp and nbiottimer.cpp.  The operations that run next to the tick
  interrupt are given as sequences of accesses, so that an interrupt can be placed between any two.
  Packet models the primitives of MQTTSNPacket.c; Packet_Publish, Packet_Connect and
  Packet_Subscribe model the serializers and parsers of each message over a buffer, with the
  return codes of the code, and prove that what one side writes the other side reads.
  Loop models nbiotloop.h and nbiotloopclient.h: the queue of loop clients, with the handlers of a
  client as functions on the whole state, and proves that the clients are served in order.
  SnClient models the part of MQTTSNClient.h that sends, receives and answers packets over a
  platform (a network and a clock) as parameter; SnFrame shows what this part leaves alone; SnLoops
  models the requests and the loops of nbiotmqttsnclient.cpp, and SnAnswers shows what they make of
  the packets of the gateway.
  Stm models the state machine framework src/external/src/StateMachine: nodes, the entering of states,
  the event dispatcher with its two queues and its timeout.  NbiotStm models the connection state
  machine on it (nbiotstm.cpp, nbiotstmdatapool.h): its graph, every action and the loop that waits
  for the modem to attach, with the modem and the network as functions on the environment.
  NbiotLive proves its invariant and that every action and every dispatch returns; NbiotRuns defines
  the reachable states and proves that the machine follows the diagram of its states and is never
  stuck, and what it does on the way to a connection.
  SerialPort models serial.cpp and urcfilterlist.h: bytes and lines read from the functions of the board
  within their timeouts, the filters that hand unsolicited lines to their handlers, writing.  AtCommands
  models atcommands.cpp over it, with atoi and the formats that the drivers use.  ModemTools models
  nbiotmodemtools.cpp, ModemBase and ModemDrivers the classes of modems/modembase.cpp and of the four
  modem.cpp, Network the socket of the BC95 with its ring buffer (network.cpp), Connectivity the networks
  whose modem keeps the datagrams (nbiotconnectivity.cpp and those of the SARA) and Bg96Network that of the
  BG96.  CoreApp models the configuration of nbiotcoreapp.cpp.  SerialRuns shows what is
  read from a board that has its bytes ready, as a scan of the bytes; Texts holds the lemmas on
  numbers and fields; NetworkRuns follows a datagram from its line into the ring buffer.  AtRuns proves what a
  command and its answer give the caller, ModemReports what a registration report does, and Datagrams what
  happens to the datagrams of a socket between the lines of an answer, in the ring buffer and in read.
  NbiotMqtt models the library interface (nbiotmqtt.cpp, libnbiot.cpp): the event loop that drives the
  loop controller and the state machine, the requests of the application, the notifications of the
  client and the configuration.  MqttRuns proves what the requests lead to across these components, and
  MqttConfig what a configuration accepts and stores.
  Topic models nbiottopic.h and nbiottopicregistry.cpp: topics, matching of wildcards, and the
  registry over the sequence that UtilList implements.

  \<^bold>\<open>Interfaces.\<close>  Each contract is a locale, interpreted on the definitions of the component that
  provides it: data_refinement (a concrete state implements an abstract one), bounded_fifo and
  bulk_fifo (the ring buffer), packet_codec (a serializer and the parser of its packets),
  loop_controlled (what the loop controller may rely on in its clients), stm_host (the members that the
  framework sees of a machine), stm_running (a machine whose handlers return and keep an invariant) and
  line_handlers (what a handler of a filter may do while a line is read).

  \<^bold>\<open>Conventions.\<close>  The target is the 32-bit microcontroller the library is written for: size_t,
  unsigned long and unsigned int are 32 bits, int is a 32-bit two's complement integer, char is
  signed.  Machine integers are words of their width where an overflow matters and natural numbers
  where the code compares or adds sizes far from the bound.  Memory allocation succeeds.  Bytes
  that the code leaves indeterminate are zero in the model, and no property depends on them.
  A read or write outside a block is the value None of an operation that can reach one.
  Loops recurse on the list or on the measure that the loop of the code decreases; a loop that may
  run for ever (waiting for the network) is a partial function whose value is None if it does. No
  fuel is used.

  \<^bold>\<open>Not modelled.\<close>  Printing for debug output; the instance of nbiotcoreapp.cpp and the functions of its
  C interface libnbiotcore.cpp that only call a method; the function pointer templates (a callback is a
  value, a number that the record of the serial port interprets, or a parameter); the variant
  MANUAL_CONTEXT; the examples and the tests.  The connection state machine and the client take the modem and the network as parameters: they are not
  joined with the drivers, whose state is that of the serial port.
\<close>

end
